(* ===== verification/Tornas_Prelude.thy ===== *)
theory Tornas_Prelude
  imports Main "HOL-Library.Word"
begin

text \<open>
  The vocabulary every component of the development shares: the machine integers of the
  program at their width, Rust's string operations on byte strings, and decimal printing.

  A Rust \<open>str\<close> is UTF-8, and a HOL \<open>string\<close> is a list of bytes, so \<open>length\<close> is
  \<open>str::len\<close>. Splitting and matching on ASCII characters is the same on bytes as on
  characters, because no ASCII byte occurs inside a longer UTF-8 sequence. Trimming is defined
  on the UTF-8 encodings of every character with the Unicode property White_Space.

  Unsigned and signed 64-bit values are both \<open>64 word\<close>: addition and subtraction wrap, as in
  the release profile of the workspace (\<open>overflow-checks = false\<close> in \<open>Cargo.toml\<close>), and a
  signed comparison reads its operands with \<open>sint\<close>.
\<close>

section \<open>Fact collections\<close>

named_theorems str_simps \<open>equations of the string operations\<close>
named_theorems wf_intros \<open>preservation of the invariants\<close>

section \<open>Machine integers\<close>

type_synonym u64 = "64 word"
type_synonym i64 = "64 word"
type_synonym u32 = "32 word"
type_synonym u16 = "16 word"
type_synonym u8 = "8 word"

definition sat_sub :: "u64 \<Rightarrow> u64 \<Rightarrow> u64" where
  "sat_sub a b = (if a < b then 0 else a - b)"

definition i64_lt :: "i64 \<Rightarrow> i64 \<Rightarrow> bool" where
  "i64_lt a b \<longleftrightarrow> sint a < sint b"

definition i64_le :: "i64 \<Rightarrow> i64 \<Rightarrow> bool" where
  "i64_le a b \<longleftrightarrow> sint a \<le> sint b"

definition i64_max :: "i64 \<Rightarrow> i64 \<Rightarrow> i64" where
  "i64_max a b = (if sint a \<le> sint b then b else a)"

lemma unat_sat_sub: "unat (sat_sub a b) = unat a - unat b"
  by (simp add: sat_sub_def unat_sub word_le_nat_alt word_less_nat_alt)

lemma unat_add_exact: "unat a + unat b < 2 ^ 64 \<Longrightarrow> unat (a + b) = unat a + unat b"
  for a b :: u64
  by (simp add: unat_word_ariths)

lemma sint_diff_exact:
  "- (2 ^ 63) \<le> sint a - sint b \<Longrightarrow> sint a - sint b < 2 ^ 63 \<Longrightarrow> sint (a - b) = sint a - sint b"
  for a b :: i64
  by (simp add: sint_word_ariths signed_take_bit_int_eq_self)

section \<open>Durations\<close>

text \<open>A \<open>std::time::Duration\<close>: whole seconds and nanoseconds below a second.\<close>

record duration =
  d_secs :: u64
  d_nanos :: nat

definition d_zero :: "duration \<Rightarrow> bool" where
  "d_zero d \<longleftrightarrow> d_secs d = 0 \<and> d_nanos d = 0"

definition d_less :: "duration \<Rightarrow> duration \<Rightarrow> bool" where
  "d_less a b \<longleftrightarrow> d_secs a < d_secs b \<or> d_secs a = d_secs b \<and> d_nanos a < d_nanos b"

definition from_secs :: "u64 \<Rightarrow> duration" where
  "from_secs s = \<lparr>d_secs = s, d_nanos = 0\<rparr>"

section \<open>Results\<close>

fun is_ok :: "'e + 'a \<Rightarrow> bool" where
  "is_ok (Inl e) = False"
| "is_ok (Inr a) = True"

fun ok :: "'e + 'a \<Rightarrow> 'a option" where
  "ok (Inl e) = None"
| "ok (Inr a) = Some a"

lemma is_ok_iff: "is_ok r \<longleftrightarrow> (\<exists>a. r = Inr a)"
  by (cases r) auto

section \<open>Byte strings\<close>

definition starts_with :: "string \<Rightarrow> string \<Rightarrow> bool" where
  "starts_with s p \<longleftrightarrow> take (length p) s = p"

definition ends_with :: "string \<Rightarrow> string \<Rightarrow> bool" where
  "ends_with s p \<longleftrightarrow> length p \<le> length s \<and> drop (length s - length p) s = p"

definition strip_prefix :: "string \<Rightarrow> string \<Rightarrow> string option" where
  "strip_prefix s p = (if starts_with s p then Some (drop (length p) s) else None)"

definition strip_suffix :: "string \<Rightarrow> string \<Rightarrow> string option" where
  "strip_suffix s p = (if ends_with s p then Some (take (length s - length p) s) else None)"

fun contains :: "string \<Rightarrow> string \<Rightarrow> bool" where
  "contains [] p \<longleftrightarrow> p = []"
| "contains (c # s) p \<longleftrightarrow> starts_with (c # s) p \<or> contains s p"

lemma starts_with_iff [str_simps]: "starts_with s p \<longleftrightarrow> (\<exists>r. s = p @ r)"
  unfolding starts_with_def by (metis append_eq_conv_conj append_take_drop_id)

lemma ends_with_iff [str_simps]: "ends_with s p \<longleftrightarrow> (\<exists>r. s = r @ p)"
proof
  assume "ends_with s p"
  then have "s = take (length s - length p) s @ p"
    unfolding ends_with_def by (metis append_take_drop_id)
  then show "\<exists>r. s = r @ p" by blast
next
  assume "\<exists>r. s = r @ p"
  then show "ends_with s p" by (auto simp: ends_with_def)
qed

lemma strip_prefix_Some [str_simps]: "strip_prefix s p = Some r \<longleftrightarrow> s = p @ r"
  by (auto simp: strip_prefix_def starts_with_def) (metis append_take_drop_id)

lemma strip_suffix_Some [str_simps]: "strip_suffix s p = Some r \<longleftrightarrow> s = r @ p"
proof
  assume "strip_suffix s p = Some r"
  then show "s = r @ p"
    by (auto simp: strip_suffix_def ends_with_def split: if_splits) (metis append_take_drop_id)
next
  assume "s = r @ p"
  then show "strip_suffix s p = Some r" by (simp add: strip_suffix_def ends_with_def)
qed

text \<open>\<open>str::split(c)\<close>: always at least one piece; \<open>str::split_once(c)\<close>: at the first \<open>c\<close>.\<close>

fun split_char :: "char \<Rightarrow> string \<Rightarrow> string list" where
  "split_char c [] = [[]]"
| "split_char c (x # xs) =
     (if x = c then [] # split_char c xs
      else (case split_char c xs of [] \<Rightarrow> [[x]] | p # ps \<Rightarrow> (x # p) # ps))"

fun split_once :: "char \<Rightarrow> string \<Rightarrow> (string \<times> string) option" where
  "split_once c [] = None"
| "split_once c (x # xs) =
     (if x = c then Some ([], xs)
      else map_option (\<lambda>(k, v). (x # k, v)) (split_once c xs))"

definition join_with :: "string \<Rightarrow> string list \<Rightarrow> string" where
  "join_with sep ps =
     (case ps of [] \<Rightarrow> [] | p # qs \<Rightarrow> p @ concat (map (\<lambda>q. sep @ q) qs))"

lemma split_char_nonempty [simp]: "split_char c s \<noteq> []"
  by (induction s) (auto split: list.splits)

lemma split_char_no_sep: "p \<in> set (split_char c s) \<Longrightarrow> c \<notin> set p"
  by (induction s arbitrary: p) (auto split: list.splits if_splits)

lemma join_split_char: "join_with [c] (split_char c s) = s"
proof (induction s)
  case (Cons x xs)
  then show ?case
    by (cases "split_char c xs") (auto simp: join_with_def)
qed (simp add: join_with_def)

lemma split_char_whole: "c \<notin> set s \<Longrightarrow> split_char c s = [s]"
  by (induction s) auto

lemma split_char_append: "c \<notin> set p \<Longrightarrow> split_char c (p @ c # s) = p # split_char c s"
  by (induction p) auto

lemma join_with_Cons: "join_with sep (p # q # qs) = p @ sep @ join_with sep (q # qs)"
  by (simp add: join_with_def)

lemma split_join: "ps \<noteq> [] \<Longrightarrow> (\<And>p. p \<in> set ps \<Longrightarrow> c \<notin> set p) \<Longrightarrow> split_char c (join_with [c] ps) = ps"
proof (induction ps)
  case (Cons p ps)
  show ?case
  proof (cases ps)
    case Nil
    with Cons.prems show ?thesis by (simp add: join_with_def split_char_whole)
  next
    case (Cons q qs)
    with Cons.IH Cons.prems show ?thesis by (simp add: join_with_Cons split_char_append)
  qed
qed simp

lemma split_once_Some:
  "split_once c s = Some (k, v) \<longleftrightarrow> s = k @ c # v \<and> c \<notin> set k"
proof (induction s arbitrary: k)
  case (Cons x xs)
  show ?case
  proof (cases "x = c")
    case True
    then show ?thesis by (cases k) auto
  next
    case False
    with Cons.IH show ?thesis by (cases k) auto
  qed
qed simp

lemma split_once_None: "split_once c s = None \<longleftrightarrow> c \<notin> set s"
  by (induction s) auto

text \<open>\<open>str::lines\<close>: split at line feeds, drop a final empty piece, strip one carriage return.\<close>

definition strip_cr :: "string \<Rightarrow> string" where
  "strip_cr s = (case strip_suffix s [CHR 0x0D] of Some r \<Rightarrow> r | None \<Rightarrow> s)"

fun str_lines :: "string \<Rightarrow> string list" where
  "str_lines s =
     (let ps = split_char (CHR 0x0A) s;
          qs = (if last ps = [] then butlast ps else ps)
      in map strip_cr (butlast qs) @
         (if qs = [] then [] else if last ps = [] then [strip_cr (last qs)] else [last qs]))"

subsection \<open>Trimming\<close>

definition ws_encodings :: "string list" where
  "ws_encodings =
     [[CHR 0x09], [CHR 0x0A], [CHR 0x0B], [CHR 0x0C], [CHR 0x0D], [CHR 0x20],
      [CHR 0xC2, CHR 0x85], [CHR 0xC2, CHR 0xA0], [CHR 0xE1, CHR 0x9A, CHR 0x80],
      [CHR 0xE2, CHR 0x80, CHR 0x80], [CHR 0xE2, CHR 0x80, CHR 0x81],
      [CHR 0xE2, CHR 0x80, CHR 0x82], [CHR 0xE2, CHR 0x80, CHR 0x83],
      [CHR 0xE2, CHR 0x80, CHR 0x84], [CHR 0xE2, CHR 0x80, CHR 0x85],
      [CHR 0xE2, CHR 0x80, CHR 0x86], [CHR 0xE2, CHR 0x80, CHR 0x87],
      [CHR 0xE2, CHR 0x80, CHR 0x88], [CHR 0xE2, CHR 0x80, CHR 0x89],
      [CHR 0xE2, CHR 0x80, CHR 0x8A], [CHR 0xE2, CHR 0x80, CHR 0xA8],
      [CHR 0xE2, CHR 0x80, CHR 0xA9], [CHR 0xE2, CHR 0x80, CHR 0xAF],
      [CHR 0xE2, CHR 0x81, CHR 0x9F], [CHR 0xE3, CHR 0x80, CHR 0x80]]"

fun strip_any :: "string list \<Rightarrow> string \<Rightarrow> string option" where
  "strip_any [] s = None"
| "strip_any (w # ws) s =
     (case strip_prefix s w of Some r \<Rightarrow> Some r | None \<Rightarrow> strip_any ws s)"

function trim_with :: "string list \<Rightarrow> string \<Rightarrow> string" where
  "trim_with ws s =
     (case strip_any ws s of
        None \<Rightarrow> s
      | Some r \<Rightarrow> if length r < length s then trim_with ws r else s)"
  by pat_completeness auto
termination
  by (relation "measure (\<lambda>(ws, s). length s)") auto

declare trim_with.simps [simp del]

definition trim_start :: "string \<Rightarrow> string" where
  "trim_start s = trim_with ws_encodings s"

definition trim_end :: "string \<Rightarrow> string" where
  "trim_end s = rev (trim_with (map rev ws_encodings) (rev s))"

definition trim :: "string \<Rightarrow> string" where
  "trim s = trim_end (trim_start s)"

text \<open>\<open>trim_end_matches(c)\<close> and \<open>trim_matches\<close> for single ASCII characters.\<close>

definition trim_end_char :: "char \<Rightarrow> string \<Rightarrow> string" where
  "trim_end_char c s = rev (dropWhile (\<lambda>x. x = c) (rev s))"

definition trim_chars :: "char set \<Rightarrow> string \<Rightarrow> string" where
  "trim_chars cs s = rev (dropWhile (\<lambda>x. x \<in> cs) (rev (dropWhile (\<lambda>x. x \<in> cs) s)))"

lemma strip_any_Some: "strip_any ws s = Some r \<Longrightarrow> \<exists>w \<in> set ws. s = w @ r"
  by (induction ws) (auto simp: str_simps split: option.splits)

lemma trim_with_suffix: "\<exists>p. s = p @ trim_with ws s"
proof (induction ws s rule: trim_with.induct)
  case (1 ws s)
  show ?case
  proof (cases "strip_any ws s")
    case None
    then show ?thesis by (simp add: trim_with.simps [of ws s])
  next
    case (Some r)
    then obtain w where w: "s = w @ r" by (blast dest: strip_any_Some)
    show ?thesis
    proof (cases "length r < length s")
      case True
      with Some 1 obtain p where "r = p @ trim_with ws r" by blast
      moreover have "trim_with ws s = trim_with ws r"
        using Some True by (simp add: trim_with.simps [of ws s])
      ultimately have "s = (w @ p) @ trim_with ws s" using w by simp
      then show ?thesis by blast
    qed (simp add: Some trim_with.simps [of ws s])
  qed
qed

lemma trim_with_fixed: "strip_any ws s = None \<Longrightarrow> trim_with ws s = s"
  by (simp add: trim_with.simps)

lemma strip_any_None: "(\<And>w. w \<in> set ws \<Longrightarrow> \<exists>c r. w = c # r \<and> c \<notin> set s) \<Longrightarrow> strip_any ws s = None"
  by (induction ws) (fastforce simp: strip_prefix_def starts_with_iff split: option.splits if_splits)+

text \<open>A string of printable ASCII characters without a space is its own trimmed form.\<close>

definition plain_char :: "char \<Rightarrow> bool" where
  "plain_char c \<longleftrightarrow> 0x20 < (of_char c :: nat) \<and> (of_char c :: nat) < 0x7F"

lemma trim_plain:
  assumes "list_all plain_char s"
  shows "trim s = s"
proof -
  have "list_all (\<lambda>w. case w of [] \<Rightarrow> False | c # r \<Rightarrow> \<not> plain_char c)
      (ws_encodings @ map rev ws_encodings)"
    by (simp add: ws_encodings_def plain_char_def)
  then have heads: "(case w of [] \<Rightarrow> False | c # r \<Rightarrow> \<not> plain_char c)"
    if "w \<in> set (ws_encodings @ map rev ws_encodings)" for w
    using that unfolding list_all_iff by (rule bspec)
  have fresh: "\<exists>c r. w = c # r \<and> c \<notin> set s" if w: "w \<in> set (ws_encodings @ map rev ws_encodings)" for w
  proof (cases w)
    case Nil
    with heads [OF w] show ?thesis by simp
  next
    case (Cons c r)
    with heads [OF w] assms show ?thesis by (auto simp: list_all_iff)
  qed
  have "strip_any ws_encodings s = None"
    by (rule strip_any_None, rule fresh) simp
  moreover have "strip_any (map rev ws_encodings) (rev s) = None"
    by (rule strip_any_None, simp only: set_rev, rule fresh) simp
  ultimately show ?thesis by (simp add: trim_def trim_start_def trim_end_def trim_with_fixed)
qed

lemma trim_end_char_suffix: "trim_end_char c s = [] \<or> last (trim_end_char c s) \<noteq> c"
proof (cases "dropWhile (\<lambda>x. x = c) (rev s)")
  case (Cons y ys)
  then have "y \<noteq> c" by (metis (mono_tags, lifting) hd_dropWhile list.distinct(1) list.sel(1))
  with Cons show ?thesis by (simp add: trim_end_char_def)
qed (simp add: trim_end_char_def)

subsection \<open>ASCII classes and case\<close>

definition is_ascii_digit :: "char \<Rightarrow> bool" where
  "is_ascii_digit c \<longleftrightarrow> 48 \<le> (of_char c :: nat) \<and> (of_char c :: nat) \<le> 57"

definition is_ascii_upper :: "char \<Rightarrow> bool" where
  "is_ascii_upper c \<longleftrightarrow> 65 \<le> (of_char c :: nat) \<and> (of_char c :: nat) \<le> 90"

definition is_ascii_lower :: "char \<Rightarrow> bool" where
  "is_ascii_lower c \<longleftrightarrow> 97 \<le> (of_char c :: nat) \<and> (of_char c :: nat) \<le> 122"

definition is_ascii_alphabetic :: "char \<Rightarrow> bool" where
  "is_ascii_alphabetic c \<longleftrightarrow> is_ascii_upper c \<or> is_ascii_lower c"

definition is_ascii_alphanumeric :: "char \<Rightarrow> bool" where
  "is_ascii_alphanumeric c \<longleftrightarrow> is_ascii_alphabetic c \<or> is_ascii_digit c"

definition lower_char :: "char \<Rightarrow> char" where
  "lower_char c = (if is_ascii_upper c then char_of ((of_char c :: nat) + 32) else c)"

definition upper_char :: "char \<Rightarrow> char" where
  "upper_char c = (if is_ascii_lower c then char_of ((of_char c :: nat) - 32) else c)"

definition to_ascii_lowercase :: "string \<Rightarrow> string" where
  "to_ascii_lowercase s = map lower_char s"

definition to_ascii_uppercase :: "string \<Rightarrow> string" where
  "to_ascii_uppercase s = map upper_char s"

definition eq_ignore_ascii_case :: "string \<Rightarrow> string \<Rightarrow> bool" where
  "eq_ignore_ascii_case a b \<longleftrightarrow> to_ascii_lowercase a = to_ascii_lowercase b"

lemma digit_plain: "is_ascii_digit c \<Longrightarrow> plain_char c"
  by (auto simp: is_ascii_digit_def plain_char_def)

lemma of_char_lower [simp]:
  "(of_char (lower_char c) :: nat) = (if is_ascii_upper c then of_char c + 32 else of_char c)"
  by (auto simp: lower_char_def is_ascii_upper_def)

lemma lower_char_idem [simp]: "lower_char (lower_char c) = lower_char c"
  by (auto simp: lower_char_def is_ascii_upper_def)

lemma to_ascii_lowercase_idem [simp]:
  "to_ascii_lowercase (to_ascii_lowercase s) = to_ascii_lowercase s"
  by (simp add: to_ascii_lowercase_def)

lemma to_ascii_lowercase_length [simp]: "length (to_ascii_lowercase s) = length s"
  by (simp add: to_ascii_lowercase_def)

section \<open>Decimal numbers\<close>

fun nat_digits :: "nat \<Rightarrow> string" where
  "nat_digits n =
     (if n < 10 then [char_of (48 + n)] else nat_digits (n div 10) @ [char_of (48 + n mod 10)])"

declare nat_digits.simps [simp del]

definition show_nat :: "nat \<Rightarrow> string" where
  "show_nat n = nat_digits n"

definition show_int :: "int \<Rightarrow> string" where
  "show_int i = (if i < 0 then ''-'' @ show_nat (nat (- i)) else show_nat (nat i))"

definition show_u64 :: "u64 \<Rightarrow> string" where
  "show_u64 w = show_nat (unat w)"

definition show_i64 :: "i64 \<Rightarrow> string" where
  "show_i64 w = show_int (sint w)"

definition digit_val :: "char \<Rightarrow> nat" where
  "digit_val c = of_char c - 48"

text \<open>The value of a digit string, and \<open>str::parse\<close> for an unsigned type of \<open>w\<close> bits: an
  optional plus sign, then at least one digit, then nothing, and no overflow.\<close>

definition digits_val :: "string \<Rightarrow> nat" where
  "digits_val s = foldl (\<lambda>n c. 10 * n + digit_val c) 0 s"

definition parse_unsigned :: "nat \<Rightarrow> string \<Rightarrow> nat option" where
  "parse_unsigned w s =
     (let d = (case strip_prefix s ''+'' of Some r \<Rightarrow> r | None \<Rightarrow> s)
      in if d \<noteq> [] \<and> list_all is_ascii_digit d \<and> digits_val d < 2 ^ w
         then Some (digits_val d) else None)"

lemma nat_digits_all_digits: "list_all is_ascii_digit (nat_digits n)"
proof (induction n rule: nat_digits.induct)
  case (1 n)
  then show ?case
    by (cases "n < 10") (auto simp: nat_digits.simps [of n] is_ascii_digit_def)
qed

lemma nat_digits_nonempty [simp]: "nat_digits n \<noteq> []"
  by (simp add: nat_digits.simps [of n])

lemma digits_val_append: "digits_val (s @ [c]) = 10 * digits_val s + digit_val c"
  by (simp add: digits_val_def)

lemma digits_val_nat_digits: "digits_val (nat_digits n) = n"
proof (induction n rule: nat_digits.induct)
  case (1 n)
  show ?case
  proof (cases "n < 10")
    case True
    then show ?thesis
      by (simp add: nat_digits.simps [of n] digits_val_def digit_val_def)
  next
    case False
    with 1 show ?thesis
      by (simp add: nat_digits.simps [of n] digits_val_append digit_val_def)
  qed
qed

lemma show_nat_inj: "show_nat a = show_nat b \<longleftrightarrow> a = b"
  by (metis digits_val_nat_digits show_nat_def)

lemma show_nat_digits: "c \<in> set (show_nat n) \<Longrightarrow> is_ascii_digit c"
  using nat_digits_all_digits [of n] by (auto simp: show_nat_def list_all_iff)

lemma parse_show_nat: "n < 2 ^ w \<Longrightarrow> parse_unsigned w (show_nat n) = Some n"
proof -
  assume n: "n < 2 ^ w"
  have "\<not> starts_with (show_nat n) ''+''"
  proof
    assume "starts_with (show_nat n) ''+''"
    then obtain r where "show_nat n = CHR ''+'' # r" by (auto simp: starts_with_iff)
    then have "is_ascii_digit (CHR ''+'')" by (metis list.set_intros(1) show_nat_digits)
    then show False by (simp add: is_ascii_digit_def)
  qed
  with n show ?thesis
    by (simp add: parse_unsigned_def strip_prefix_def show_nat_def nat_digits_all_digits
        digits_val_nat_digits)
qed

section \<open>Lists\<close>

text \<open>\<open>Iterator::min_by_key\<close> returns the first minimum, \<open>max_by_key\<close> the last maximum.\<close>

fun min_by_key :: "('a \<Rightarrow> 'k::linorder) \<Rightarrow> 'a list \<Rightarrow> 'a option" where
  "min_by_key f [] = None"
| "min_by_key f (x # xs) =
     (case min_by_key f xs of None \<Rightarrow> Some x | Some y \<Rightarrow> if f x \<le> f y then Some x else Some y)"

fun max_by_key :: "('a \<Rightarrow> 'k::linorder) \<Rightarrow> 'a list \<Rightarrow> 'a option" where
  "max_by_key f [] = None"
| "max_by_key f (x # xs) =
     (case max_by_key f xs of None \<Rightarrow> Some x | Some y \<Rightarrow> if f x \<le> f y then Some y else Some x)"

lemma min_by_key_None [simp]: "min_by_key f xs = None \<longleftrightarrow> xs = []"
  by (cases xs) (auto split: option.splits)

lemma max_by_key_None [simp]: "max_by_key f xs = None \<longleftrightarrow> xs = []"
  by (cases xs) (auto split: option.splits)

lemma min_by_key_Some: "min_by_key f xs = Some x \<Longrightarrow> x \<in> set xs \<and> (\<forall>y \<in> set xs. f x \<le> f y)"
  by (induction xs arbitrary: x) (fastforce split: option.splits if_splits)+

lemma max_by_key_Some: "max_by_key f xs = Some x \<Longrightarrow> x \<in> set xs \<and> (\<forall>y \<in> set xs. f y \<le> f x)"
  by (induction xs arbitrary: x) (fastforce split: option.splits if_splits)+

text \<open>Sorting by a key that a map does not change.\<close>

lemma insort_key_map: "(\<And>x. f (g x) = f x) \<Longrightarrow> insort_key f (g x) (map g xs) = map g (insort_key f x xs)"
  by (induction xs) auto

lemma sort_key_map: "(\<And>x. f (g x) = f x) \<Longrightarrow> sort_key f (map g xs) = map g (sort_key f xs)"
  by (induction xs) (simp_all add: insort_key_map)

end
