(* ===== verification/Net_Addr.thy ===== *)
theory Net_Addr
  imports Tornas_Prelude
begin

text \<open>
  Internet addresses and the standard library's textual forms of them, which the source gate,
  the tracker filter and the configuration check read: \<open>IpAddr\<close>, \<open>Ipv6Addr\<close> and \<open>SocketAddr\<close> of
  \<open>std::net\<close>. A parser takes the text and returns the value with the text it left.
\<close>

section \<open>Addresses\<close>

datatype ip_addr = V4 "32 word" | V6 "128 word"

text \<open>\<open>::ffff:a.b.c.d\<close> is the IPv4 address \<open>a.b.c.d\<close>.\<close>

definition to_ipv4_mapped :: "128 word \<Rightarrow> 32 word option" where
  "to_ipv4_mapped w = (if drop_bit 32 w = 0xFFFF then Some (ucast w) else None)"

definition ipv4_mapped :: "32 word \<Rightarrow> 128 word" where
  "ipv4_mapped w = push_bit 32 0xFFFF + ucast w"

definition of_octets :: "nat list \<Rightarrow> 32 word" where
  "of_octets bs = foldl (\<lambda>w b. 256 * w + of_nat b) 0 bs"

definition of_groups :: "nat list \<Rightarrow> 128 word" where
  "of_groups gs = foldl (\<lambda>w g. 65536 * w + of_nat g) 0 gs"

section \<open>Parsers\<close>

definition hex_val :: "char \<Rightarrow> nat option" where
  "hex_val c =
     (if is_ascii_digit c then Some (of_char c - 48)
      else if (of_char c :: nat) \<in> {97..102} then Some (of_char c - 87)
      else if (of_char c :: nat) \<in> {65..70} then Some (of_char c - 55)
      else None)"

definition digit_of :: "nat \<Rightarrow> char \<Rightarrow> nat option" where
  "digit_of radix c = (case hex_val c of Some d \<Rightarrow> if d < radix then Some d else None | None \<Rightarrow> None)"

definition is_digit_of :: "nat \<Rightarrow> char \<Rightarrow> bool" where
  "is_digit_of radix c \<longleftrightarrow> digit_of radix c \<noteq> None"

text \<open>
  \<open>read_number\<close>: as many digits as there are, refusing more than the given number of them, a
  value past the limit, and (unless allowed) a leading zero in front of another digit.
\<close>

definition read_number :: "nat \<Rightarrow> nat option \<Rightarrow> bool \<Rightarrow> nat \<Rightarrow> string \<Rightarrow> (nat \<times> string) option" where
  "read_number radix max_digits zeros bound s =
     (let ds = takeWhile (is_digit_of radix) s;
          v = foldl (\<lambda>n c. n * radix + the (digit_of radix c)) 0 ds
      in if ds = [] \<or> (\<exists>m \<in> set_option max_digits. m < length ds) \<or> bound \<le> v
            \<or> (\<not> zeros \<and> hd ds = CHR ''0'' \<and> 1 < length ds)
         then None else Some (v, drop (length ds) s))"

fun read_char :: "char \<Rightarrow> string \<Rightarrow> string option" where
  "read_char c [] = None"
| "read_char c (x # s) = (if x = c then Some s else None)"

text \<open>\<open>read_separator\<close>: the separator is expected in front of every item but the first.\<close>

definition read_sep :: "char \<Rightarrow> nat \<Rightarrow> string \<Rightarrow> string option" where
  "read_sep c i s = (if i = 0 then Some s else read_char c s)"

fun read_octets :: "nat \<Rightarrow> nat \<Rightarrow> string \<Rightarrow> (nat list \<times> string) option" where
  "read_octets i 0 s = Some ([], s)"
| "read_octets i (Suc n) s =
     (case read_sep CHR ''.'' i s of
        None \<Rightarrow> None
      | Some s1 \<Rightarrow> (case read_number 10 (Some 3) False 256 s1 of
          None \<Rightarrow> None
        | Some (b, s2) \<Rightarrow> map_option (\<lambda>(bs, r). (b # bs, r)) (read_octets (Suc i) n s2)))"

definition read_ipv4 :: "string \<Rightarrow> (32 word \<times> string) option" where
  "read_ipv4 s = map_option (\<lambda>(bs, r). (of_octets bs, r)) (read_octets 0 4 s)"

text \<open>
  \<open>read_groups\<close>: up to \<open>n\<close> groups, the current one having index \<open>i\<close>; where two are left an embedded
  IPv4 address may end the list. Returns the groups, whether they ended in IPv4, and the rest.
\<close>

fun read_groups :: "nat \<Rightarrow> nat \<Rightarrow> string \<Rightarrow> nat list \<times> bool \<times> string" where
  "read_groups i 0 s = ([], False, s)"
| "read_groups i (Suc n) s =
     (case (if 0 < n then (case read_sep CHR '':'' i s of None \<Rightarrow> None | Some s1 \<Rightarrow> read_octets 0 4 s1)
            else None) of
        Some (bs, r) \<Rightarrow> ([256 * bs ! 0 + bs ! 1, 256 * bs ! 2 + bs ! 3], True, r)
      | None \<Rightarrow>
          (case (case read_sep CHR '':'' i s of None \<Rightarrow> None
                 | Some s1 \<Rightarrow> read_number 16 (Some 4) True 65536 s1) of
             None \<Rightarrow> ([], False, s)
           | Some (g, r) \<Rightarrow> (case read_groups (Suc i) n r of (gs, v4, r') \<Rightarrow> (g # gs, v4, r'))))"

definition read_ipv6 :: "string \<Rightarrow> (128 word \<times> string) option" where
  "read_ipv6 s =
     (case read_groups 0 8 s of (head, v4, r) \<Rightarrow>
        if length head = 8 then Some (of_groups head, r)
        else if v4 then None
        else (case Option.bind (read_char CHR '':'' r) (read_char CHR '':'') of
                None \<Rightarrow> None
              | Some r1 \<Rightarrow>
                  (case read_groups 0 (8 - (length head + 1)) r1 of (tail, _, r2) \<Rightarrow>
                     Some (of_groups (head @ replicate (8 - length head - length tail) 0 @ tail), r2))))"

definition read_ip :: "string \<Rightarrow> (ip_addr \<times> string) option" where
  "read_ip s =
     (case read_ipv4 s of Some (a, r) \<Rightarrow> Some (V4 a, r)
      | None \<Rightarrow> map_option (\<lambda>(a, r). (V6 a, r)) (read_ipv6 s))"

definition read_port :: "string \<Rightarrow> (nat \<times> string) option" where
  "read_port s = Option.bind (read_char CHR '':'' s) (read_number 10 None True 65536)"

definition read_scope :: "string \<Rightarrow> string option" where
  "read_scope s =
     (case Option.bind (read_char CHR ''%'' s) (read_number 10 None True (2 ^ 32)) of
        Some (_, r) \<Rightarrow> Some r | None \<Rightarrow> Some s)"

definition read_socket :: "string \<Rightarrow> ((ip_addr \<times> nat) \<times> string) option" where
  "read_socket s =
     (case Option.bind (read_ipv4 s) (\<lambda>(a, r). map_option (\<lambda>(p, r'). ((V4 a, p), r')) (read_port r)) of
        Some res \<Rightarrow> Some res
      | None \<Rightarrow>
          Option.bind (read_char CHR ''['' s) (\<lambda>s1.
          Option.bind (read_ipv6 s1) (\<lambda>(a, s2).
          Option.bind (read_scope s2) (\<lambda>s3.
          Option.bind (read_char CHR '']'' s3) (\<lambda>s4.
          map_option (\<lambda>(p, r). ((V6 a, p), r)) (read_port s4))))))"

text \<open>A text parses when the parser takes all of it.\<close>

definition parse_all :: "(string \<Rightarrow> ('a \<times> string) option) \<Rightarrow> string \<Rightarrow> 'a option" where
  "parse_all p s = (case p s of Some (a, []) \<Rightarrow> Some a | _ \<Rightarrow> None)"

definition parse_ip :: "string \<Rightarrow> ip_addr option" where
  "parse_ip = parse_all read_ip"

definition parse_ipv6 :: "string \<Rightarrow> 128 word option" where
  "parse_ipv6 = parse_all read_ipv6"

definition parse_socket :: "string \<Rightarrow> (ip_addr \<times> nat) option" where
  "parse_socket = parse_all read_socket"

section \<open>The dotted form\<close>

definition octets :: "32 word \<Rightarrow> nat list" where
  "octets w = [unat w div 2 ^ 24, unat w div 2 ^ 16 mod 256, unat w div 2 ^ 8 mod 256, unat w mod 256]"

definition show_ipv4 :: "32 word \<Rightarrow> string" where
  "show_ipv4 w = join_with ''.'' (map show_nat (octets w))"

lemma digit_of_10: "is_digit_of 10 c = is_ascii_digit c"
  by (auto simp: is_digit_of_def digit_of_def hex_val_def is_ascii_digit_def split: if_splits)

lemma digit_of_10_val: "is_ascii_digit c \<Longrightarrow> the (digit_of 10 c) = digit_val c"
  by (auto simp: digit_of_def hex_val_def digit_val_def is_ascii_digit_def)

lemma fold_digits:
  "list_all is_ascii_digit ds \<Longrightarrow>
   foldl (\<lambda>n c. n * 10 + the (digit_of 10 c)) a ds = foldl (\<lambda>n c. 10 * n + digit_val c) a ds"
  by (induction ds arbitrary: a) (simp_all add: digit_of_10_val mult.commute)

lemma nat_digits_leading_zero: "hd (nat_digits n) = CHR ''0'' \<Longrightarrow> n = 0"
proof (induction n rule: nat_digits.induct)
  case (1 n)
  show ?case
  proof (cases "n < 10")
    case True
    then have "of_char (hd (nat_digits n)) = 48 + n" by (simp add: nat_digits.simps [of n])
    with "1.prems" show ?thesis by simp
  next
    case False
    then have "hd (nat_digits n) = hd (nat_digits (n div 10))"
      by (subst nat_digits.simps) simp
    with 1 False show ?thesis by simp
  qed
qed

lemma read_number_show:
  assumes "n < bound" and "length (show_nat n) \<le> m"
    and "\<And>c r. rest = c # r \<Longrightarrow> \<not> is_ascii_digit c"
  shows "read_number 10 (Some m) zeros bound (show_nat n @ rest) = Some (n, rest)"
proof -
  have p: "is_digit_of 10 = is_ascii_digit" by (rule ext) (rule digit_of_10)
  have digits: "list_all is_ascii_digit (show_nat n)"
    by (simp add: show_nat_def nat_digits_all_digits)
  then have take: "takeWhile is_ascii_digit (show_nat n @ rest) = show_nat n"
    using assms(3) by (cases rest) (auto simp: takeWhile_append list_all_iff)
  have val: "foldl (\<lambda>n c. n * 10 + the (digit_of 10 c)) 0 (show_nat n) = n"
    using digits_val_nat_digits [of n]
    by (simp add: fold_digits [OF nat_digits_all_digits] show_nat_def digits_val_def)
  have "\<not> (hd (show_nat n) = CHR ''0'' \<and> 1 < length (show_nat n))"
    using nat_digits_leading_zero [of n] by (auto simp: show_nat_def nat_digits.simps [of 0])
  moreover have "show_nat n \<noteq> []" by (simp add: show_nat_def)
  ultimately show ?thesis
    using assms(1,2) by (auto simp: read_number_def p take val Let_def)
qed

lemma octet_length:
  assumes "b < 256"
  shows "length (show_nat b) \<le> 3"
proof -
  have "length (nat_digits (b div 100)) = 1"
    using assms by (subst nat_digits.simps) simp
  moreover have "b div 10 div 10 = b div 100" by (simp flip: div_mult2_eq)
  ultimately show ?thesis
    by (simp add: show_nat_def nat_digits.simps [of b] nat_digits.simps [of "b div 10"])
qed

lemma read_octet:
  "b < 256 \<Longrightarrow> (\<And>c r. rest = c # r \<Longrightarrow> \<not> is_ascii_digit c) \<Longrightarrow>
   read_number 10 (Some 3) False 256 (show_nat b @ rest) = Some (b, rest)"
  by (rule read_number_show) (auto intro: octet_length)

lemma read_octets_show:
  assumes "a < 256" "b < 256" "c < 256" "d < 256" "\<And>x r. rest = x # r \<Longrightarrow> \<not> is_ascii_digit x"
  shows "read_octets 0 4 (join_with ''.'' (map show_nat [a, b, c, d]) @ rest) = Some ([a, b, c, d], rest)"
proof -
  have four: "(4::nat) = Suc (Suc (Suc (Suc 0)))" by simp
  have dot: "\<not> is_ascii_digit (CHR ''.'')" by (simp add: is_ascii_digit_def)
  have num: "read_number 10 (Some 3) False 256 (show_nat x @ CHR ''.'' # r) = Some (x, CHR ''.'' # r)"
    if "x < 256" for x r using that dot by (intro read_octet) auto
  show ?thesis
    using assms by (simp add: four join_with_def read_sep_def num read_octet)
qed

lemma of_octets_octets: "of_octets (octets w) = w"
proof -
  define n where "n = unat w"
  have "n < 2 ^ 32" unfolding n_def by (rule order_less_le_trans [OF unsigned_less]) simp
  have "((n div 2 ^ 24 * 256 + n div 2 ^ 16 mod 256) * 256 + n div 2 ^ 8 mod 256) * 256 + n mod 256 = n"
  proof -
    have "n div 2 ^ 16 = n div 256 div 256" and "n div 2 ^ 24 = n div 256 div 256 div 256"
      by (simp_all flip: div_mult2_eq)
    then show ?thesis by (simp only: div_mult_mod_eq power_one_right) (simp add: div_mult_mod_eq)
  qed
  then have "(of_nat (((n div 2 ^ 24 * 256 + n div 2 ^ 16 mod 256) * 256
      + n div 2 ^ 8 mod 256) * 256 + n mod 256) :: 32 word) = of_nat n" by (rule arg_cong)
  then show ?thesis
    by (simp add: of_octets_def octets_def n_def algebra_simps)
qed

lemma octets_bound: "b \<in> set (octets w) \<Longrightarrow> b < 256"
proof -
  have "unat w < 2 ^ 32" by (rule order_less_le_trans [OF unsigned_less]) simp
  then show "b \<in> set (octets w) \<Longrightarrow> b < 256" by (auto simp: octets_def)
qed

lemma parse_show_ipv4: "parse_ip (show_ipv4 w) = Some (V4 w)"
proof -
  obtain a b c d where o: "octets w = [a, b, c, d]" by (simp add: octets_def)
  then have "a < 256" "b < 256" "c < 256" "d < 256" using octets_bound [of _ w] by auto
  then have "read_octets 0 4 (show_ipv4 w) = Some (octets w, [])"
    using read_octets_show [of a b c d "[]"] by (simp add: show_ipv4_def o)
  then show ?thesis
    by (simp add: parse_ip_def parse_all_def read_ip_def read_ipv4_def of_octets_octets)
qed

lemma mapped_inverse: "to_ipv4_mapped (ipv4_mapped w) = Some w"
proof -
  define k where "k = 0xFFFF * 2 ^ 32 + uint w"
  have b: "0 \<le> uint w" "uint w < 2 ^ 32" using unsigned_less [of w, where 'a=int] by auto
  have m: "ipv4_mapped w = word_of_int k"
    by (simp add: ipv4_mapped_def k_def)
  have t: "take_bit 128 k = k" using b by (simp add: take_bit_int_eq_self k_def)
  have "drop_bit 32 (word_of_int k :: 128 word) = word_of_int (drop_bit 32 (take_bit 128 k))"
    by transfer simp
  moreover have "drop_bit 32 k = 0xFFFF" 
    using b unfolding drop_bit_eq_div k_def by (simp only: div_mult_self3) simp
  moreover have "(ucast (word_of_int k :: 128 word) :: 32 word) = word_of_int k"
    by transfer simp
  moreover have "(word_of_int k :: 32 word) = w"
    by (simp add: k_def)
  ultimately show ?thesis by (simp add: to_ipv4_mapped_def m t)
qed
end
