(* ===== verification/Faults.thy ===== *)
theory Faults
  imports Tornas_Prelude
begin

text \<open>
  Errors: \<open>engine/fault.rs\<close> and the error envelope of \<open>http.rs\<close>. An \<open>anyhow::Error\<close> is a
  chain of causes, outermost first; \<open>with_context\<close> puts one in front. The HTTP status is read
  off the first typed fault of the chain, never off the text of a message.
\<close>

section \<open>Typed faults\<close>

datatype fault_kind = NotFound | Conflict | Invalid | NoSpace | Upstream

datatype cause = Fault fault_kind string | Message string

type_synonym anyhow = "cause list"
type_synonym 'a result = "anyhow + 'a"

definition fault :: "fault_kind \<Rightarrow> string \<Rightarrow> anyhow" where
  "fault k m = [Fault k m]"

definition bail :: "string \<Rightarrow> anyhow" where
  "bail m = [Message m]"

fun fault_kind_of :: "anyhow \<Rightarrow> fault_kind option" where
  "fault_kind_of [] = None"
| "fault_kind_of (Fault k m # cs) = Some k"
| "fault_kind_of (Message m # cs) = fault_kind_of cs"

fun cause_text :: "cause \<Rightarrow> string" where
  "cause_text (Fault k m) = m"
| "cause_text (Message m) = m"

text \<open>\<open>format!("{e:#}")\<close>: the whole chain, joined with colons.\<close>

definition error_text :: "anyhow \<Rightarrow> string" where
  "error_text e = join_with '': '' (map cause_text e)"

fun with_context :: "string \<Rightarrow> 'a result \<Rightarrow> 'a result" where
  "with_context m (Inl e) = Inl (Message m # e)"
| "with_context m (Inr a) = Inr a"

lemma with_context_Inr [simp]: "with_context m r = Inr a \<longleftrightarrow> r = Inr a"
  by (cases r) auto

lemma fault_kind_of_fault [simp]: "fault_kind_of (fault k m) = Some k"
  by (simp add: fault_def)

lemma fault_kind_of_bail [simp]: "fault_kind_of (bail m) = None"
  by (simp add: bail_def)

section \<open>The error envelope\<close>

record api_error =
  ae_status :: nat
  ae_kind :: string
  ae_message :: string

definition api_error_new :: "nat \<Rightarrow> string \<Rightarrow> string \<Rightarrow> api_error" where
  "api_error_new st k m = \<lparr>ae_status = st, ae_kind = k, ae_message = m\<rparr>"

definition api_not_found :: "string \<Rightarrow> api_error" where
  "api_not_found what = api_error_new 404 ''not_found'' what"

definition fault_status :: "fault_kind option \<Rightarrow> nat \<times> string" where
  "fault_status k =
     (case k of
        Some NotFound \<Rightarrow> (404, ''not_found'')
      | Some Conflict \<Rightarrow> (409, ''conflict'')
      | Some Invalid \<Rightarrow> (422, ''invalid'')
      | Some NoSpace \<Rightarrow> (507, ''no_space'')
      | Some Upstream \<Rightarrow> (502, ''upstream'')
      | None \<Rightarrow> (500, ''internal''))"

definition api_error_from :: "anyhow \<Rightarrow> api_error" where
  "api_error_from e =
     (let (st, k) = fault_status (fault_kind_of e) in api_error_new st k (error_text e))"

text \<open>
  The problem document of an error: its response status, type, title, detail and the status
  repeated as a member. The table of canonical reasons is the \<open>http\<close> crate's, a parameter.
\<close>

record problem =
  pb_status :: nat
  pb_type :: string
  pb_title :: string
  pb_detail :: string
  pb_value_status :: nat

definition into_response :: "(nat \<Rightarrow> string option) \<Rightarrow> api_error \<Rightarrow> problem" where
  "into_response canonical_reason e =
     \<lparr>pb_status = ae_status e, pb_type = ''/problems/'' @ ae_kind e,
      pb_title = (case canonical_reason (ae_status e) of Some t \<Rightarrow> t | None \<Rightarrow> ''Error''),
      pb_detail = ae_message e, pb_value_status = ae_status e\<rparr>"

text \<open>The three ways a JSON body is rejected, and everything else.\<close>

datatype json_rejection =
  MissingJsonContentType string | JsonDataError string | JsonSyntaxError string
| OtherRejection string

fun app_json :: "json_rejection + 'a \<Rightarrow> api_error + 'a" where
  "app_json (Inr v) = Inr v"
| "app_json (Inl (MissingJsonContentType t)) =
     Inl (api_error_new 415 ''unsupported_media_type'' ''expected Content-Type: application/json'')"
| "app_json (Inl (JsonDataError t)) = Inl (api_error_new 422 ''invalid'' t)"
| "app_json (Inl (JsonSyntaxError t)) = Inl (api_error_new 400 ''bad_request'' t)"
| "app_json (Inl (OtherRejection t)) = Inl (api_error_new 400 ''bad_request'' t)"

lemma fault_status_inj: "fault_status a = fault_status b \<Longrightarrow> a = b"
  by (auto simp: fault_status_def split: option.splits fault_kind.splits)

lemma fault_kind_context: "fault_kind_of (Message m # e) = fault_kind_of e"
  by simp

text \<open>The status and the problem type an error is reported with are decided by the first
  typed fault of its chain: adding any number of context messages in front changes neither,
  and two errors share a status exactly when they carry the same kind of fault.\<close>

theorem error_status_ignores_context:
  "ae_status (api_error_from (map Message ms @ e)) = ae_status (api_error_from e)
   \<and> pb_type (into_response cr (api_error_from (map Message ms @ e)))
     = pb_type (into_response cr (api_error_from e))
   \<and> (ae_status (api_error_from e) = ae_status (api_error_from e')
      \<longleftrightarrow> fault_kind_of e = fault_kind_of e')"
proof -
  have ctx: "fault_kind_of (map Message ms @ e) = fault_kind_of e"
    by (induction ms) auto
  have "ae_status (api_error_from x) = fst (fault_status (fault_kind_of x))" for x
    by (simp add: api_error_from_def api_error_new_def split: prod.splits)
  moreover have "fst (fault_status a) = fst (fault_status b) \<longleftrightarrow> a = b" for a b
    by (auto simp: fault_status_def split: option.splits fault_kind.splits)
  ultimately show ?thesis
    using ctx by (simp add: api_error_from_def api_error_new_def into_response_def split: prod.splits)
qed

end
