(* ===== verification/Runtime.thy ===== *)
theory Runtime
  imports Net_Addr Faults
begin

text \<open>
  The \<open>service\<close> crate: a set of named tasks with lifecycle hooks, run until a termination signal.

  The state \<open>'s\<close> is the application's. A task is a name with the application's description \<open>'t\<close> of its body, a
  router is the application's \<open>'r\<close>. What tasks and requests do to the state while the service runs comes as
  \<open>Work\<close> events between the signals. A shutdown hook takes a number of milliseconds, or never returns
  (\<open>None\<close>); so may a reload hook.
\<close>

section \<open>Composition\<close>

type_synonym 's shutdown_hook = "'s \<Rightarrow> (nat \<times> 's) option"
type_synonym 's reload_callback = "'s \<Rightarrow> 's option"

record ('t, 'r, 's) service =
  svc_name :: string
  svc_tasks :: "(string \<times> 't) list"
  svc_routes :: "'r list"
  svc_http_addr :: "(ip_addr \<times> u16) option"
  svc_tls :: "(string \<times> string) option"
  svc_http_layer :: "('r \<Rightarrow> 'r) option"
  svc_on_ready :: "('s \<Rightarrow> 's) list"
  svc_on_shutdown :: "'s shutdown_hook list"
  svc_on_reload :: "'s reload_callback list"

text \<open>A component is what its \<open>register\<close> does to the service.\<close>

type_synonym ('t, 'r, 's) component = "('t, 'r, 's) service \<Rightarrow> ('t, 'r, 's) service"

definition service_new :: "string \<Rightarrow> ('t, 'r, 's) service" where
  "service_new name =
     \<lparr>svc_name = name, svc_tasks = [], svc_routes = [], svc_http_addr = None, svc_tls = None,
      svc_http_layer = None, svc_on_ready = [], svc_on_shutdown = [], svc_on_reload = []\<rparr>"

definition add_component :: "('t, 'r, 's) component \<Rightarrow> ('t, 'r, 's) service \<Rightarrow> ('t, 'r, 's) service" where
  "add_component c svc = c svc"

definition add_opt :: "('t, 'r, 's) component option \<Rightarrow> ('t, 'r, 's) service \<Rightarrow> ('t, 'r, 's) service" where
  "add_opt c svc = (case c of Some c' \<Rightarrow> add_component c' svc | None \<Rightarrow> svc)"

definition add_task :: "string \<Rightarrow> 't \<Rightarrow> ('t, 'r, 's) component" where
  "add_task name body svc = svc\<lparr>svc_tasks := svc_tasks svc @ [(name, body)]\<rparr>"

definition add_route :: "'r \<Rightarrow> ('t, 'r, 's) component" where
  "add_route r svc = svc\<lparr>svc_routes := svc_routes svc @ [r]\<rparr>"

definition on_ready :: "('s \<Rightarrow> 's) \<Rightarrow> ('t, 'r, 's) component" where
  "on_ready hook svc = svc\<lparr>svc_on_ready := svc_on_ready svc @ [hook]\<rparr>"

definition on_shutdown :: "'s shutdown_hook \<Rightarrow> ('t, 'r, 's) component" where
  "on_shutdown hook svc = svc\<lparr>svc_on_shutdown := svc_on_shutdown svc @ [hook]\<rparr>"

definition on_reload :: "'s reload_callback \<Rightarrow> ('t, 'r, 's) component" where
  "on_reload hook svc = svc\<lparr>svc_on_reload := svc_on_reload svc @ [hook]\<rparr>"

definition http :: "ip_addr \<times> u16 \<Rightarrow> ('t, 'r, 's) component" where
  "http a svc = svc\<lparr>svc_http_addr := Some a\<rparr>"

definition tls_opt :: "(string \<times> string) option \<Rightarrow> ('t, 'r, 's) component" where
  "tls_opt pem svc = svc\<lparr>svc_tls := pem\<rparr>"

definition http_layer :: "('r \<Rightarrow> 'r) \<Rightarrow> ('t, 'r, 's) component" where
  "http_layer layer svc = svc\<lparr>svc_http_layer := Some layer\<rparr>"

text \<open>The application that the HTTP task serves, when there is an address; \<open>merge\<close> is the router's own.\<close>

definition http_app :: "('r \<Rightarrow> 'r \<Rightarrow> 'r) \<Rightarrow> 'r \<Rightarrow> ('t, 'r, 's) service \<Rightarrow> 'r option" where
  "http_app merge blank svc =
     map_option
       (\<lambda>_. let app = foldl merge blank (svc_routes svc)
             in case svc_http_layer svc of Some layer \<Rightarrow> layer app | None \<Rightarrow> app)
       (svc_http_addr svc)"

section \<open>Running\<close>

text \<open>Milliseconds; the hooks are polled before the deadline is.\<close>

definition shutdown_deadline :: nat where
  "shutdown_deadline = 25 * 1000"

fun run_hooks :: "nat \<Rightarrow> 's shutdown_hook list \<Rightarrow> 's \<Rightarrow> bool \<times> 's" where
  "run_hooks left [] s = (True, s)"
| "run_hooks left (hook # hooks) s =
     (case hook s of
        None \<Rightarrow> (False, s)
      | Some (ms, s') \<Rightarrow> if ms \<le> left then run_hooks (left - ms) hooks s' else (False, s))"

fun run_reload :: "'s reload_callback list \<Rightarrow> 's \<Rightarrow> 's option" where
  "run_reload [] s = Some s"
| "run_reload (hook # hooks) s = (case hook s of None \<Rightarrow> None | Some s' \<Rightarrow> run_reload hooks s')"

text \<open>
  What happens to a running service, in the order it is handled: signals, the end of the 200
  milliseconds that the readiness hooks wait for, and the work of tasks and requests.
\<close>

datatype 's happening = Sigterm | Sigint | Sighup | Ready_Due | Work "'s \<Rightarrow> 's"

text \<open>
  \<open>Stopped b\<close>: the process ended, and \<open>b\<close> says whether all hooks finished in time; otherwise the state is the
  one in front of the hook that was cut off. \<open>Deaf\<close>: a reload hook never returned, and the loop that
  awaits it handles no signal any more.
\<close>

datatype 's outcome = Still_Running 's | Stopped bool 's | Deaf 's

definition stop :: "('t, 'r, 's) service \<Rightarrow> 's \<Rightarrow> 's outcome" where
  "stop svc s = (let (ok, s') = run_hooks shutdown_deadline (rev (svc_on_shutdown svc)) s in Stopped ok s')"

fun run_until_signal :: "('t, 'r, 's) service \<Rightarrow> bool \<Rightarrow> 's happening list \<Rightarrow> 's \<Rightarrow> 's outcome" where
  "run_until_signal svc ready [] s = Still_Running s"
| "run_until_signal svc ready (Sigterm # es) s = stop svc s"
| "run_until_signal svc ready (Sigint # es) s = stop svc s"
| "run_until_signal svc ready (Sighup # es) s =
     (case run_reload (svc_on_reload svc) s of None \<Rightarrow> Deaf s | Some s' \<Rightarrow> run_until_signal svc ready es s')"
| "run_until_signal svc ready (Ready_Due # es) s =
     run_until_signal svc True es (if ready then s else fold (\<lambda>hook. hook) (svc_on_ready svc) s)"
| "run_until_signal svc ready (Work f # es) s = run_until_signal svc ready es (f s)"

section \<open>systemd\<close>

datatype notify_state = Ready | Status string | Stopping | Watchdog

text \<open>The watchdog interval that systemd asked for, if it is one.\<close>

definition watchdog_interval :: "duration option \<Rightarrow> duration option" where
  "watchdog_interval asked =
     (case asked of Some d \<Rightarrow> if d_zero d then None else Some d | None \<Rightarrow> None)"

definition half_duration :: "duration \<Rightarrow> duration" where
  "half_duration d =
     \<lparr>d_secs = d_secs d div 2, d_nanos = d_nanos d div 2 + (if odd (unat (d_secs d)) then 500000000 else 0)\<rparr>"

datatype probe_answer = Probe_Returned "unit result" | Probe_Panicked | Probe_Late

text \<open>One tick of the watchdog, every half interval; the probe is late when it takes longer than that.\<close>

definition watch_tick :: "probe_answer \<Rightarrow> notify_state list" where
  "watch_tick a = (case a of Probe_Returned (Inr _) \<Rightarrow> [Watchdog] | _ \<Rightarrow> [])"

definition watch :: "duration option \<Rightarrow> (duration \<Rightarrow> probe_answer list) \<Rightarrow> notify_state list" where
  "watch asked answers =
     (case watchdog_interval asked of None \<Rightarrow> [] | Some d \<Rightarrow> concat (map watch_tick (answers (half_duration d))))"

text \<open>The component: what it sends goes through \<open>send\<close> into the application's state.\<close>

definition systemd_register :: "(notify_state \<Rightarrow> 's \<Rightarrow> 's) \<Rightarrow> 't option \<Rightarrow> ('t, 'r, 's) component" where
  "systemd_register send probe svc =
     (let svc1 = on_ready (send Ready) svc;
          svc2 = (case probe of Some p \<Rightarrow> add_task ''systemd-watchdog'' p svc1 | None \<Rightarrow> svc1)
      in on_shutdown (\<lambda>s. Some (0, send Stopping s)) svc2)"

section \<open>Lemmas\<close>

lemmas builder_defs = service_new_def add_component_def add_opt_def add_task_def add_route_def on_ready_def
  on_shutdown_def on_reload_def http_def tls_opt_def http_layer_def

definition terminates :: "'s happening \<Rightarrow> bool" where
  "terminates ev \<longleftrightarrow> ev = Sigterm \<or> ev = Sigint"

text \<open>
  What an application promises of its hooks and its work to keep a property \<open>I\<close>, which may depend on whether the
  readiness hooks have run: then a run with a termination signal stops, from a state with that property.
\<close>

locale steady_service =
  fixes svc :: "('t, 'r, 's) service" and I :: "bool \<Rightarrow> 's \<Rightarrow> bool" and lawful_work :: "('s \<Rightarrow> 's) \<Rightarrow> bool"
  assumes reload: "I r s \<Longrightarrow> \<exists>s'. run_reload (svc_on_reload svc) s = Some s' \<and> I r s'"
    and ready: "I False s \<Longrightarrow> I True (fold (\<lambda>hook. hook) (svc_on_ready svc) s)"
    and work: "lawful_work f \<Longrightarrow> I r s \<Longrightarrow> I r (f s)"
begin

lemma ready_due: "I r s \<Longrightarrow> I True (if r then s else fold (\<lambda>hook. hook) (svc_on_ready svc) s)"
  using ready [of s] by (cases r) simp_all

lemma run_stops:
  assumes "\<exists>ev \<in> set es. terminates ev" and "I r s" and "\<And>f. Work f \<in> set es \<Longrightarrow> lawful_work f"
  shows "\<exists>r' s'. I r' s' \<and> run_until_signal svc r es s = stop svc s'"
  using assms
proof (induction es arbitrary: s r)
  case (Cons ev es)
  show ?case
  proof (cases ev)
    case Sighup
    obtain s1 where "run_reload (svc_on_reload svc) s = Some s1" "I r s1" using reload Cons.prems(2) by blast
    then show ?thesis using Cons Sighup by (simp add: terminates_def)
  next
    case Ready_Due
    then show ?thesis using Cons ready_due [of r s] by (simp add: terminates_def)
  next
    case (Work f)
    then show ?thesis using Cons work [of f r s] by (simp add: terminates_def)
  qed (use Cons.prems(2) in auto)
qed simp

end

end
