(* ===== verification/Wire.thy ===== *)
theory Wire
  imports Tornas_Prelude
begin

text \<open>
  What travels between the program and its clients: JSON values as \<open>serde_json\<close> has them, UTF-8, and
  percent-encoding, which the \<open>percent_encoding\<close> crate does. Its two functions are the interface
  \<open>percent_codec\<close>; an implementation of the percent-encoding standard shows the laws can be met.
\<close>

section \<open>JSON values\<close>

text \<open>\<open>serde_json::Number\<close> is a natural number, a negative integer or a float.\<close>

datatype json_number = Pos_Int u64 | Neg_Int i64 | Float_Num string

datatype json =
    JNull
  | JBool bool
  | JNumber json_number
  | JString string
  | JArray "json list"
  | JObject "(string \<times> json) list"

fun as_u64 :: "json_number \<Rightarrow> u64 option" where
  "as_u64 (Pos_Int n) = Some n"
| "as_u64 _ = None"

fun as_i64 :: "json_number \<Rightarrow> i64 option" where
  "as_i64 (Pos_Int n) = (if unat n < 2 ^ 63 then Some n else None)"
| "as_i64 (Neg_Int n) = Some n"
| "as_i64 (Float_Num s) = None"

text \<open>Fields that \<open>skip_serializing_if\<close> leaves out.\<close>

definition field_some :: "string \<Rightarrow> ('a \<Rightarrow> json) \<Rightarrow> 'a option \<Rightarrow> (string \<times> json) list" where
  "field_some k f v = (case v of Some a \<Rightarrow> [(k, f a)] | None \<Rightarrow> [])"

definition field_list :: "string \<Rightarrow> ('a \<Rightarrow> json) \<Rightarrow> 'a list \<Rightarrow> (string \<times> json) list" where
  "field_list k f xs = (if xs = [] then [] else [(k, JArray (map f xs))])"

definition field_true :: "string \<Rightarrow> bool \<Rightarrow> (string \<times> json) list" where
  "field_true k b = (if b then [(k, JBool True)] else [])"

definition json_option :: "('a \<Rightarrow> json) \<Rightarrow> 'a option \<Rightarrow> json" where
  "json_option f v = (case v of Some a \<Rightarrow> f a | None \<Rightarrow> JNull)"

lemma field_keys [simp]:
  "fst ` set (field_some k f v) = (if v = None then {} else {k})"
  "fst ` set (field_list k g xs) = (if xs = [] then {} else {k})"
  "fst ` set (field_true k b) = (if b then {k} else {})"
  by (auto simp: field_some_def field_list_def field_true_def split: option.splits)

section \<open>UTF-8\<close>

text \<open>The ranges of the bytes that may follow a first byte; \<open>None\<close> where no character starts.\<close>

definition utf8_tail :: "nat \<Rightarrow> (nat \<times> nat) list option" where
  "utf8_tail b =
     (let c = (0x80, 0xBF)
      in if b < 0x80 then Some []
         else if b < 0xC2 then None
         else if b < 0xE0 then Some [c]
         else if b = 0xE0 then Some [(0xA0, 0xBF), c]
         else if b = 0xED then Some [(0x80, 0x9F), c]
         else if b < 0xF0 then Some [c, c]
         else if b = 0xF0 then Some [(0x90, 0xBF), c, c]
         else if b < 0xF4 then Some [c, c, c]
         else if b = 0xF4 then Some [(0x80, 0x8F), c, c]
         else None)"

function is_utf8 :: "string \<Rightarrow> bool" where
  "is_utf8 [] = True"
| "is_utf8 (a # s) =
     (case utf8_tail (of_char a) of
        None \<Rightarrow> False
      | Some rs \<Rightarrow>
          length rs \<le> length s
          \<and> list_all2 (\<lambda>(lo, hi) c. lo \<le> (of_char c :: nat) \<and> of_char c \<le> hi) rs (take (length rs) s)
          \<and> is_utf8 (drop (length rs) s))"
  by pat_completeness auto
termination
  by (relation "measure length") auto

lemma is_utf8_ascii: "list_all (\<lambda>c. (of_char c :: nat) < 0x80) s \<Longrightarrow> is_utf8 s"
  by (induction s) (auto simp: utf8_tail_def)

lemma is_utf8_plain: "list_all plain_char s \<Longrightarrow> is_utf8 s"
  by (rule is_utf8_ascii) (auto simp: list_all_iff plain_char_def)

section \<open>Percent-encoding\<close>

definition is_hex_digit :: "char \<Rightarrow> bool" where
  "is_hex_digit c \<longleftrightarrow> is_ascii_digit c
     \<or> 65 \<le> (of_char c :: nat) \<and> (of_char c :: nat) \<le> 70 \<or> 97 \<le> (of_char c :: nat) \<and> (of_char c :: nat) \<le> 102"

text \<open>
  The contract: encoding writes only hexadecimal digits, percent signs and characters that need no
  escape; decoding undoes it on every string of UTF-8, and a string with no percent sign decodes to
  itself. The first argument of \<open>enc\<close> says which bytes are escaped.
\<close>

locale percent_codec =
  fixes enc :: "(char \<Rightarrow> bool) \<Rightarrow> string \<Rightarrow> string"
    and dec :: "string \<Rightarrow> string"
  assumes enc_chars: "c \<in> set (enc p s) \<Longrightarrow> c = CHR ''%'' \<or> is_hex_digit c \<or> \<not> p c"
    and dec_enc: "is_utf8 s \<Longrightarrow> p (CHR ''%'') \<Longrightarrow> dec (enc p s) = s"
    and dec_plain: "is_utf8 s \<Longrightarrow> CHR ''%'' \<notin> set s \<Longrightarrow> dec s = s"
    and enc_nonempty: "s \<noteq> [] \<Longrightarrow> enc p s \<noteq> []"
begin

lemma enc_avoids: "p c \<Longrightarrow> c \<noteq> CHR ''%'' \<Longrightarrow> \<not> is_hex_digit c \<Longrightarrow> c \<notin> set (enc p s)"
  using enc_chars by blast

lemma enc_segment: "p (CHR ''/'') \<Longrightarrow> CHR ''/'' \<notin> set (enc p s)"
  by (rule enc_avoids) (simp_all add: is_hex_digit_def is_ascii_digit_def)

end

definition codec_laws :: "((char \<Rightarrow> bool) \<Rightarrow> string \<Rightarrow> string) \<Rightarrow> (string \<Rightarrow> string) \<Rightarrow> bool" where
  "codec_laws enc dec = percent_codec enc dec"

definition hex_digit :: "nat \<Rightarrow> char" where
  "hex_digit n = char_of (if n < 10 then 48 + n else 55 + n)"

definition hex_val :: "char \<Rightarrow> nat option" where
  "hex_val c =
     (let b = of_char c
      in if 48 \<le> b \<and> b \<le> 57 then Some (b - 48)
         else if 65 \<le> b \<and> b \<le> 70 then Some (b - 55)
         else if 97 \<le> b \<and> b \<le> 102 then Some (b - 87) else None)"

definition pct_encode :: "(char \<Rightarrow> bool) \<Rightarrow> string \<Rightarrow> string" where
  "pct_encode p s =
     concat (map (\<lambda>c. if p c then [CHR ''%'', hex_digit (of_char c div 16), hex_digit (of_char c mod 16)]
                      else [c]) s)"

text \<open>A percent sign that two hexadecimal digits do not follow stands for itself.\<close>

fun pct_decode :: "string \<Rightarrow> string" where
  "pct_decode [] = []"
| "pct_decode (c # s) =
     (case s of
        a # b # r \<Rightarrow>
          (if c = CHR ''%'' then
             (case (hex_val a, hex_val b) of
                (Some x, Some y) \<Rightarrow> char_of (16 * x + y) # pct_decode r
              | _ \<Rightarrow> c # pct_decode s)
           else c # pct_decode s)
      | _ \<Rightarrow> c # pct_decode s)"

lemma hex_digit_props:
  assumes "n < 16"
  shows "is_hex_digit (hex_digit n)" and "hex_val (hex_digit n) = Some n"
  using assms by (auto simp: is_hex_digit_def hex_digit_def hex_val_def Let_def is_ascii_digit_def)

lemma char_div_mod:
  "(of_char c :: nat) div 16 < 16" "(of_char c :: nat) mod 16 < 16"
  using nat_of_char_less_256 [of c] by linarith+

lemma pct_decode_char: "c \<noteq> CHR ''%'' \<Longrightarrow> pct_decode (c # s) = c # pct_decode s"
  by (cases s; cases "tl s") auto

lemma pct_decode_escape:
  "hex_val a = Some x \<Longrightarrow> hex_val b = Some y \<Longrightarrow>
    pct_decode (CHR ''%'' # a # b # s) = char_of (16 * x + y) # pct_decode s"
  by simp

declare pct_decode.simps(2) [simp del]

lemma pct_decode_encode: "p (CHR ''%'') \<Longrightarrow> pct_decode (pct_encode p s) = s"
proof (induction s)
  case (Cons c s)
  show ?case
  proof (cases "p c")
    case True
    have "pct_encode p (c # s) = CHR ''%'' # hex_digit (of_char c div 16) # hex_digit (of_char c mod 16)
        # pct_encode p s"
      using True by (simp add: pct_encode_def)
    moreover have "char_of (16 * (of_char c div 16) + of_char c mod 16 :: nat) = c"
      by (simp only: mult_div_mod_eq char_of_char)
    ultimately show ?thesis using Cons
      by (simp add: pct_decode_escape hex_digit_props(2) char_div_mod)
  next
    case False
    with Cons have "c \<noteq> CHR ''%''" by auto
    with Cons False show ?thesis by (simp add: pct_encode_def pct_decode_char)
  qed
qed (simp add: pct_encode_def)

lemma pct_decode_plain: "CHR ''%'' \<notin> set s \<Longrightarrow> pct_decode s = s"
  by (induction s) (auto simp: pct_decode_char)

interpretation pct: percent_codec pct_encode pct_decode
proof unfold_locales
  show "c = CHR ''%'' \<or> is_hex_digit c \<or> \<not> p c" if "c \<in> set (pct_encode p s)" for c p s
    using that by (auto simp: pct_encode_def hex_digit_props char_div_mod split: if_splits)
  show "pct_encode p s \<noteq> []" if "s \<noteq> []" for p s
    using that by (cases s) (auto simp: pct_encode_def)
qed (simp_all add: pct_decode_encode pct_decode_plain)

lemma pct_laws: "codec_laws pct_encode pct_decode"
  unfolding codec_laws_def by (rule pct.percent_codec_axioms)

lemmas codecD =
  percent_codec.dec_enc [OF codec_laws_def [THEN iffD1]]
  percent_codec.dec_plain [OF codec_laws_def [THEN iffD1]]
  percent_codec.enc_avoids [OF codec_laws_def [THEN iffD1]]
  percent_codec.enc_segment [OF codec_laws_def [THEN iffD1]]
  percent_codec.enc_nonempty [OF codec_laws_def [THEN iffD1]]

section \<open>Routes\<close>

text \<open>
  How \<open>axum\<close> matches a path against a route: the segments after the leading slash one by one, a
  parameter taking one segment that is not empty.
\<close>

datatype route_piece = Lit string | Par string

fun match_route :: "route_piece list \<Rightarrow> string list \<Rightarrow> (string \<times> string) list option" where
  "match_route [] [] = Some []"
| "match_route (Lit l # ps) (s # ss) = (if s = l then match_route ps ss else None)"
| "match_route (Par n # ps) (s # ss) =
     (if s = [] then None else map_option ((#) (n, s)) (match_route ps ss))"
| "match_route _ _ = None"

definition path_segments :: "string \<Rightarrow> string list option" where
  "path_segments path = map_option (split_char CHR ''/'') (strip_prefix path ''/'')"

end
