(* ===== verification/Utils_Size.thy ===== *)
theory Utils_Size
  imports Faults "HOL-Library.Log_Nat"
begin

text \<open>
  \<open>utils/size.rs\<close>: size parsing and the byte, rate and age texts. The \<open>f64\<close> arithmetic is
  exact here except where the code rounds: reading a decimal and converting a \<open>u64\<close> round to 53
  significant bits, ties to even; the multipliers are powers of two, so products are exact, and
  the final cast truncates and saturates. \<open>{:.1}\<close> rounds the exact value, ties to even.
\<close>

section \<open>Rounding\<close>

text \<open>The quotient rounded to the nearest integer, a tie to the even one.\<close>

definition round_div :: "nat \<Rightarrow> nat \<Rightarrow> nat" where
  "round_div a b =
     (let q = a div b; r = a mod b
      in if 2 * r < b \<or> 2 * r = b \<and> even q then q else q + 1)"

text \<open>
  The \<open>f64\<close> nearest to \<open>a / b\<close>, as a fraction again: with \<open>a / b\<close> scaled by a power of two so that
  the rounded quotient has 53 bits. A quotient of at most 53 bits needs no scaling down.
\<close>

definition f64_shift :: "nat \<Rightarrow> nat \<Rightarrow> int" where
  "f64_shift a b =
     (let s = int (floorlog 2 a) - int (floorlog 2 b) - 53
      in if a * 2 ^ nat (- s) < 2 ^ 52 * b * 2 ^ nat s then s - 1
         else if 2 ^ 53 * b * 2 ^ nat s \<le> a * 2 ^ nat (- s) then s + 1 else s)"

definition f64_div :: "nat \<Rightarrow> nat \<Rightarrow> nat \<times> nat" where
  "f64_div a b =
     (if a = 0 then (0, 1)
      else let s = f64_shift a b;
               m = round_div (a * 2 ^ nat (- s)) (b * 2 ^ nat s)
           in (m * 2 ^ nat s, 2 ^ nat (- s)))"

definition f64_of_nat :: "nat \<Rightarrow> nat" where
  "f64_of_nat n = (let (p, q) = f64_div n 1 in p div q)"

section \<open>Parsing a size\<close>

text \<open>A number of digits and at most one point, with at least one digit, as a fraction.\<close>

definition parse_decimal :: "string \<Rightarrow> (nat \<times> nat) option" where
  "parse_decimal s =
     (case split_char CHR ''.'' s of
        [a] \<Rightarrow> if a \<noteq> [] \<and> list_all is_ascii_digit a then Some (digits_val a, 1) else None
      | [a, b] \<Rightarrow> if a @ b \<noteq> [] \<and> list_all is_ascii_digit (a @ b)
                 then Some (digits_val (a @ b), 10 ^ length b) else None
      | _ \<Rightarrow> None)"

definition size_mult :: "string \<Rightarrow> nat option" where
  "size_mult suffix =
     (if suffix \<in> {[], ''B''} then Some 1
      else if suffix \<in> {''K'', ''KB'', ''KIB''} then Some 1024
      else if suffix \<in> {''M'', ''MB'', ''MIB''} then Some (1024 ^ 2)
      else if suffix \<in> {''G'', ''GB'', ''GIB''} then Some (1024 ^ 3)
      else if suffix \<in> {''T'', ''TB'', ''TIB''} then Some (1024 ^ 4)
      else None)"

definition number_char :: "char \<Rightarrow> bool" where
  "number_char c \<longleftrightarrow> is_ascii_digit c \<or> c = CHR ''.''"

text \<open>\<open>quote\<close> is the \<open>Debug\<close> rendering of a string, which only appears in the messages.\<close>

definition parse_size :: "(string \<Rightarrow> string) \<Rightarrow> string \<Rightarrow> u64 result" where
  "parse_size quote text =
     (let s = trim text; num = takeWhile number_char s; suffix = dropWhile number_char s
      in if s = [] then Inl (bail ''empty size'')
         else case parse_decimal num of
           None \<Rightarrow> Inl [Message (''bad number in size '' @ quote s),
             Message (if num = [] then ''cannot parse float from empty string''
                      else ''invalid float literal'')]
         | Some (a, b) \<Rightarrow>
             (let (p, q) = f64_div a b
              in case size_mult (to_ascii_uppercase (trim suffix)) of
                   None \<Rightarrow> Inl (bail (''unknown size suffix '' @
                            quote (to_ascii_uppercase (trim suffix)) @ '' in '' @ quote s))
                 | Some k \<Rightarrow> Inr (of_nat (min (p * k div q) (2 ^ 64 - 1)))))"

section \<open>Texts\<close>

definition size_units :: "string list" where
  "size_units = [''B'', ''K'', ''M'', ''G'', ''T'']"

function unit_index :: "nat \<Rightarrow> nat \<Rightarrow> nat" where
  "unit_index p i = (if 1024 ^ Suc i \<le> p \<and> i < length size_units - 1 then unit_index p (Suc i) else i)"
  by auto
termination by (relation "measure (\<lambda>(p, i). length size_units - i)") auto

declare unit_index.simps [simp del]

text \<open>\<open>p\<close> is the byte count as an \<open>f64\<close>; \<open>v = p / 1024 ^ i\<close> is exact.\<close>

definition human_bytes :: "u64 \<Rightarrow> string" where
  "human_bytes b =
     (let p = f64_of_nat (unat b); i = unit_index p 0; tenths = round_div (10 * p) (1024 ^ i)
      in if i = 0 then show_u64 b @ ''B''
         else show_nat (tenths div 10) @ ''.'' @ show_nat (tenths mod 10) @ size_units ! i)"

definition human_rate :: "u64 \<Rightarrow> string" where
  "human_rate r = human_bytes r @ ''/s''"

definition human_age :: "i64 \<Rightarrow> string" where
  "human_age secs =
     (let s = max (sint secs) 0
      in if s < 60 then show_int s @ ''s''
         else if s < 3600 then show_int (s div 60) @ ''m''
         else if s < 86400 then show_int (s div 3600) @ ''h''
         else show_int (s div 86400) @ ''d'')"

section \<open>Exactness\<close>

lemma round_div_one [simp]: "round_div a 1 = a" "round_div a (Suc 0) = a"
  by (simp_all add: round_div_def)

lemma round_div_error:
  assumes "0 < b"
  shows "\<bar>2 * (int a - int b * int (round_div a b))\<bar> \<le> int b"
proof -
  have "int a = int b * int (a div b) + int (a mod b)"
    by (metis mult_div_mod_eq of_nat_add of_nat_mult)
  moreover have "a mod b < b" using assms by simp
  ultimately show ?thesis
    by (auto simp: round_div_def Let_def algebra_simps)
qed

text \<open>Integers of at most 53 bits are exact.\<close>

lemma f64_div_exact:
  assumes "0 < n" and "n < 2 ^ 53"
  shows "\<exists>k. f64_div n 1 = (n * 2 ^ k, 2 ^ k)"
proof -
  define l where "l = floorlog 2 n"
  have l: "2 ^ (l - 1) \<le> n" "n < 2 ^ l" "0 < l"
    using assms floorlog_bounds [of n 2] by (auto simp: l_def floorlog_eq_zero_iff intro: Nat.gr0I)
  have "l \<le> 53"
  proof (rule ccontr)
    assume "\<not> l \<le> 53"
    then have "(2::nat) ^ 53 \<le> 2 ^ (l - 1)" by (intro power_increasing) auto
    with l(1) assms(2) show False by simp
  qed
  have one: "floorlog 2 1 = 1" by (simp add: floorlog_def)
  define s where "s = int l - 54"
  have ns: "nat s = 0" and nns: "nat (- s) = 54 - l" using \<open>l \<le> 53\<close> by (auto simp: s_def)
  have "(2::nat) ^ 53 = 2 ^ (l - 1) * 2 ^ (54 - l)"
    using \<open>l \<le> 53\<close> l(3) by (simp flip: power_add)
  also have "\<dots> \<le> n * 2 ^ (54 - l)" using l(1) by (intro mult_right_mono) auto
  finally have big: "2 ^ 53 \<le> n * 2 ^ (54 - l)" .
  have "f64_shift n 1 = s + 1"
    unfolding f64_shift_def Let_def one
    using big ns nns by (simp add: s_def flip: l_def)
  moreover have "nat (s + 1) = 0" and "nat (- (s + 1)) = 53 - l" using \<open>l \<le> 53\<close> by (auto simp: s_def)
  ultimately show ?thesis using assms(1) by (auto simp: f64_div_def Let_def)
qed

lemma f64_of_nat_exact: "n < 2 ^ 53 \<Longrightarrow> f64_of_nat n = n"
  using f64_div_exact [of n] by (cases "n = 0") (auto simp: f64_of_nat_def f64_div_def)

lemma parse_decimal_show: "parse_decimal (show_nat n) = Some (n, 1)"
proof -
  have "CHR ''.'' \<notin> set (show_nat n)" using show_nat_digits [of "CHR ''.''" n]
    by (auto simp: is_ascii_digit_def)
  then show ?thesis
    by (simp add: parse_decimal_def split_char_whole show_nat_def nat_digits_all_digits
        digits_val_nat_digits)
qed

lemma size_unit_facts:
  assumes "i < length size_units"
  shows "\<exists>c. size_units ! i = [c] \<and> plain_char c \<and> \<not> number_char c"
    and "size_mult (to_ascii_uppercase (trim (size_units ! i))) = Some (1024 ^ i)"
proof -
  have i: "i \<in> {0, 1, 2, 3, 4}" using assms by (auto simp: size_units_def)
  then show c: "\<exists>c. size_units ! i = [c] \<and> plain_char c \<and> \<not> number_char c"
    by (auto simp: size_units_def plain_char_def number_char_def is_ascii_digit_def)
  then have t: "trim (size_units ! i) = size_units ! i" by (auto intro!: trim_plain)
  have "size_mult (to_ascii_uppercase ''B'') = Some (1024 ^ 0)" "size_mult (to_ascii_uppercase ''K'') = Some (1024 ^ 1)"
    "size_mult (to_ascii_uppercase ''M'') = Some (1024 ^ 2)" "size_mult (to_ascii_uppercase ''G'') = Some (1024 ^ 3)"
    "size_mult (to_ascii_uppercase ''T'') = Some (1024 ^ 4)"
    by (simp_all add: size_mult_def to_ascii_uppercase_def upper_char_def is_ascii_lower_def)
  with i show "size_mult (to_ascii_uppercase (trim (size_units ! i))) = Some (1024 ^ i)"
    unfolding t by (elim insertE emptyE) (simp_all add: size_units_def)
qed

lemma unit_index_bounds:
  assumes "1024 ^ i \<le> p \<or> i = 0" and "i < length size_units"
  shows "unit_index p i < length size_units
    \<and> (1024 ^ unit_index p i \<le> p \<or> unit_index p i = 0)
    \<and> (unit_index p i < length size_units - 1 \<longrightarrow> p < 1024 ^ Suc (unit_index p i))"
  using assms
proof (induction p i rule: unit_index.induct)
  case (1 p i)
  show ?case
  proof (cases "1024 ^ Suc i \<le> p \<and> i < length size_units - 1")
    case True
    then have "unit_index p i = unit_index p (Suc i)" by (subst unit_index.simps) simp
    with 1 True show ?thesis by auto
  next
    case False
    then have "unit_index p i = i" by (subst unit_index.simps) (rule if_not_P)
    with 1 False show ?thesis by (auto simp: not_le)
  qed
qed

text \<open>C39: A whole number below 2^53 followed by a unit parses to that many units of 1024^i bytes,
  saturating at the largest \<open>u64\<close>.\<close>

theorem parse_size_exact:
  assumes "n < 2 ^ 53" and "i < length size_units"
  shows "parse_size quote (show_nat n @ size_units ! i) = Inr (of_nat (min (n * 1024 ^ i) (2 ^ 64 - 1)))"
proof -
  obtain c where c: "size_units ! i = [c]" "plain_char c" "\<not> number_char c"
    using size_unit_facts(1) [OF assms(2)] by blast
  have num: "list_all number_char (show_nat n)" and plain: "list_all plain_char (show_nat n)"
    using show_nat_digits [of _ n] by (auto simp: list_all_iff number_char_def digit_plain)
  then have "takeWhile number_char (show_nat n @ size_units ! i) = show_nat n"
    and "dropWhile number_char (show_nat n @ size_units ! i) = size_units ! i"
    using c by (auto simp: list_all_iff takeWhile_append dropWhile_append)
  moreover have "trim (show_nat n @ size_units ! i) = show_nat n @ size_units ! i"
    using plain c by (intro trim_plain) simp
  moreover have "\<exists>k. f64_div n 1 = (n * 2 ^ k, 2 ^ k)"
    using f64_div_exact [OF _ assms(1)] by (cases "n = 0") (auto simp: f64_div_def intro: exI [of _ 0])
  ultimately show ?thesis
    using c size_unit_facts(2) [OF assms(2)]
    by (auto simp: parse_size_def parse_decimal_show Let_def mult.assoc mult.left_commute
        simp flip: mult.assoc)
qed

theorem parse_size_exact_witness: "parse_size id ''20G'' = Inr 21474836480"
proof -
  have "show_nat 20 @ size_units ! 3 = ''20G''" by code_simp
  then show ?thesis using parse_size_exact [of 20 3 id] by (simp add: size_units_def)
qed



end
