(* ===== verification/Mount.thy ===== *)
theory Mount
  imports Wire Faults Utils_Size
begin

unbundle bit_operations_syntax

text \<open>
  \<open>utils/mount.rs\<close>: free space, and whether the disk below the data directory is still there. The calls
  into the kernel are parameters: \<open>statvfs\<close>, \<open>stat\<close> (the device number of a path) and which paths of
  \<open>/sys\<close> exist. Device numbers are \<open>64 word\<close>s in the encoding of Linux.
\<close>

section \<open>Space\<close>

record statvfs =
  sf_fragment :: u64
  sf_available :: u64
  sf_blocks :: u64

definition disk_usage :: "(string \<Rightarrow> string) \<Rightarrow> (string \<Rightarrow> statvfs result) \<Rightarrow> string \<Rightarrow> (u64 \<times> u64) result" where
  "disk_usage quote statvfs path =
     (case with_context (''statvfs '' @ quote path) (statvfs path) of
        Inl e \<Rightarrow> Inl e
      | Inr st \<Rightarrow> Inr (sf_available st * sf_fragment st, sf_blocks st * sf_fragment st))"

definition describe_disk :: "(u64 \<times> u64) result \<Rightarrow> string" where
  "describe_disk usage =
     (case usage of
        Inr (free, all) \<Rightarrow> human_bytes free @ '' free of '' @ human_bytes all
      | Inl e \<Rightarrow> ''unknown ('' @ (case e of [] \<Rightarrow> [] | c # _ \<Rightarrow> cause_text c) @ '')'')"

definition is_on_separate_filesystem :: "(string \<Rightarrow> string) \<Rightarrow> (string \<Rightarrow> u64 result) \<Rightarrow> string \<Rightarrow> bool result" where
  "is_on_separate_filesystem quote stat path =
     (case with_context ''stat /'' (stat ''/'') of
        Inl e \<Rightarrow> Inl e
      | Inr boot \<Rightarrow>
          (case with_context (''stat '' @ quote path) (stat path) of
             Inl e \<Rightarrow> Inl e | Inr p \<Rightarrow> Inr (boot \<noteq> p)))"

definition check_mount :: "(string \<Rightarrow> string) \<Rightarrow> string \<Rightarrow> bool \<Rightarrow> bool result \<Rightarrow> unit result" where
  "check_mount quote data_dir require_it separate =
     (if \<not> require_it then Inr ()
      else case separate of
             Inl e \<Rightarrow> Inl e
           | Inr True \<Rightarrow> Inr ()
           | Inr False \<Rightarrow> Inl (bail (''--require-mount: '' @ quote data_dir
               @ '' is on the root filesystem; refusing to start so downloads do not land on the boot disk'')))"

section \<open>The device of a path\<close>

definition dev_major :: "u64 \<Rightarrow> u64" where
  "dev_major dev = (drop_bit 8 dev AND 0xFFF) OR (drop_bit 32 dev AND NOT 0xFFF)"

definition dev_minor :: "u64 \<Rightarrow> u64" where
  "dev_minor dev = (dev AND 0xFF) OR (drop_bit 12 dev AND NOT 0xFF)"

definition dev_name :: "u64 \<Rightarrow> u64 \<Rightarrow> string" where
  "dev_name major minor = show_u64 major @ '':'' @ show_u64 minor"

definition device_present_in :: "(string \<Rightarrow> bool) \<Rightarrow> bool \<Rightarrow> u64 \<Rightarrow> bool" where
  "device_present_in block_exists sys_block_is_dir dev =
     (if dev_major dev = 0 \<or> \<not> sys_block_is_dir then True
      else block_exists (dev_name (dev_major dev) (dev_minor dev)))"

definition backing_device_present ::
  "(string \<Rightarrow> bool) \<Rightarrow> bool \<Rightarrow> (string \<Rightarrow> u64 result) \<Rightarrow> string \<Rightarrow> bool" where
  "backing_device_present block_exists sys_block_is_dir stat path =
     (case stat path of Inr dev \<Rightarrow> device_present_in block_exists sys_block_is_dir dev | Inl _ \<Rightarrow> False)"

section \<open>The mount table\<close>

text \<open>The first character of a string, as its bytes, and the rest.\<close>

definition split_first :: "string \<Rightarrow> string \<times> string" where
  "split_first s =
     (case s of
        [] \<Rightarrow> ([], [])
      | a # r \<Rightarrow> (let k = (case utf8_tail (of_char a) of Some rs \<Rightarrow> length rs | None \<Rightarrow> 0)
                in (a # take k r, drop k r)))"

fun take_chars :: "nat \<Rightarrow> string \<Rightarrow> string \<times> string" where
  "take_chars 0 s = ([], s)"
| "take_chars (Suc n) s =
     (let (c, r) = split_first s; (cs, r') = take_chars n r in (c @ cs, r'))"

lemma take_chars_append: "fst (take_chars n s) @ snd (take_chars n s) = s"
proof (induction n arbitrary: s)
  case (Suc n)
  have "fst (split_first s) @ snd (split_first s) = s"
    by (cases s) (simp_all add: split_first_def Let_def)
  with Suc [of "snd (split_first s)"] show ?case by (simp add: case_prod_beta)
qed simp

definition octal_byte :: "string \<Rightarrow> nat option" where
  "octal_byte code =
     (let d = (case code of
                 c # r \<Rightarrow> if c = CHR ''+'' \<and> r \<noteq> [] then r else code | [] \<Rightarrow> []);
          v = foldl (\<lambda>n c. 8 * n + digit_val c) 0 d
      in if d \<noteq> [] \<and> list_all (\<lambda>c. 48 \<le> (of_char c :: nat) \<and> (of_char c :: nat) \<le> 55) d \<and> v < 256
         then Some v else None)"

definition latin1_char :: "nat \<Rightarrow> string" where
  "latin1_char b = (if b < 0x80 then [char_of b] else [char_of (0xC0 + b div 64), char_of (0x80 + b mod 64)])"

function unescape :: "string \<Rightarrow> string" where
  "unescape [] = []"
| "unescape (c # s) =
     (if c = CHR 0x5C then
        (let (code, rest) = take_chars 3 s
         in (case octal_byte code of Some b \<Rightarrow> latin1_char b | None \<Rightarrow> c # code) @ unescape rest)
      else c # unescape s)"
  by pat_completeness auto
termination
proof (relation "measure length", simp)
  show "(rest, c # s) \<in> measure length" if "x = take_chars 3 s" and "(code, rest) = x"
    for c s x code and rest :: string
  proof -
    have "length code + length rest = length s"
      using take_chars_append [of 3 s] that by (metis fst_conv length_append snd_conv)
    then show ?thesis by simp
  qed
qed auto

text \<open>\<open>Path\<close> compares components: repeated and final separators and inner dots do not count.\<close>

definition path_components :: "string \<Rightarrow> bool \<times> string list" where
  "path_components p =
     (let absolute = starts_with p ''/''; ps = split_char CHR ''/'' p;
          dot = (if \<not> absolute \<and> hd ps = ''.'' then [''.''] else [])
      in (absolute, dot @ filter (\<lambda>c. c \<noteq> [] \<and> c \<noteq> ''.'') ps))"

definition nth_opt :: "'a list \<Rightarrow> nat \<Rightarrow> 'a option" where
  "nth_opt xs n = (if n < length xs then Some (xs ! n) else None)"

definition mount_line :: "string \<Rightarrow> string \<Rightarrow> (u64 \<times> u64) option" where
  "mount_line path l =
     (let f = split_char CHR '' '' l
      in Option.bind (Option.bind (nth_opt f 2) (split_once CHR '':'')) (\<lambda>(maj, min).
           Option.bind (nth_opt f 4) (\<lambda>mp.
             if path_components (unescape mp) = path_components path
             then (case (parse_unsigned 64 maj, parse_unsigned 64 min) of
                     (Some a, Some b) \<Rightarrow> Some (of_nat a, of_nat b) | _ \<Rightarrow> None)
             else None)))"

definition mounted_device :: "string \<Rightarrow> string \<Rightarrow> (u64 \<times> u64) option" where
  "mounted_device mountinfo path =
     (case List.map_filter (mount_line path) (rev (str_lines mountinfo)) of [] \<Rightarrow> None | d # _ \<Rightarrow> Some d)"

definition host_has_disk :: "(string \<Rightarrow> bool) \<Rightarrow> string option \<Rightarrow> string \<Rightarrow> bool" where
  "host_has_disk block_exists mountinfo path =
     (case mountinfo of
        None \<Rightarrow> False
      | Some info \<Rightarrow>
          (case mounted_device info path of
             Some (major, minor) \<Rightarrow> major = 0 \<or> block_exists (dev_name major minor)
           | None \<Rightarrow> False))"

section \<open>Facts\<close>

lemma mounted_device_last:
  "mounted_device mountinfo path = Some d \<Longrightarrow>
    \<exists>before l after. str_lines mountinfo = before @ l # after \<and> mount_line path l = Some d
      \<and> (\<forall>k \<in> set after. mount_line path k = None)"
proof -
  have "\<exists>before l after. ls = before @ l # after \<and> mount_line path l = Some d
      \<and> (\<forall>k \<in> set after. mount_line path k = None)"
    if "(case List.map_filter (mount_line path) (rev ls) of [] \<Rightarrow> None | d # _ \<Rightarrow> Some d) = Some d" for ls
    using that
  proof (induction ls rule: rev_induct)
    case (snoc l ls)
    show ?case
    proof (cases "mount_line path l")
      case None
      with snoc obtain b k a where "ls = b @ k # a" "mount_line path k = Some d"
          "\<forall>x \<in> set a. mount_line path x = None"
        by (auto simp: map_filter_simps)
      with None show ?thesis by (intro exI [of _ b] exI [of _ k] exI [of _ "a @ [l]"]) auto
    next
      case (Some d')
      with snoc.prems show ?thesis by (intro exI [of _ ls] exI [of _ l] exI [of _ "[]"]) (simp add: map_filter_simps)
    qed
  qed (simp add: map_filter_simps)
  then show "mounted_device mountinfo path = Some d \<Longrightarrow> ?thesis" by (simp add: mounted_device_def)
qed

text \<open>The device number of glibc and musl: 12 low bits of the major number from bit 8 and the others
  from bit 44, 8 low bits of the minor number from bit 0 and the others from bit 20.\<close>

definition makedev :: "u64 \<Rightarrow> u64 \<Rightarrow> u64" where
  "makedev major minor =
     push_bit 8 (major AND 0xFFF) OR push_bit 32 (major AND NOT 0xFFF)
     OR (minor AND 0xFF) OR push_bit 12 (minor AND NOT 0xFF)"

lemma masks: "(0xFFF :: u64) = mask 12" "(0xFF :: u64) = mask 8"
  by (simp_all add: mask_eq_exp_minus_1)

lemma small_bits:
  fixes w :: u64
  assumes "w < 2 ^ k" and "k \<le> n" shows "\<not> bit w n"
proof -
  have "w = take_bit k w" using assms(1) by (metis less_mask_eq take_bit_eq_mask)
  then have "bit w n \<longleftrightarrow> n < k \<and> bit w n" by (metis bit_take_bit_iff)
  with assms(2) show ?thesis by simp
qed

text \<open>C34: The device numbers are read as the C library writes them: for every major number below 4096 and
  minor number below \<open>2 ^ 32\<close>, which is every device Linux has, decoding gives both back, so the
  name looked up in \<open>/sys/dev/block\<close> is that of the device; a major number of 4096 would leak into the minor.\<close>

theorem device_numbers_round_trip:
  assumes "major < 2 ^ 12" and "minor < 2 ^ 32"
  shows "dev_major (makedev major minor) = major \<and> dev_minor (makedev major minor) = minor
    \<and> dev_minor (makedev 4096 0) \<noteq> 0
    \<and> (device_present_in block_exists True (makedev major minor)
        \<longleftrightarrow> major = 0 \<or> block_exists (dev_name major minor))"
proof -
  note high = small_bits [OF assms(1)] small_bits [OF assms(2)]
  have "dev_major (makedev major minor) = major"
  proof (rule bit_word_eqI)
    fix n assume "n < LENGTH(64)"
    then show "bit (dev_major (makedev major minor)) n \<longleftrightarrow> bit major n"
      by (cases "n < 12") (simp_all add: dev_major_def makedev_def masks bit_simps high, arith)
  qed
  moreover have "dev_minor (makedev major minor) = minor"
  proof (rule bit_word_eqI)
    fix n assume "n < LENGTH(64)"
    then show "bit (dev_minor (makedev major minor)) n \<longleftrightarrow> bit minor n"
      using high(1) [of "n - 20"] high(2) [of n]
      by (cases "n < 8") (auto simp: dev_minor_def makedev_def masks bit_simps)
  qed
  moreover have "dev_minor (makedev 4096 0) \<noteq> 0"
    by (simp add: dev_minor_def makedev_def)
  ultimately show ?thesis by (auto simp: device_present_in_def)
qed

theorem device_numbers_round_trip_witness:
  "dev_major (makedev 259 300) = 259 \<and> dev_minor (makedev 259 300) = 300"
  using device_numbers_round_trip [of 259 300] by simp

end
