(* ===== verification/Chars.thy ===== *)
theory Chars
  imports Mount
begin

text \<open>
  Strings of bytes as the characters that \<open>str::chars\<close> sees, each one the bytes of its encoding.
\<close>

function str_chars :: "string \<Rightarrow> string list" where
  "str_chars [] = []"
| "str_chars (a # s) = (let (c, r) = split_first (a # s) in c # str_chars r)"
  by pat_completeness auto
termination
  by (relation "measure length") (auto simp: split_first_def Let_def)

declare str_chars.simps(2) [simp del]

lemma str_chars_concat: "concat (str_chars s) = s"
proof (induction s rule: str_chars.induct)
  case (2 a s)
  obtain c r where cr: "split_first (a # s) = (c, r)" by fastforce
  then have "c @ r = a # s" by (auto simp: split_first_def Let_def)
  with 2 [OF cr [symmetric] refl] cr show ?case by (simp add: str_chars.simps(2))
qed simp

lemma str_chars_ascii: "(\<And>c. c \<in> set s \<Longrightarrow> (of_char c :: nat) < 0x80) \<Longrightarrow> str_chars s = map (\<lambda>c. [c]) s"
  by (induction s) (simp_all add: str_chars.simps(2) split_first_def utf8_tail_def Let_def)

end
