(* ===== verification/Announce.thy ===== *)
theory Announce
  imports Chars Faults Net_Addr
begin

text \<open>
  The \<open>mdns\<close> crate: describing a service on the local network. The daemon of \<open>mdns_sd\<close> that sends the
  announcement is outside the program; what it is given is the record \<open>mdns_info\<close>.
\<close>

record mdns_service =
  ms_service_type :: string
  ms_instance :: string
  ms_port :: u16
  ms_txt :: "(string \<times> string) list"

text \<open>A character of a name: letters and digits in lower case, everything else a hyphen.\<close>

definition label_char :: "string \<Rightarrow> char" where
  "label_char c =
     (case c of
        [x] \<Rightarrow> if is_ascii_alphanumeric x \<or> x = CHR ''-'' then lower_char x else CHR ''-''
      | _ \<Rightarrow> CHR ''-'')"

definition dns_label :: "(string \<Rightarrow> string) \<Rightarrow> string \<Rightarrow> string result" where
  "dns_label quote name =
     (let l = trim_chars {CHR ''-''} (map label_char (str_chars name))
      in if l = [] then Inl (bail (''mDNS name '' @ quote name @ '' has nothing usable in it'')) else Inr l)"

definition mdns_new :: "(string \<Rightarrow> string) \<Rightarrow> string \<Rightarrow> string \<Rightarrow> u16 \<Rightarrow> mdns_service result" where
  "mdns_new quote service_type inst port =
     map_sum id (\<lambda>l. \<lparr>ms_service_type = service_type, ms_instance = l, ms_port = port, ms_txt = []\<rparr>)
       (dns_label quote inst)"

definition mdns_txt :: "string \<Rightarrow> string \<Rightarrow> mdns_service \<Rightarrow> mdns_service" where
  "mdns_txt k v s = s\<lparr>ms_txt := ms_txt s @ [(k, v)]\<rparr>"

definition mdns_hostname :: "mdns_service \<Rightarrow> string" where
  "mdns_hostname s = ms_instance s @ ''.local''"

record mdns_info =
  mi_service_type :: string
  mi_instance :: string
  mi_host :: string
  mi_addr :: string
  mi_port :: u16
  mi_txt :: "(string \<times> string) list"
  mi_addr_auto :: bool

definition is_unspecified :: "ip_addr \<Rightarrow> bool" where
  "is_unspecified ip = (case ip of V4 a \<Rightarrow> a = 0 | V6 a \<Rightarrow> a = 0)"

definition is_loopback :: "ip_addr \<Rightarrow> bool" where
  "is_loopback ip = (case ip of V4 a \<Rightarrow> drop_bit 24 a = 127 | V6 a \<Rightarrow> a = 1)"

definition service_info :: "(ip_addr \<Rightarrow> string) \<Rightarrow> ip_addr \<Rightarrow> mdns_service \<Rightarrow> mdns_info" where
  "service_info show_ip addr s =
     \<lparr>mi_service_type = ms_service_type s, mi_instance = ms_instance s,
      mi_host = ms_instance s @ ''.local.'',
      mi_addr = (if is_unspecified addr then [] else show_ip addr),
      mi_port = ms_port s, mi_txt = ms_txt s, mi_addr_auto = is_unspecified addr\<rparr>"

text \<open>What \<open>start\<close> registers with the daemon \<open>register\<close>; the result names the announced host.\<close>

definition mdns_start ::
  "(ip_addr \<Rightarrow> string) \<Rightarrow> (mdns_info \<Rightarrow> unit result) \<Rightarrow> ip_addr \<Rightarrow> mdns_service \<Rightarrow> string result" where
  "mdns_start show_ip register addr s =
     (if is_loopback addr then Inl (bail ''cannot advertise over mDNS: the listen address is loopback'')
      else map_sum id (\<lambda>_. mdns_hostname s) (register (service_info show_ip addr s)))"

section \<open>Labels\<close>

definition label_byte :: "char \<Rightarrow> bool" where
  "label_byte c \<longleftrightarrow> is_ascii_lower c \<or> is_ascii_digit c \<or> c = CHR ''-''"

lemma lower_alnum: "is_ascii_alphanumeric x \<Longrightarrow> label_byte (lower_char x)"
  by (auto simp: is_ascii_alphanumeric_def is_ascii_alphabetic_def label_byte_def lower_char_def
      is_ascii_lower_def is_ascii_upper_def is_ascii_digit_def)

lemma label_char_byte: "label_byte (label_char c)"
proof -
  have "label_byte CHR ''-''" and "lower_char CHR ''-'' = CHR ''-''" by (simp_all add: label_byte_def lower_char_def is_ascii_upper_def)
  then show ?thesis by (auto simp: label_char_def lower_alnum split: list.split)
qed

lemma trim_chars_subset: "set (trim_chars X s) \<subseteq> set s"
  by (auto simp: trim_chars_def dest!: set_dropWhileD)

lemma trim_chars_ends:
  assumes "trim_chars X s \<noteq> []"
  shows "hd (trim_chars X s) \<notin> X" and "last (trim_chars X s) \<notin> X"
proof -
  obtain d where d: "d = dropWhile (\<lambda>x. x \<in> X) s" by simp
  obtain u where u: "u = dropWhile (\<lambda>x. x \<in> X) (rev d)" by simp
  have trim: "trim_chars X s = rev u" by (simp add: trim_chars_def d u)
  with assms have ne: "u \<noteq> []" by simp
  have "hd u \<notin> X" using hd_dropWhile [of "\<lambda>x. x \<in> X" "rev d"] ne unfolding u [symmetric] by simp
  then show "last (trim_chars X s) \<notin> X" using ne by (simp add: trim last_rev)
  obtain p where "rev d = p @ u" by (metis u takeWhile_dropWhile_id)
  then have split: "d = rev u @ rev p" by (metis rev_append rev_rev_ident)
  have "d \<noteq> []" using split ne by simp
  then have "hd d \<notin> X" using hd_dropWhile [of "\<lambda>x. x \<in> X" s] unfolding d [symmetric] by simp
  then show "hd (trim_chars X s) \<notin> X" using split ne by (simp add: trim)
qed

lemma trim_chars_fixed_ends: "s \<noteq> [] \<Longrightarrow> hd s \<notin> X \<Longrightarrow> last s \<notin> X \<Longrightarrow> trim_chars X s = s"
proof -
  assume s: "s \<noteq> []" "hd s \<notin> X" "last s \<notin> X"
  have "dropWhile (\<lambda>x. x \<in> X) s = s" using s by (cases s) auto
  moreover have "dropWhile (\<lambda>x. x \<in> X) (rev s) = rev s" using s by (cases s rule: rev_cases) auto
  ultimately show ?thesis by (simp add: trim_chars_def)
qed

lemma label_char_fixed: "label_byte c \<Longrightarrow> label_char [c] = c"
  by (auto simp: label_char_def label_byte_def lower_char_def is_ascii_alphanumeric_def is_ascii_alphabetic_def
      is_ascii_lower_def is_ascii_upper_def is_ascii_digit_def)

lemma label_byte_ascii: "label_byte c \<Longrightarrow> (of_char c :: nat) < 0x80"
  by (auto simp: label_byte_def is_ascii_lower_def is_ascii_digit_def)

text \<open>C30: A box is only announced under a proper name. Whatever name is configured, the label made of it is not empty,
  holds lower-case letters, digits and hyphens alone, begins and ends with none of the hyphens, and is its own label, so
  announcing it again changes nothing.\<close>

theorem announced_names_are_labels:
  assumes "dns_label quote name = Inr l"
  shows "l \<noteq> [] \<and> list_all label_byte l \<and> hd l \<noteq> CHR ''-'' \<and> last l \<noteq> CHR ''-''
    \<and> dns_label quote l = Inr l"
proof -
  have l: "l = trim_chars {CHR ''-''} (map label_char (str_chars name))" "l \<noteq> []"
    using assms by (auto simp: dns_label_def Let_def split: if_splits)
  then have bytes: "list_all label_byte l"
    using trim_chars_subset [of "{CHR ''-''}" "map label_char (str_chars name)"] label_char_byte
    by (force simp: list_all_iff)
  have ends: "hd l \<noteq> CHR ''-''" "last l \<noteq> CHR ''-''"
    using trim_chars_ends [of "{CHR ''-''}" "map label_char (str_chars name)"] l by auto
  have "str_chars l = map (\<lambda>c. [c]) l"
    using bytes label_byte_ascii by (intro str_chars_ascii) (auto simp: list_all_iff)
  then have "map label_char (str_chars l) = l"
    using bytes by (simp add: list_all_iff label_char_fixed map_idI)
  then have "dns_label quote l = Inr l"
    using trim_chars_fixed_ends [OF l(2), of "{CHR ''-''}"] ends l(2) by (simp add: dns_label_def)
  with l(2) bytes ends show ?thesis by simp
qed

theorem announced_names_are_labels_witness:
  "dns_label id ''_My Box!'' = Inr ''my-box'' \<and> dns_label id ''my-box'' = Inr ''my-box''"
proof -
  have "dns_label id ''_My Box!'' = Inr ''my-box''" by code_simp
  with announced_names_are_labels [OF this] show ?thesis by blast
qed

end
