(* ===== verification/Tables.thy ===== *)
theory Tables
  imports Tornas_Prelude
begin

text \<open>
  A database table as the list of its rows in \<open>rowid\<close> order, with a key column, and the five
  statements the catalog uses on it: select by key, delete by key, update by key, \<open>REPLACE INTO\<close>
  (the old row goes, the new one gets the next \<open>rowid\<close>) and \<open>INSERT .. ON CONFLICT DO UPDATE\<close>
  (the old row is updated where it stands). The locale \<open>keyed_store\<close> is the contract the
  catalog's tables keep towards the rest of the program.
\<close>

section \<open>Statements\<close>

definition tbl_get :: "('r \<Rightarrow> 'k) \<Rightarrow> 'k \<Rightarrow> 'r list \<Rightarrow> 'r option" where
  "tbl_get key k rows = find (\<lambda>r. key r = k) rows"

definition tbl_del :: "('r \<Rightarrow> 'k) \<Rightarrow> 'k \<Rightarrow> 'r list \<Rightarrow> 'r list" where
  "tbl_del key k rows = filter (\<lambda>r. key r \<noteq> k) rows"

definition tbl_upd :: "('r \<Rightarrow> 'k) \<Rightarrow> 'k \<Rightarrow> ('r \<Rightarrow> 'r) \<Rightarrow> 'r list \<Rightarrow> 'r list" where
  "tbl_upd key k f rows = map (\<lambda>r. if key r = k then f r else r) rows"

definition tbl_replace :: "('r \<Rightarrow> 'k) \<Rightarrow> 'r \<Rightarrow> 'r list \<Rightarrow> 'r list" where
  "tbl_replace key r rows = tbl_del key (key r) rows @ [r]"

definition tbl_upsert :: "('r \<Rightarrow> 'k) \<Rightarrow> ('r \<Rightarrow> 'r \<Rightarrow> 'r) \<Rightarrow> 'r \<Rightarrow> 'r list \<Rightarrow> 'r list" where
  "tbl_upsert key merge r rows =
     (if tbl_get key (key r) rows = None then rows @ [r]
      else tbl_upd key (key r) (\<lambda>old. merge old r) rows)"

definition key_distinct :: "('r \<Rightarrow> 'k) \<Rightarrow> 'r list \<Rightarrow> bool" where
  "key_distinct key rows \<longleftrightarrow> distinct (map key rows)"

section \<open>Facts\<close>

lemma tbl_get_Some: "tbl_get key k rows = Some r \<Longrightarrow> r \<in> set rows \<and> key r = k"
  by (auto simp: tbl_get_def find_Some_iff in_set_conv_nth)

lemma tbl_get_None: "tbl_get key k rows = None \<longleftrightarrow> k \<notin> key ` set rows"
  by (auto simp: tbl_get_def find_None_iff)

lemma tbl_get_in:
  "key_distinct key rows \<Longrightarrow> r \<in> set rows \<Longrightarrow> tbl_get key (key r) rows = Some r"
  by (induction rows) (auto simp: tbl_get_def key_distinct_def image_iff)

lemma set_tbl_del [simp]: "set (tbl_del key k rows) = {r \<in> set rows. key r \<noteq> k}"
  by (auto simp: tbl_del_def)

lemma set_tbl_replace [simp]:
  "set (tbl_replace key r rows) = insert r {x \<in> set rows. key x \<noteq> key r}"
  by (auto simp: tbl_replace_def)

lemma key_distinct_Nil [simp, intro]: "key_distinct key []"
  by (simp add: key_distinct_def)

lemma key_distinct_del [wf_intros]: "key_distinct key rows \<Longrightarrow> key_distinct key (tbl_del key k rows)"
  by (simp add: key_distinct_def tbl_del_def distinct_map_filter)

lemma key_distinct_upd [wf_intros]:
  "key_distinct key rows \<Longrightarrow> (\<And>r. key (f r) = key r) \<Longrightarrow> key_distinct key (tbl_upd key k f rows)"
  by (simp add: key_distinct_def tbl_upd_def o_def if_distrib cong: if_cong)

lemma key_distinct_replace [wf_intros]:
  "key_distinct key rows \<Longrightarrow> key_distinct key (tbl_replace key r rows)"
  using key_distinct_del [of key rows "key r"]
  by (auto simp: key_distinct_def tbl_replace_def tbl_del_def)

lemma key_distinct_upsert [wf_intros]:
  "key_distinct key rows \<Longrightarrow> (\<And>old new. key (merge old new) = key old)
   \<Longrightarrow> key_distinct key (tbl_upsert key merge r rows)"
  by (auto simp: tbl_upsert_def tbl_get_None key_distinct_upd) (auto simp: key_distinct_def)

lemma tbl_get_del [simp]:
  "tbl_get key j (tbl_del key k rows) = (if j = k then None else tbl_get key j rows)"
  by (induction rows) (auto simp: tbl_get_def tbl_del_def)

lemma tbl_get_upd:
  "(\<And>r. key (f r) = key r) \<Longrightarrow>
   tbl_get key j (tbl_upd key k f rows) =
     (if j = k then map_option f (tbl_get key j rows) else tbl_get key j rows)"
  by (induction rows) (auto simp: tbl_get_def tbl_upd_def)

lemma tbl_get_append:
  "tbl_get key k (xs @ ys) = (case tbl_get key k xs of Some r \<Rightarrow> Some r | None \<Rightarrow> tbl_get key k ys)"
  by (induction xs) (auto simp: tbl_get_def)

lemma tbl_get_replace:
  "tbl_get key k (tbl_replace key r rows) = (if k = key r then Some r else tbl_get key k rows)"
  by (auto simp: tbl_replace_def tbl_get_append split: option.splits) (auto simp: tbl_get_def)

lemma tbl_get_upsert:
  "(\<And>old new. key (merge old new) = key old) \<Longrightarrow>
   tbl_get key k (tbl_upsert key merge r rows) =
     (if k = key r
      then Some (case tbl_get key k rows of None \<Rightarrow> r | Some old \<Rightarrow> merge old r)
      else tbl_get key k rows)"
  by (auto simp: tbl_upsert_def tbl_get_upd tbl_get_append split: option.splits)
    (auto simp: tbl_get_def)

section \<open>The contract of a keyed table\<close>

text \<open>
  \<open>stored\<close> says what a write leaves in the table, given the row that was there: an upsert keeps
  the time a movie was first added, a replaced torrent starts as not completed.
\<close>

locale keyed_store =
  fixes inv :: "'s \<Rightarrow> bool"
    and key :: "'r \<Rightarrow> 'k"
    and lookup :: "'s \<Rightarrow> 'k \<Rightarrow> 'r option"
    and put :: "'r \<Rightarrow> 's \<Rightarrow> 's"
    and remove :: "'k \<Rightarrow> 's \<Rightarrow> 's"
    and stored :: "'r option \<Rightarrow> 'r \<Rightarrow> 'r"
  assumes inv_put: "inv s \<Longrightarrow> inv (put r s)"
    and inv_remove: "inv s \<Longrightarrow> inv (remove k s)"
    and lookup_put: "inv s \<Longrightarrow>
      lookup (put r s) k = (if k = key r then Some (stored (lookup s k) r) else lookup s k)"
    and lookup_remove: "inv s \<Longrightarrow> lookup (remove k s) j = (if j = k then None else lookup s j)"
begin

fun apply_write :: "'r + 'k \<Rightarrow> 's \<Rightarrow> 's" where
  "apply_write (Inl r) s = put r s"
| "apply_write (Inr k) s = remove k s"

fun map_write :: "'r + 'k \<Rightarrow> ('k \<Rightarrow> 'r option) \<Rightarrow> ('k \<Rightarrow> 'r option)" where
  "map_write (Inl r) m = m(key r := Some (stored (m (key r)) r))"
| "map_write (Inr k) m = m(k := None)"

lemma inv_writes: "inv s \<Longrightarrow> inv (fold apply_write ws s)"
proof (induction ws arbitrary: s)
  case (Cons w ws)
  then show ?case by (cases w) (auto intro: inv_put inv_remove)
qed simp

lemma lookup_write: "inv s \<Longrightarrow> lookup (apply_write w s) = map_write w (lookup s)"
  by (cases w) (auto simp: lookup_put lookup_remove)

text \<open>Any sequence of writes acts on the table as on a finite map.\<close>

lemma lookup_writes: "inv s \<Longrightarrow> lookup (fold apply_write ws s) = fold map_write ws (lookup s)"
proof (induction ws arbitrary: s)
  case (Cons w ws)
  have "inv (apply_write w s)" using inv_writes [of s "[w]"] Cons.prems by simp
  with Cons show ?case by (simp add: lookup_write)
qed simp

lemma lookup_after_removal:
  "inv s \<Longrightarrow> lookup (fold apply_write (ws @ [Inr k]) s) k = None"
  by (simp add: lookup_remove inv_writes)

end

end
