(* ===== verification/Catalog_Store.thy ===== *)
theory Catalog_Store
  imports Tables Faults Complex_Main
begin

text \<open>
  The catalog database: the domain rows of \<open>media_catalog/store.rs\<close>, the column types and
  conversions of \<open>orm/records.rs\<close>, and one definition per query of \<open>orm/movies.rs\<close>,
  \<open>orm/torrents.rs\<close> and \<open>orm/events.rs\<close>, over the tables of \<open>migrations/0001_init\<close> with
  their primary keys and the cascading foreign key.

  Signed and unsigned 64-bit columns are the same words, so the casts between \<open>u64\<close> and \<open>i64\<close>
  are the identity; the 32-bit limits are widened and narrowed explicitly. A rating is the exact
  rational value of the \<open>f64\<close>. The movies table keeps the genre list decoded; the JSON text of
  its column is the subject of \<open>movie_insert\<close> and \<open>movie_from_record\<close>, which take the codec of
  \<open>serde_json\<close> as a parameter. Rows with the same \<open>added_at\<close> come in table order, which SQL
  leaves open. A failing disk is not modelled: the only database error is a violated foreign key.
\<close>

section \<open>Rows\<close>

record movie =
  imdb_id :: string
  tmdb_id :: "i64 option"
  title :: string
  year :: "32 word option"
  overview :: "string option"
  poster_url :: "string option"
  backdrop_url :: "string option"
  runtime_min :: "i64 option"
  genres :: "string list"
  rating :: "rat option"
  added_at :: i64
  last_used_at :: i64

record torrent_row =
  t_info_hash :: string
  t_imdb_id :: string
  t_magnet :: string
  t_size_bytes :: u64
  t_video_file_idx :: u64
  t_video_file_name :: string
  t_added_at :: i64
  t_private :: bool
  t_download_limit :: "u32 option"
  t_upload_limit :: "u32 option"
  t_peer_limit :: "u32 option"
  t_completed_at :: "i64 option"

record event =
  ev_ts :: i64
  ev_kind :: string
  ev_message :: string

section \<open>Columns and conversions\<close>

record torrent_record =
  r_info_hash :: string
  r_imdb_id :: string
  r_magnet :: string
  r_size_bytes :: i64
  r_video_file_idx :: i64
  r_video_file_name :: string
  r_added_at :: i64
  r_private :: bool
  r_download_limit :: "i64 option"
  r_upload_limit :: "i64 option"
  r_peer_limit :: "i64 option"
  r_completed_at :: "i64 option"

definition torrent_from_record :: "torrent_record \<Rightarrow> torrent_row" where
  "torrent_from_record r =
     \<lparr>t_info_hash = r_info_hash r, t_imdb_id = r_imdb_id r, t_magnet = r_magnet r,
      t_size_bytes = r_size_bytes r, t_video_file_idx = r_video_file_idx r,
      t_video_file_name = r_video_file_name r, t_added_at = r_added_at r, t_private = r_private r,
      t_download_limit = map_option (\<lambda>v. ucast v) (r_download_limit r),
      t_upload_limit = map_option (\<lambda>v. ucast v) (r_upload_limit r),
      t_peer_limit = map_option (\<lambda>v. ucast v) (r_peer_limit r),
      t_completed_at = r_completed_at r\<rparr>"

text \<open>The inserted columns leave out \<open>completed_at\<close>, so a new row holds NULL there.\<close>

definition torrent_insert :: "torrent_row \<Rightarrow> torrent_record" where
  "torrent_insert t =
     \<lparr>r_info_hash = t_info_hash t, r_imdb_id = t_imdb_id t, r_magnet = t_magnet t,
      r_size_bytes = t_size_bytes t, r_video_file_idx = t_video_file_idx t,
      r_video_file_name = t_video_file_name t, r_added_at = t_added_at t, r_private = t_private t,
      r_download_limit = map_option (\<lambda>v. ucast v) (t_download_limit t),
      r_upload_limit = map_option (\<lambda>v. ucast v) (t_upload_limit t),
      r_peer_limit = map_option (\<lambda>v. ucast v) (t_peer_limit t),
      r_completed_at = None\<rparr>"

record movie_record =
  mr_imdb_id :: string
  mr_tmdb_id :: "i64 option"
  mr_title :: string
  mr_year :: "32 word option"
  mr_overview :: "string option"
  mr_poster_url :: "string option"
  mr_backdrop_url :: "string option"
  mr_runtime_min :: "i64 option"
  mr_genres :: string
  mr_rating :: "rat option"
  mr_tmdb_json :: "string option"
  mr_added_at :: i64
  mr_last_used_at :: i64

definition movie_from_record :: "(string \<Rightarrow> string list option) \<Rightarrow> movie_record \<Rightarrow> movie" where
  "movie_from_record from_str r =
     \<lparr>imdb_id = mr_imdb_id r, tmdb_id = mr_tmdb_id r, title = mr_title r, year = mr_year r,
      overview = mr_overview r, poster_url = mr_poster_url r, backdrop_url = mr_backdrop_url r,
      runtime_min = mr_runtime_min r,
      genres = (case from_str (mr_genres r) of Some g \<Rightarrow> g | None \<Rightarrow> []),
      rating = mr_rating r, added_at = mr_added_at r, last_used_at = mr_last_used_at r\<rparr>"

definition movie_insert ::
  "(string list \<Rightarrow> string result) \<Rightarrow> movie \<Rightarrow> string option \<Rightarrow> movie_record result" where
  "movie_insert to_str m json =
     (case to_str (genres m) of
        Inl e \<Rightarrow> Inl e
      | Inr g \<Rightarrow> Inr
         \<lparr>mr_imdb_id = imdb_id m, mr_tmdb_id = tmdb_id m, mr_title = title m, mr_year = year m,
          mr_overview = overview m, mr_poster_url = poster_url m,
          mr_backdrop_url = backdrop_url m, mr_runtime_min = runtime_min m, mr_genres = g,
          mr_rating = rating m, mr_tmdb_json = json, mr_added_at = added_at m,
          mr_last_used_at = last_used_at m\<rparr>)"

lemma torrent_roundtrip:
  "torrent_from_record (torrent_insert t) = t\<lparr>t_completed_at := None\<rparr>"
proof -
  have down: "(ucast (ucast v :: 64 word) :: 32 word) = v" for v :: "32 word"
    by transfer simp
  have "map_option (\<lambda>v. (ucast v :: 32 word)) (map_option (\<lambda>v. (ucast v :: 64 word)) x) = x"
    for x :: "32 word option"
    by (cases x) (simp_all add: down)
  then show ?thesis
    by (simp add: torrent_from_record_def torrent_insert_def)
qed

section \<open>The database\<close>

record movie_row =
  row_movie :: movie
  row_tmdb_json :: "string option"

record event_row =
  e_id :: nat
  e_event :: event

record catalog =
  ct_movies :: "movie_row list"
  ct_torrents :: "torrent_record list"
  ct_events :: "event_row list"
  ct_next_event :: nat

definition empty_catalog :: catalog where
  "empty_catalog = \<lparr>ct_movies = [], ct_torrents = [], ct_events = [], ct_next_event = 1\<rparr>"

abbreviation movie_key :: "movie_row \<Rightarrow> string" where
  "movie_key r \<equiv> imdb_id (row_movie r)"

subsection \<open>Movie queries\<close>

definition merge_movie :: "movie_row \<Rightarrow> movie_row \<Rightarrow> movie_row" where
  "merge_movie old new =
     \<lparr>row_movie = (row_movie new)\<lparr>imdb_id := movie_key old, added_at := added_at (row_movie old)\<rparr>,
      row_tmdb_json = row_tmdb_json new\<rparr>"

definition upsert_movie :: "movie \<Rightarrow> string option \<Rightarrow> catalog \<Rightarrow> catalog" where
  "upsert_movie m json c =
     c\<lparr>ct_movies := tbl_upsert movie_key merge_movie
                      \<lparr>row_movie = m, row_tmdb_json = json\<rparr> (ct_movies c)\<rparr>"

definition list_movies :: "catalog \<Rightarrow> movie list" where
  "list_movies c = sort_key (\<lambda>m. - sint (added_at m)) (map row_movie (ct_movies c))"

definition get_movie :: "string \<Rightarrow> catalog \<Rightarrow> movie option" where
  "get_movie i c = map_option row_movie (tbl_get movie_key i (ct_movies c))"

definition delete_movie :: "string \<Rightarrow> catalog \<Rightarrow> bool \<times> catalog" where
  "delete_movie i c =
     (tbl_get movie_key i (ct_movies c) \<noteq> None,
      c\<lparr>ct_movies := tbl_del movie_key i (ct_movies c),
        ct_torrents := filter (\<lambda>t. r_imdb_id t \<noteq> i) (ct_torrents c)\<rparr>)"

definition touch :: "string \<Rightarrow> i64 \<Rightarrow> catalog \<Rightarrow> catalog" where
  "touch i ts c =
     c\<lparr>ct_movies := tbl_upd movie_key i
                      (\<lambda>r. r\<lparr>row_movie := (row_movie r)\<lparr>last_used_at := ts\<rparr>\<rparr>) (ct_movies c)\<rparr>"

subsection \<open>Torrent queries\<close>

definition put_torrent :: "torrent_record \<Rightarrow> catalog \<Rightarrow> catalog" where
  "put_torrent r c = c\<lparr>ct_torrents := tbl_replace r_info_hash r (ct_torrents c)\<rparr>"

definition insert_torrent :: "torrent_row \<Rightarrow> catalog \<Rightarrow> catalog result" where
  "insert_torrent t c =
     (let row = torrent_insert t
      in if r_imdb_id row \<in> movie_key ` set (ct_movies c)
         then Inr (put_torrent row c)
         else Inl (bail ''FOREIGN KEY constraint failed''))"

definition set_limits ::
  "string \<Rightarrow> u32 option \<Rightarrow> u32 option \<Rightarrow> u32 option \<Rightarrow> catalog \<Rightarrow> catalog" where
  "set_limits h download upload peers c =
     c\<lparr>ct_torrents := tbl_upd r_info_hash h
         (\<lambda>r. r\<lparr>r_download_limit := map_option (\<lambda>v. ucast v) download,
                r_upload_limit := map_option (\<lambda>v. ucast v) upload,
                r_peer_limit := map_option (\<lambda>v. ucast v) peers\<rparr>) (ct_torrents c)\<rparr>"

definition list_torrents :: "catalog \<Rightarrow> torrent_row list" where
  "list_torrents c = map torrent_from_record (ct_torrents c)"

definition torrent_for_movie :: "string \<Rightarrow> catalog \<Rightarrow> torrent_row option" where
  "torrent_for_movie i c =
     (case sort_key (\<lambda>r. - sint (r_added_at r)) (filter (\<lambda>r. r_imdb_id r = i) (ct_torrents c)) of
        [] \<Rightarrow> None | r # _ \<Rightarrow> Some (torrent_from_record r))"

definition torrent_by_hash :: "string \<Rightarrow> catalog \<Rightarrow> torrent_row option" where
  "torrent_by_hash h c = map_option torrent_from_record (tbl_get r_info_hash h (ct_torrents c))"

definition mark_complete :: "string \<Rightarrow> i64 \<Rightarrow> catalog \<Rightarrow> catalog" where
  "mark_complete h ts c =
     c\<lparr>ct_torrents := tbl_upd r_info_hash h (\<lambda>r. r\<lparr>r_completed_at := Some ts\<rparr>) (ct_torrents c)\<rparr>"

subsection \<open>Event queries\<close>

definition keep_events :: nat where
  "keep_events = 500"

definition add_event :: "i64 \<Rightarrow> string \<Rightarrow> string \<Rightarrow> catalog \<Rightarrow> catalog" where
  "add_event now k msg c =
     (let row = \<lparr>e_id = ct_next_event c, e_event = \<lparr>ev_ts = now, ev_kind = k, ev_message = msg\<rparr>\<rparr>;
          rows = ct_events c @ [row];
          newest = rev (sort_key e_id rows);
          pruned = (case drop (keep_events - 1) newest of
                      [] \<Rightarrow> rows
                    | cutoff # _ \<Rightarrow> filter (\<lambda>r. \<not> e_id r < e_id cutoff) rows)
      in c\<lparr>ct_events := pruned, ct_next_event := Suc (ct_next_event c)\<rparr>)"

text \<open>\<open>LIMIT\<close> takes the count as an \<open>i64\<close>: a count past its range is negative, i.e. no limit.\<close>

definition recent_events :: "nat \<Rightarrow> catalog \<Rightarrow> event list" where
  "recent_events n c =
     (let rows = map e_event (rev (sort_key e_id (ct_events c)))
      in if n < 2 ^ 63 then take n rows else rows)"

section \<open>The invariant of the database\<close>

definition events_wf :: "catalog \<Rightarrow> bool" where
  "events_wf c \<longleftrightarrow>
     sorted_wrt (<) (map e_id (ct_events c)) \<and> (\<forall>r \<in> set (ct_events c). e_id r < ct_next_event c)
     \<and> length (ct_events c) \<le> keep_events"

definition catalog_wf :: "catalog \<Rightarrow> bool" where
  "catalog_wf c \<longleftrightarrow>
     key_distinct movie_key (ct_movies c) \<and> key_distinct r_info_hash (ct_torrents c)
     \<and> r_imdb_id ` set (ct_torrents c) \<subseteq> movie_key ` set (ct_movies c) \<and> events_wf c"

lemma catalog_wf_empty [wf_intros]: "catalog_wf empty_catalog"
  by (simp add: catalog_wf_def empty_catalog_def events_wf_def)

lemma movie_key_merge [simp]: "movie_key (merge_movie old new) = movie_key old"
  by (simp add: merge_movie_def)

lemma map_upd_other: "(\<And>r. g (f r) = g r) \<Longrightarrow> map g (tbl_upd key k f rows) = map g rows"
  by (simp add: tbl_upd_def)

lemma keys_upd: "(\<And>r. g (f r) = g r) \<Longrightarrow> g ` set (tbl_upd key k f rows) = g ` set rows"
  by (metis map_upd_other set_map)

lemma keys_upsert:
  "(\<And>old new. key (merge old new) = key old) \<Longrightarrow>
   key ` set (tbl_upsert key merge r rows) = insert (key r) (key ` set rows)"
  by (auto simp: tbl_upsert_def tbl_get_None keys_upd)

lemma upsert_movie_wf [wf_intros]: "catalog_wf c \<Longrightarrow> catalog_wf (upsert_movie m json c)"
  by (auto simp: catalog_wf_def upsert_movie_def keys_upsert events_wf_def intro!: wf_intros)

lemma touch_wf [wf_intros]: "catalog_wf c \<Longrightarrow> catalog_wf (touch i ts c)"
  by (auto simp: catalog_wf_def touch_def keys_upd events_wf_def intro!: wf_intros)

lemma delete_movie_wf [wf_intros]: "catalog_wf c \<Longrightarrow> catalog_wf (snd (delete_movie i c))"
  by (auto simp: catalog_wf_def delete_movie_def key_distinct_def distinct_map_filter tbl_del_def
      events_wf_def image_subset_iff)

lemma put_torrent_wf:
  "catalog_wf c \<Longrightarrow> r_imdb_id r \<in> movie_key ` set (ct_movies c) \<Longrightarrow> catalog_wf (put_torrent r c)"
  by (auto simp: catalog_wf_def put_torrent_def key_distinct_replace events_wf_def)

lemma insert_torrent_wf: "catalog_wf c \<Longrightarrow> insert_torrent t c = Inr c' \<Longrightarrow> catalog_wf c'"
  by (auto simp: insert_torrent_def Let_def put_torrent_wf split: if_splits)

lemma set_limits_wf [wf_intros]: "catalog_wf c \<Longrightarrow> catalog_wf (set_limits h d u p c)"
  by (auto simp: catalog_wf_def set_limits_def keys_upd events_wf_def intro!: wf_intros)

lemma mark_complete_wf [wf_intros]: "catalog_wf c \<Longrightarrow> catalog_wf (mark_complete h ts c)"
  by (auto simp: catalog_wf_def mark_complete_def keys_upd events_wf_def intro!: wf_intros)

subsection \<open>The event log\<close>

lemma sorted_ids:
  fixes f :: "'a \<Rightarrow> nat"
  shows "sorted_wrt (<) (map f xs) \<Longrightarrow> sort_key f xs = xs"
  by (intro sort_key_id_if_sorted strict_sorted_imp_sorted)

lemma filter_from_cutoff:
  fixes f :: "'a \<Rightarrow> nat"
  assumes "sorted_wrt (<) (map f xs)" and "i < length xs"
  shows "filter (\<lambda>x. \<not> f x < f (xs ! i)) xs = drop i xs"
  using assms
proof (induction xs arbitrary: i)
  case (Cons x xs)
  show ?case
  proof (cases i)
    case 0
    have "\<not> f y < f x" if "y \<in> set xs" for y using Cons.prems(1) that by force
    with 0 show ?thesis by (simp add: filter_id_conv)
  next
    case (Suc j)
    then have "f x < f (xs ! j)" using Cons.prems by simp
    with Suc Cons show ?thesis by simp
  qed
qed simp

lemma add_event_events:
  assumes "events_wf c"
  shows "ct_events (add_event now k msg c) =
    (let rows = ct_events c @ [\<lparr>e_id = ct_next_event c, e_event = \<lparr>ev_ts = now, ev_kind = k, ev_message = msg\<rparr>\<rparr>]
     in drop (length rows - keep_events) rows)"
proof -
  define rows where "rows = ct_events c @
    [\<lparr>e_id = ct_next_event c, e_event = \<lparr>ev_ts = now, ev_kind = k, ev_message = msg\<rparr>\<rparr>]"
  have sorted: "sorted_wrt (<) (map e_id rows)"
    using assms by (auto simp: rows_def events_wf_def sorted_wrt_append)
  have "(case drop (keep_events - 1) (rev rows) of [] \<Rightarrow> rows
           | cutoff # _ \<Rightarrow> filter (\<lambda>r. \<not> e_id r < e_id cutoff) rows)
        = drop (length rows - keep_events) rows"
  proof (cases "keep_events \<le> length rows")
    case True
    then have n: "keep_events - 1 < length (rev rows)" by (simp add: keep_events_def)
    then have "rev rows ! (keep_events - 1) = rows ! (length rows - keep_events)"
      using True by (simp add: rev_nth keep_events_def)
    with n sorted True show ?thesis
      by (subst Cons_nth_drop_Suc [OF n, symmetric]) (simp add: filter_from_cutoff keep_events_def)
  qed (simp add: keep_events_def)
  moreover have "ct_events (add_event now k msg c) =
      (case drop (keep_events - 1) (rev (sort_key e_id rows)) of [] \<Rightarrow> rows
       | cutoff # _ \<Rightarrow> filter (\<lambda>r. \<not> e_id r < e_id cutoff) rows)"
    unfolding add_event_def Let_def rows_def by simp
  ultimately have "ct_events (add_event now k msg c) = drop (length rows - keep_events) rows"
    using sorted_ids [OF sorted] by simp
  then show ?thesis by (simp add: rows_def Let_def)
qed

lemma add_event_frame [simp]:
  "ct_movies (add_event now k msg c) = ct_movies c"
  "ct_torrents (add_event now k msg c) = ct_torrents c"
  "ct_next_event (add_event now k msg c) = Suc (ct_next_event c)"
  by (simp_all add: add_event_def Let_def)

lemma events_wf_add:
  assumes "events_wf c"
  shows "events_wf (add_event now k msg c)"
proof -
  define rows where "rows = ct_events c @
    [\<lparr>e_id = ct_next_event c, e_event = \<lparr>ev_ts = now, ev_kind = k, ev_message = msg\<rparr>\<rparr>]"
  have ev: "ct_events (add_event now k msg c) = drop (length rows - keep_events) rows"
    using add_event_events [OF assms] by (simp add: rows_def Let_def)
  have "sorted_wrt (<) (map e_id rows)" and lt: "\<forall>r \<in> set rows. e_id r < Suc (ct_next_event c)"
    using assms by (auto simp: rows_def events_wf_def sorted_wrt_append less_Suc_eq)
  then have "sorted_wrt (<) (map e_id (drop (length rows - keep_events) rows))"
    by (simp add: sorted_wrt_drop flip: drop_map)
  with lt ev show ?thesis
    by (auto simp: events_wf_def dest: in_set_dropD)
qed

lemma add_event_wf [wf_intros]: "catalog_wf c \<Longrightarrow> catalog_wf (add_event now k msg c)"
  by (simp add: catalog_wf_def events_wf_add)

text \<open>The log as the messages it was given: the newest 500 of them.\<close>

fun log_all :: "(i64 \<times> string \<times> string) list \<Rightarrow> catalog \<Rightarrow> catalog" where
  "log_all [] c = c"
| "log_all ((now, k, msg) # es) c = log_all es (add_event now k msg c)"

definition event_of :: "i64 \<times> string \<times> string \<Rightarrow> event" where
  "event_of e = (case e of (now, k, msg) \<Rightarrow> \<lparr>ev_ts = now, ev_kind = k, ev_message = msg\<rparr>)"

lemma newest_events_add:
  assumes "events_wf c"
  shows "rev (map e_event (ct_events (add_event now k msg c)))
    = take keep_events (event_of (now, k, msg) # rev (map e_event (ct_events c)))"
proof -
  define rows where "rows = ct_events c @
    [\<lparr>e_id = ct_next_event c, e_event = \<lparr>ev_ts = now, ev_kind = k, ev_message = msg\<rparr>\<rparr>]"
  have "rev (map e_event (drop (length rows - keep_events) rows))
      = take keep_events (rev (map e_event rows))"
    by (simp add: take_rev drop_map)
  moreover have "rev (map e_event rows) = event_of (now, k, msg) # rev (map e_event (ct_events c))"
    by (simp add: rows_def event_of_def)
  ultimately show ?thesis
    using add_event_events [OF assms] by (simp add: rows_def Let_def)
qed

lemma newest_events_log:
  "events_wf c \<Longrightarrow> rev (map e_event (ct_events c)) = take keep_events hist \<Longrightarrow>
   rev (map e_event (ct_events (log_all es c))) = take keep_events (rev (map event_of es) @ hist)"
proof (induction es c arbitrary: hist rule: log_all.induct)
  case (2 now k msg es c)
  have "rev (map e_event (ct_events (add_event now k msg c)))
      = take keep_events (event_of (now, k, msg) # hist)"
    using 2 by (simp add: newest_events_add) (simp add: take_Cons' min_def)
  from "2.IH" [OF events_wf_add [OF "2.prems"(1)] this] show ?case by simp
qed simp

lemma log_all_wf: "events_wf c \<Longrightarrow> events_wf (log_all es c)"
  by (induction es c rule: log_all.induct) (auto intro: events_wf_add)

lemma recent_events_rev:
  "events_wf c \<Longrightarrow> n < 2 ^ 63 \<Longrightarrow> recent_events n c = take n (rev (map e_event (ct_events c)))"
  by (simp add: recent_events_def events_wf_def sorted_ids rev_map)

section \<open>The catalog keeps the keyed-table contract\<close>

definition lookup_movie_row :: "catalog \<Rightarrow> string \<Rightarrow> movie_row option" where
  "lookup_movie_row c i = tbl_get movie_key i (ct_movies c)"

definition put_movie_row :: "movie_row \<Rightarrow> catalog \<Rightarrow> catalog" where
  "put_movie_row r c = upsert_movie (row_movie r) (row_tmdb_json r) c"

definition remove_movie_row :: "string \<Rightarrow> catalog \<Rightarrow> catalog" where
  "remove_movie_row i c = snd (delete_movie i c)"

definition stored_movie :: "movie_row option \<Rightarrow> movie_row \<Rightarrow> movie_row" where
  "stored_movie old r = (case old of None \<Rightarrow> r | Some o' \<Rightarrow> merge_movie o' r)"

interpretation movies: keyed_store catalog_wf movie_key lookup_movie_row put_movie_row
  remove_movie_row stored_movie
proof unfold_locales
  fix s r k j assume wf: "catalog_wf s"
  show "catalog_wf (put_movie_row r s)"
    using wf by (simp add: put_movie_row_def upsert_movie_wf)
  show "catalog_wf (remove_movie_row k s)"
    using wf by (simp add: remove_movie_row_def delete_movie_wf)
  show "lookup_movie_row (put_movie_row r s) k =
      (if k = movie_key r then Some (stored_movie (lookup_movie_row s k) r) else lookup_movie_row s k)"
    by (cases r) (auto simp: lookup_movie_row_def put_movie_row_def upsert_movie_def tbl_get_upsert
        stored_movie_def merge_movie_def split: option.splits)
  show "lookup_movie_row (remove_movie_row k s) j = (if j = k then None else lookup_movie_row s j)"
    by (simp add: lookup_movie_row_def remove_movie_row_def delete_movie_def)
qed

section \<open>Every query against an abstract catalog\<close>

text \<open>One value per query of the three files that writes; a refused insert changes nothing.\<close>

datatype query =
    Upsert_Movie movie "string option"
  | Delete_Movie string
  | Touch string i64
  | Insert_Torrent torrent_row
  | Set_Limits string "u32 option" "u32 option" "u32 option"
  | Mark_Complete string i64
  | Add_Event i64 string string

fun run_query :: "query \<Rightarrow> catalog \<Rightarrow> catalog" where
  "run_query (Upsert_Movie m json) c = upsert_movie m json c"
| "run_query (Delete_Movie i) c = snd (delete_movie i c)"
| "run_query (Touch i ts) c = touch i ts c"
| "run_query (Insert_Torrent t) c = (case insert_torrent t c of Inl _ \<Rightarrow> c | Inr c' \<Rightarrow> c')"
| "run_query (Set_Limits h d u p) c = set_limits h d u p c"
| "run_query (Mark_Complete h ts) c = mark_complete h ts c"
| "run_query (Add_Event now k msg) c = add_event now k msg c"

lemma run_query_wf: "catalog_wf c \<Longrightarrow> catalog_wf (run_query q c)"
  by (cases q) (auto intro: wf_intros insert_torrent_wf split: sum.splits)

lemma run_queries_wf: "catalog_wf c \<Longrightarrow> catalog_wf (fold run_query qs c)"
  by (induction qs arbitrary: c) (auto intro: run_query_wf)

text \<open>
  What the catalog promises: movies by IMDb id, torrents by info hash, and the messages logged,
  newest first.
\<close>

record catalog_spec =
  cs_movies :: "string \<Rightarrow> movie option"
  cs_torrents :: "string \<Rightarrow> torrent_row option"
  cs_log :: "event list"

definition catalog_abs :: "catalog \<Rightarrow> catalog_spec" where
  "catalog_abs c =
     \<lparr>cs_movies = (\<lambda>i. get_movie i c), cs_torrents = (\<lambda>h. torrent_by_hash h c),
      cs_log = rev (map e_event (ct_events c))\<rparr>"

fun spec_query :: "query \<Rightarrow> catalog_spec \<Rightarrow> catalog_spec" where
  "spec_query (Upsert_Movie m json) s =
     s\<lparr>cs_movies := (cs_movies s)(imdb_id m \<mapsto>
        (case cs_movies s (imdb_id m) of None \<Rightarrow> m | Some old \<Rightarrow> m\<lparr>added_at := added_at old\<rparr>))\<rparr>"
| "spec_query (Delete_Movie i) s =
     s\<lparr>cs_movies := (cs_movies s)(i := None),
       cs_torrents := (\<lambda>h. case cs_torrents s h of None \<Rightarrow> None
                           | Some t \<Rightarrow> if t_imdb_id t = i then None else Some t)\<rparr>"
| "spec_query (Touch i ts) s =
     s\<lparr>cs_movies := (cs_movies s)(i := map_option (last_used_at_update (\<lambda>_. ts)) (cs_movies s i))\<rparr>"
| "spec_query (Insert_Torrent t) s =
     (if cs_movies s (t_imdb_id t) = None then s
      else s\<lparr>cs_torrents := (cs_torrents s)(t_info_hash t \<mapsto> t\<lparr>t_completed_at := None\<rparr>)\<rparr>)"
| "spec_query (Set_Limits h d u p) s =
     s\<lparr>cs_torrents := (cs_torrents s)(h := map_option
        (\<lambda>t. t\<lparr>t_download_limit := d, t_upload_limit := u, t_peer_limit := p\<rparr>) (cs_torrents s h))\<rparr>"
| "spec_query (Mark_Complete h ts) s =
     s\<lparr>cs_torrents := (cs_torrents s)(h := map_option (t_completed_at_update (\<lambda>_. Some ts))
        (cs_torrents s h))\<rparr>"
| "spec_query (Add_Event now k msg) s =
     s\<lparr>cs_log := take keep_events (event_of (now, k, msg) # cs_log s)\<rparr>"

lemma narrow_widen [simp]:
  "map_option (\<lambda>v. (ucast v :: 32 word)) (map_option (\<lambda>v. (ucast v :: 64 word)) x) = x"
proof -
  have "(ucast (ucast v :: 64 word) :: 32 word) = v" for v :: "32 word" by transfer simp
  then show ?thesis by (cases x) simp_all
qed

lemma from_record_fields [simp]:
  "t_imdb_id (torrent_from_record r) = r_imdb_id r"
  "torrent_from_record (r\<lparr>r_completed_at := Some ts\<rparr>)
     = (torrent_from_record r)\<lparr>t_completed_at := Some ts\<rparr>"
  by (simp_all add: torrent_from_record_def)

lemma from_record_limits:
  "torrent_from_record (r\<lparr>r_download_limit := map_option (\<lambda>v. ucast v) d,
      r_upload_limit := map_option (\<lambda>v. ucast v) u, r_peer_limit := map_option (\<lambda>v. ucast v) p\<rparr>)
   = (torrent_from_record r)\<lparr>t_download_limit := d, t_upload_limit := u, t_peer_limit := p\<rparr>"
  by (simp add: torrent_from_record_def)

lemma tbl_get_filter:
  "key_distinct key rows \<Longrightarrow> tbl_get key k (filter P rows) =
     (case tbl_get key k rows of None \<Rightarrow> None | Some r \<Rightarrow> if P r then Some r else None)"
  by (induction rows)
    (auto simp: tbl_get_def key_distinct_def find_None_iff find_Some_iff split: option.splits)

lemma get_movie_None: "get_movie i c = None \<longleftrightarrow> i \<notin> movie_key ` set (ct_movies c)"
  by (simp add: get_movie_def tbl_get_None)

lemma abs_upsert: "catalog_abs (upsert_movie m json c) = spec_query (Upsert_Movie m json) (catalog_abs c)"
  by (auto simp: catalog_abs_def get_movie_def upsert_movie_def torrent_by_hash_def tbl_get_upsert
      merge_movie_def fun_eq_iff dest: tbl_get_Some split: option.splits)

lemma abs_delete:
  "catalog_wf c \<Longrightarrow> catalog_abs (snd (delete_movie i c)) = spec_query (Delete_Movie i) (catalog_abs c)"
  by (auto simp: catalog_abs_def get_movie_def delete_movie_def torrent_by_hash_def tbl_get_filter
      catalog_wf_def fun_eq_iff split: option.splits)

lemma abs_touch: "catalog_abs (touch i ts c) = spec_query (Touch i ts) (catalog_abs c)"
  by (auto simp: catalog_abs_def get_movie_def touch_def torrent_by_hash_def tbl_get_upd
      fun_eq_iff option.map_comp o_def)

lemma abs_insert_torrent:
  "catalog_abs (run_query (Insert_Torrent t) c) = spec_query (Insert_Torrent t) (catalog_abs c)"
  by (auto simp: catalog_abs_def insert_torrent_def get_movie_def [of _ "put_torrent _ _"] Let_def
      put_torrent_def torrent_by_hash_def tbl_get_replace torrent_roundtrip get_movie_None
      fun_eq_iff)
    (auto simp: torrent_insert_def get_movie_def)

lemma abs_set_limits:
  "catalog_abs (set_limits h d u p c) = spec_query (Set_Limits h d u p) (catalog_abs c)"
  by (auto simp: catalog_abs_def get_movie_def set_limits_def torrent_by_hash_def tbl_get_upd
      fun_eq_iff option.map_comp o_def from_record_limits)

lemma abs_mark_complete:
  "catalog_abs (mark_complete h ts c) = spec_query (Mark_Complete h ts) (catalog_abs c)"
  by (auto simp: catalog_abs_def get_movie_def mark_complete_def torrent_by_hash_def tbl_get_upd
      fun_eq_iff option.map_comp o_def)

lemma abs_add_event:
  "catalog_wf c \<Longrightarrow>
   catalog_abs (add_event now k msg c) = spec_query (Add_Event now k msg) (catalog_abs c)"
  by (simp add: catalog_abs_def get_movie_def torrent_by_hash_def newest_events_add catalog_wf_def)

lemma query_refines: "catalog_wf c \<Longrightarrow> catalog_abs (run_query q c) = spec_query q (catalog_abs c)"
  by (cases q) (simp_all only: run_query.simps(1-3,5-7) abs_upsert abs_delete abs_touch
      abs_insert_torrent abs_set_limits abs_mark_complete abs_add_event)

lemma queries_refine:
  "catalog_wf c \<Longrightarrow> catalog_abs (fold run_query qs c) = fold spec_query qs (catalog_abs c)"
  by (induction qs arbitrary: c) (simp_all add: run_query_wf query_refines)

section \<open>Properties\<close>

text \<open>From an empty database, after any sequence of writing queries, movie ids and info hashes
  are unique, every torrent belongs to a stored movie, event ids increase and at most 500 events
  are kept.\<close>

theorem reachable_catalog_wf: "catalog_wf (fold run_query qs empty_catalog)"
  by (rule run_queries_wf [OF catalog_wf_empty])


text \<open>Reading \<open>n\<close> events after logging any messages to an empty database returns the newest of
  them, newest first, at most \<open>n\<close> and at most 500.\<close>

theorem recent_events_are_newest:
  assumes "n < 2 ^ 63"
  shows "recent_events n (log_all es empty_catalog)
    = take (min n keep_events) (rev (map event_of es))"
proof -
  have "events_wf empty_catalog" by (simp add: events_wf_def empty_catalog_def)
  moreover have "rev (map e_event (ct_events empty_catalog)) = take keep_events []"
    by (simp add: empty_catalog_def)
  ultimately show ?thesis
    using assms by (simp add: recent_events_rev log_all_wf newest_events_log [where hist = "[]"])
qed

theorem recent_events_are_newest_witness:
  "recent_events 1 (log_all [(5, ''add'', ''a''), (6, ''evict'', ''b'')] empty_catalog)
     = [\<lparr>ev_ts = 6, ev_kind = ''evict'', ev_message = ''b''\<rparr>]"
  using recent_events_are_newest [of 1 "[(5, ''add'', ''a''), (6, ''evict'', ''b'')]"]
  by (simp add: event_of_def keep_events_def)

end
