(* ===== verification/Eviction_Plan.thy ===== *)
theory Eviction_Plan
  imports Faults "HOL-Library.Multiset" "HOL-Library.Product_Lexorder"
    "HOL-Library.List_Lexorder" "HOL-Library.Char_ord"
begin

text \<open>
  The disk-budget rule of \<open>media_catalog/eviction.rs\<close>: which candidates to drop, least
  recently used first, so that an incoming torrent fits. The planner is pure; sizes are
  \<open>u64\<close> words whose sums wrap as in the release build, and every statement about amounts
  says under which bound on the sizes the sums are exact.
\<close>

section \<open>Candidates, plans and refusals\<close>

record candidate =
  c_key :: string
  c_title :: string
  c_size :: u64
  c_last_used_at :: i64
  c_protected :: bool

record eviction_plan =
  p_evict :: "candidate list"
  p_used_before :: u64
  p_used_after :: u64

datatype plan_error =
  NotEnoughSpace (needed: u64) (freeable: u64)
| LargerThanBudget (incoming: u64) (limit: u64)

fun plan_error_text :: "plan_error \<Rightarrow> string" where
  "plan_error_text (NotEnoughSpace n f) =
     ''not enough evictable space: need '' @ show_u64 n @ '' bytes, could free only '' @ show_u64 f"
| "plan_error_text (LargerThanBudget i l) =
     ''incoming torrent ('' @ show_u64 i @ '' bytes) is larger than the whole budget ('' @
     show_u64 l @ '' bytes)''"

section \<open>The planner\<close>

definition lru_key :: "candidate \<Rightarrow> int \<times> string" where
  "lru_key c = (sint (c_last_used_at c), c_key c)"

definition lru_order :: "candidate list \<Rightarrow> candidate list" where
  "lru_order cs = sort_key lru_key (filter (\<lambda>c. \<not> c_protected c) cs)"

fun pick :: "u64 \<Rightarrow> u64 \<Rightarrow> candidate list \<Rightarrow> candidate list \<Rightarrow> candidate list \<times> u64" where
  "pick need freed evict [] = (evict, freed)"
| "pick need freed evict (c # cs) =
     (if need \<le> freed then (evict, freed)
      else pick need (freed + c_size c) (evict @ [c]) cs)"

definition plan :: "candidate list \<Rightarrow> u64 \<Rightarrow> u64 \<Rightarrow> u64 \<Rightarrow> u64 \<Rightarrow> plan_error + eviction_plan" where
  "plan cs used inc lim extra =
     (if lim < inc then Inl (LargerThanBudget inc lim)
      else
        let over_budget = sat_sub (used + inc) lim;
            need = max over_budget extra
        in if need = 0 then Inr \<lparr>p_evict = [], p_used_before = used, p_used_after = used\<rparr>
           else
             let (evict, freed) = pick need 0 [] (lru_order cs)
             in if freed < need then Inl (NotEnoughSpace (need - freed) freed)
                else Inr \<lparr>p_evict = evict, p_used_before = used,
                          p_used_after = sat_sub used freed\<rparr>)"

section \<open>What the planner promises\<close>

text \<open>The same rule on natural numbers: the shortest prefix of the order that frees \<open>n\<close>.\<close>

definition size_of :: "candidate list \<Rightarrow> nat" where
  "size_of cs = (\<Sum>c \<leftarrow> cs. unat (c_size c))"

fun lru_prefix :: "nat \<Rightarrow> candidate list \<Rightarrow> candidate list" where
  "lru_prefix n [] = []"
| "lru_prefix n (c # cs) = (if n = 0 then [] else c # lru_prefix (n - unat (c_size c)) cs)"

definition bytes_needed :: "u64 \<Rightarrow> u64 \<Rightarrow> u64 \<Rightarrow> u64 \<Rightarrow> nat" where
  "bytes_needed used inc lim extra = max (unat used + unat inc - unat lim) (unat extra)"

definition plan_spec :: "candidate list \<Rightarrow> u64 \<Rightarrow> u64 \<Rightarrow> u64 \<Rightarrow> u64
    \<Rightarrow> (nat \<times> nat) option + candidate list" where
  "plan_spec cs used inc lim extra =
     (let n = bytes_needed used inc lim extra; evictable = filter (\<lambda>c. \<not> c_protected c) cs
      in if unat lim < unat inc then Inl None
         else if size_of evictable < n then Inl (Some (n - size_of evictable, size_of evictable))
         else Inr (lru_prefix n (lru_order cs)))"

definition plan_abs :: "plan_error + eviction_plan \<Rightarrow> (nat \<times> nat) option + candidate list" where
  "plan_abs r =
     (case r of
        Inl (NotEnoughSpace n f) \<Rightarrow> Inl (Some (unat n, unat f))
      | Inl (LargerThanBudget i l) \<Rightarrow> Inl None
      | Inr p \<Rightarrow> Inr (p_evict p))"

definition sizes_fit :: "candidate list \<Rightarrow> u64 \<Rightarrow> u64 \<Rightarrow> bool" where
  "sizes_fit cs used inc \<longleftrightarrow> size_of cs < 2 ^ 64 \<and> unat used + unat inc < 2 ^ 64"

lemma size_of_simps [simp]:
  "size_of [] = 0" "size_of (c # cs) = unat (c_size c) + size_of cs"
  "size_of (xs @ ys) = size_of xs + size_of ys"
  by (simp_all add: size_of_def)

lemma size_of_mset: "size_of cs = (\<Sum>c \<in># mset cs. unat (c_size c))"
  by (simp add: size_of_def sum_mset_sum_list flip: mset_map)

lemma size_of_lru_order: "size_of (lru_order cs) = size_of (filter (\<lambda>c. \<not> c_protected c) cs)"
  by (simp add: size_of_mset lru_order_def)

lemma size_of_filter_le: "size_of (filter P cs) \<le> size_of cs"
  by (induction cs) auto

lemma set_lru_order: "set (lru_order cs) = {c \<in> set cs. \<not> c_protected c}"
  by (auto simp: lru_order_def)

lemma sorted_lru_order: "sorted (map lru_key (lru_order cs))"
  by (simp add: lru_order_def)

lemma pick_prefix: "\<exists>k. fst (pick need freed acc cs) = acc @ take k cs"
proof (induction cs arbitrary: freed acc)
  case (Cons c cs)
  show ?case
  proof (cases "need \<le> freed")
    case True
    then show ?thesis by (auto intro: exI [of _ 0])
  next
    case False
    from Cons obtain k where
      "fst (pick need (freed + c_size c) (acc @ [c]) cs) = (acc @ [c]) @ take k cs" by blast
    with False show ?thesis by (auto intro: exI [of _ "Suc k"])
  qed
qed simp

lemma pick_refines:
  assumes "unat freed + size_of cs < 2 ^ 64"
  shows "fst (pick need freed acc cs) = acc @ lru_prefix (unat need - unat freed) cs
    \<and> unat (snd (pick need freed acc cs)) = unat freed + size_of (lru_prefix (unat need - unat freed) cs)"
  using assms
proof (induction cs arbitrary: freed acc)
  case (Cons c cs)
  show ?case
  proof (cases "need \<le> freed")
    case True
    then show ?thesis by (simp add: word_le_nat_alt)
  next
    case False
    have sum: "unat (freed + c_size c) = unat freed + unat (c_size c)"
      using Cons.prems by (intro unat_add_exact) simp
    with Cons.prems have "unat (freed + c_size c) + size_of cs < 2 ^ 64" by simp
    note ih = Cons.IH [OF this, of "acc @ [c]"]
    from False have "\<not> unat need - unat freed = 0" by (simp add: word_le_nat_alt)
    moreover have "unat need - unat (freed + c_size c) = unat need - unat freed - unat (c_size c)"
      by (simp add: sum)
    ultimately show ?thesis using False ih by (simp add: sum)
  qed
qed simp

lemma lru_prefix_take: "\<exists>k. lru_prefix n cs = take k cs \<and> (\<forall>j < k. j < length cs \<longrightarrow> size_of (take j cs) < n)"
proof (induction cs arbitrary: n)
  case (Cons c cs)
  show ?case
  proof (cases "n = 0")
    case True
    then show ?thesis by (auto intro: exI [of _ 0])
  next
    case False
    from Cons obtain k where k: "lru_prefix (n - unat (c_size c)) cs = take k cs"
      and le: "\<forall>j < k. j < length cs \<longrightarrow> size_of (take j cs) < n - unat (c_size c)" by blast
    have "size_of (take j (c # cs)) < n" if "j < Suc k" "j < length (c # cs)" for j
      using that False le by (cases j) (auto simp: less_diff_conv add.commute)
    with False k show ?thesis by (auto intro!: exI [of _ "Suc k"])
  qed
qed simp

lemma size_of_lru_prefix: "min n (size_of cs) \<le> size_of (lru_prefix n cs)"
proof (induction cs arbitrary: n)
  case (Cons c cs)
  have step: "min (n - a) b \<le> x \<Longrightarrow> min n (a + b) \<le> a + x" for a b x :: nat by arith
  show ?case
  proof (cases "n = 0")
    case False
    with step [OF Cons.IH [of "n - unat (c_size c)"]] show ?thesis by simp
  qed simp
qed simp

lemma size_of_lru_prefix_le: "size_of (lru_prefix n cs) \<le> size_of cs"
  by (induction cs arbitrary: n) auto

lemma size_of_lru_prefix_short: "size_of cs < n \<Longrightarrow> size_of (lru_prefix n cs) = size_of cs"
  by (induction cs arbitrary: n) auto

text \<open>Without any bound on the sizes: a plan only ever evicts a prefix of the order.\<close>

lemma plan_evict_prefix:
  assumes "plan cs used inc lim extra = Inr p"
  shows "\<exists>k. p_evict p = take k (lru_order cs)"
proof (cases "max (sat_sub (used + inc) lim) extra = 0")
  case True
  with assms show ?thesis
    by (auto simp: plan_def Let_def split: if_splits intro: exI [of _ 0])
next
  case False
  with assms have "p_evict p = fst (pick (max (sat_sub (used + inc) lim) extra) 0 [] (lru_order cs))"
    by (auto simp: plan_def Let_def split: if_splits prod.splits)
  then show ?thesis
    using pick_prefix [of "max (sat_sub (used + inc) lim) extra" 0 "[]" "lru_order cs"] by auto
qed

lemma plan_evict_unprotected:
  "plan cs used inc lim extra = Inr p \<Longrightarrow> c \<in> set (p_evict p) \<Longrightarrow> c \<in> set cs \<and> \<not> c_protected c"
  using plan_evict_prefix [of cs used inc lim extra p] set_lru_order [of cs]
  by (metis (mono_tags, lifting) in_set_takeD mem_Collect_eq)

lemma plan_refines_spec:
  assumes "sizes_fit cs used inc"
  shows "plan_abs (plan cs used inc lim extra) = plan_spec cs used inc lim extra"
proof -
  define need where "need = max (sat_sub (used + inc) lim) extra"
  let ?n = "bytes_needed used inc lim extra"
  let ?L = "lru_order cs"
  have ui: "unat (used + inc) = unat used + unat inc"
    using assms by (intro unat_add_exact) (simp add: sizes_fit_def)
  have need: "unat need = ?n"
    by (simp add: need_def bytes_needed_def unat_sat_sub ui max_def word_le_nat_alt)
  have L: "size_of ?L < 2 ^ 64"
    using assms size_of_filter_le [of _ cs]
    by (metis order_le_less_trans size_of_lru_order sizes_fit_def)
  then have pk: "fst (pick need 0 [] ?L) = lru_prefix ?n ?L"
    and fr: "unat (snd (pick need 0 [] ?L)) = size_of (lru_prefix ?n ?L)"
    using pick_refines [of 0 ?L need "[]"] by (simp_all add: need)
  have zero: "need = 0 \<longleftrightarrow> ?n = 0"
    using need by (metis unat_0 unat_eq_zero)
  have zp: "lru_prefix 0 xs = []" for xs by (cases xs) auto
  have lt: "snd (pick need 0 [] ?L) < need \<longleftrightarrow> size_of ?L < ?n"
  proof -
    have "snd (pick need 0 [] ?L) < need \<longleftrightarrow> size_of (lru_prefix ?n ?L) < ?n"
      by (simp add: word_less_nat_alt fr need)
    then show ?thesis
      using size_of_lru_prefix [of ?n ?L] size_of_lru_prefix_le [of ?n ?L] by linarith
  qed
  show ?thesis
  proof (cases "lim < inc")
    case True
    then show ?thesis
      by (simp add: plan_def plan_spec_def plan_abs_def Let_def word_less_nat_alt)
  next
    case nlt: False
    then have nlt': "\<not> unat lim < unat inc" by (simp add: word_less_nat_alt)
    show ?thesis
    proof (cases "size_of ?L < ?n")
      case True
      with lt have "unat (need - snd (pick need 0 [] ?L)) = ?n - size_of ?L"
        by (simp add: unat_sub word_le_nat_alt need fr size_of_lru_prefix_short)
      with True nlt nlt' lt zero fr show ?thesis
        by (auto simp: plan_def plan_spec_def plan_abs_def Let_def size_of_lru_order [symmetric]
            need_def [symmetric] size_of_lru_prefix_short split: prod.splits)
    next
      case False
      with nlt nlt' lt zero pk zp show ?thesis
        by (auto simp: plan_def plan_spec_def plan_abs_def Let_def size_of_lru_order [symmetric]
            need_def [symmetric] split: prod.splits)
    qed
  qed
qed

lemma lru_prefix_enough: "n \<le> size_of cs \<Longrightarrow> n \<le> size_of (lru_prefix n cs)"
  using size_of_lru_prefix [of n cs] by simp

lemma lru_prefix_butlast: "lru_prefix n cs \<noteq> [] \<Longrightarrow> size_of (butlast (lru_prefix n cs)) < n"
proof -
  assume ne: "lru_prefix n cs \<noteq> []"
  obtain k where k: "lru_prefix n cs = take k cs"
    and le: "\<forall>j < k. j < length cs \<longrightarrow> size_of (take j cs) < n"
    using lru_prefix_take by blast
  define m where "m = min k (length cs) - 1"
  from ne k have "butlast (lru_prefix n cs) = take m cs" and "m < k" "m < length cs"
    by (auto simp: m_def butlast_take min_def butlast_conv_take)
  with le show ?thesis by simp
qed

text \<open>The planner's answer read off the specification.\<close>

lemma plan_Inr_spec:
  assumes "sizes_fit cs used inc" and "plan cs used inc lim extra = Inr p"
  shows "unat inc \<le> unat lim"
    and "bytes_needed used inc lim extra \<le> size_of (lru_order cs)"
    and "p_evict p = lru_prefix (bytes_needed used inc lim extra) (lru_order cs)"
proof -
  from plan_refines_spec [OF assms(1), of lim extra] assms(2)
  have "plan_spec cs used inc lim extra = Inr (p_evict p)"
    by (simp add: plan_abs_def)
  then show "unat inc \<le> unat lim"
    and "bytes_needed used inc lim extra \<le> size_of (lru_order cs)"
    and "p_evict p = lru_prefix (bytes_needed used inc lim extra) (lru_order cs)"
    by (auto simp: plan_spec_def Let_def size_of_lru_order split: if_splits)
qed

lemma plan_evict_enough:
  "sizes_fit cs used inc \<Longrightarrow> plan cs used inc lim extra = Inr p \<Longrightarrow>
   bytes_needed used inc lim extra \<le> size_of (p_evict p)"
  using plan_Inr_spec [of cs used inc lim extra p] by (simp add: lru_prefix_enough)

lemma plan_evict_mset:
  assumes "plan cs used inc lim extra = Inr p"
  shows "mset (p_evict p) \<subseteq># mset cs"
proof -
  obtain k where k: "p_evict p = take k (lru_order cs)"
    using plan_evict_prefix [OF assms] by blast
  have "mset (take k (lru_order cs)) \<subseteq># mset (lru_order cs)"
    by (metis append_take_drop_id mset_append mset_subset_eq_add_left)
  also have "mset (lru_order cs) \<subseteq># mset cs"
    by (simp add: lru_order_def multiset_filter_subset)
  finally show ?thesis by (simp add: k)
qed

section \<open>Properties of the planner\<close>

text \<open>C3: The planner computes exactly its specification as long as no sum of sizes passes
  64 bits: it refuses a torrent larger than the whole budget; it refuses when all unprotected
  candidates together do not free the bytes needed to respect both the budget and the free-space
  floor; otherwise it evicts the shortest prefix of the unprotected candidates in
  least-recently-used order that frees enough.\<close>

theorem plan_meets_spec:
  "sizes_fit cs used inc \<Longrightarrow>
   plan_abs (plan cs used inc lim extra) = plan_spec cs used inc lim extra"
  by (rule plan_refines_spec)

theorem plan_meets_spec_witness:
  "plan_abs (plan [\<lparr>c_key = ''new'', c_title = ''n'', c_size = 50, c_last_used_at = 30, c_protected = False\<rparr>,
                   \<lparr>c_key = ''old'', c_title = ''o'', c_size = 50, c_last_used_at = 10, c_protected = False\<rparr>]
              100 50 110 0)
   = plan_spec [\<lparr>c_key = ''new'', c_title = ''n'', c_size = 50, c_last_used_at = 30, c_protected = False\<rparr>,
                   \<lparr>c_key = ''old'', c_title = ''o'', c_size = 50, c_last_used_at = 10, c_protected = False\<rparr>]
              100 50 110 0"
  by (rule plan_meets_spec) (simp add: sizes_fit_def)

text \<open>Whatever the sizes are, overflow or not, a plan never contains a protected candidate
  or one that was not offered, and it respects the order: nothing left behind was used less
  recently than something evicted.\<close>

theorem plan_spares_protected:
  assumes "plan cs used inc lim extra = Inr p"
  shows "set (p_evict p) \<subseteq> {c \<in> set cs. \<not> c_protected c}
    \<and> mset (p_evict p) \<subseteq># mset cs
    \<and> (\<forall>c \<in> set (p_evict p). \<forall>d \<in># mset (lru_order cs) - mset (p_evict p). lru_key c \<le> lru_key d)"
proof -
  obtain k where k: "p_evict p = take k (lru_order cs)"
    using plan_evict_prefix [OF assms] by blast
  have "mset (lru_order cs) = mset (take k (lru_order cs)) + mset (drop k (lru_order cs))"
    by (metis append_take_drop_id mset_append)
  then have rest: "mset (lru_order cs) - mset (p_evict p) = mset (drop k (lru_order cs))"
    by (simp add: k)
  have "sorted (map lru_key (take k (lru_order cs)) @ map lru_key (drop k (lru_order cs)))"
    using sorted_lru_order [of cs] by (simp flip: map_append)
  then have "\<forall>c \<in> set (p_evict p). \<forall>d \<in> set (drop k (lru_order cs)). lru_key c \<le> lru_key d"
    by (auto simp: sorted_append k)
  moreover have "mset (p_evict p) \<subseteq># mset cs"
    by (rule plan_evict_mset [OF assms])
  moreover have "set (p_evict p) \<subseteq> {c \<in> set cs. \<not> c_protected c}"
    using plan_evict_unprotected [OF assms] by blast
  ultimately show ?thesis by (simp add: rest)
qed

theorem plan_spares_protected_witness:
  "\<exists>p. plan [\<lparr>c_key = ''a'', c_title = ''a'', c_size = 50, c_last_used_at = 1, c_protected = True\<rparr>,
             \<lparr>c_key = ''b'', c_title = ''b'', c_size = 50, c_last_used_at = 2, c_protected = False\<rparr>]
        100 50 120 0 = Inr p
     \<and> set (p_evict p) \<subseteq> {\<lparr>c_key = ''b'', c_title = ''b'', c_size = 50, c_last_used_at = 2, c_protected = False\<rparr>}"
proof -
  let ?b = "\<lparr>c_key = ''b'', c_title = ''b'', c_size = 50, c_last_used_at = 2, c_protected = False\<rparr>"
  let ?cs = "[\<lparr>c_key = ''a'', c_title = ''a'', c_size = 50, c_last_used_at = 1, c_protected = True\<rparr>, ?b]"
  have h: "plan ?cs 100 50 120 0
      = Inr \<lparr>p_evict = [?b], p_used_before = 100, p_used_after = 50\<rparr>"
    by (simp add: plan_def lru_order_def lru_key_def sat_sub_def)
  from plan_spares_protected [OF h] h show ?thesis by auto
qed

text \<open>A plan frees what was asked and no candidate more: after it the budget holds with the
  incoming torrent, the extra bytes for the free-space floor are freed, and without its last
  candidate the plan would free too little.\<close>

theorem plan_is_sufficient_and_minimal:
  assumes "sizes_fit cs used inc" and "plan cs used inc lim extra = Inr p"
  shows "unat used + unat inc - size_of (p_evict p) \<le> unat lim
    \<and> unat extra \<le> size_of (p_evict p)
    \<and> (p_evict p \<noteq> [] \<longrightarrow> size_of (butlast (p_evict p)) < bytes_needed used inc lim extra)"
proof -
  note spec = plan_Inr_spec [OF assms]
  with plan_evict_enough [OF assms] show ?thesis
    using spec(3) lru_prefix_butlast [of "bytes_needed used inc lim extra" "lru_order cs"]
    by (auto simp: bytes_needed_def)
qed

theorem plan_is_sufficient_and_minimal_witness:
  "\<exists>p. plan [\<lparr>c_key = ''a'', c_title = ''a'', c_size = 50, c_last_used_at = 1, c_protected = False\<rparr>,
             \<lparr>c_key = ''b'', c_title = ''b'', c_size = 50, c_last_used_at = 2, c_protected = False\<rparr>]
        100 0 1000 30 = Inr p \<and> 30 \<le> size_of (p_evict p)"
proof -
  let ?a = "\<lparr>c_key = ''a'', c_title = ''a'', c_size = 50, c_last_used_at = 1, c_protected = False\<rparr>"
  let ?b = "\<lparr>c_key = ''b'', c_title = ''b'', c_size = 50, c_last_used_at = 2, c_protected = False\<rparr>"
  have h: "plan [?a, ?b] 100 0 1000 30 = Inr \<lparr>p_evict = [?a], p_used_before = 100, p_used_after = 50\<rparr>"
    by (simp add: plan_def lru_order_def lru_key_def sat_sub_def)
  have f: "sizes_fit [?a, ?b] 100 0" by (simp add: sizes_fit_def)
  from plan_is_sufficient_and_minimal [OF f h] h show ?thesis by auto
qed

text \<open>A refusal for lack of space names, as the bytes it could free, all the unprotected
  candidates hold, and as the bytes needed the shortfall that would still be left: the two add up
  to what the plan needed. The message prints the shortfall after the word "need".\<close>

theorem refusal_reports_shortfall:
  assumes "sizes_fit cs used inc" and "plan cs used inc lim extra = Inl (NotEnoughSpace n f)"
  shows "unat f = size_of (filter (\<lambda>c. \<not> c_protected c) cs)
    \<and> unat n + unat f = bytes_needed used inc lim extra \<and> 0 < unat n"
proof -
  from plan_refines_spec [OF assms(1), of lim extra] assms(2)
  have "plan_spec cs used inc lim extra = Inl (Some (unat n, unat f))"
    by (simp add: plan_abs_def)
  then show ?thesis by (auto simp: plan_spec_def Let_def split: if_splits)
qed

theorem refusal_reports_shortfall_witness:
  "plan [\<lparr>c_key = ''b'', c_title = ''b'', c_size = 60, c_last_used_at = 2, c_protected = False\<rparr>]
     100 50 80 0 = Inl (NotEnoughSpace 10 60) \<and> unat (10 :: u64) + unat (60 :: u64) = bytes_needed 100 50 80 0"
proof -
  let ?b = "\<lparr>c_key = ''b'', c_title = ''b'', c_size = 60, c_last_used_at = 2, c_protected = False\<rparr>"
  have h: "plan [?b] 100 50 80 0 = Inl (NotEnoughSpace 10 60)"
    by (simp add: plan_def lru_order_def lru_key_def sat_sub_def)
  have f: "sizes_fit [?b] 100 50" by (simp add: sizes_fit_def)
  from refusal_reports_shortfall [OF f h] h show ?thesis by simp
qed

text \<open>What the release build does when a sum passes 64 bits: a torrent of \<open>2 ^ 63\<close> bytes is
  accepted with nothing evicted although usage doubles past a budget of \<open>2 ^ 64 - 1\<close>.\<close>

lemma plan_wraps_at_64_bits:
  "plan [] (2 ^ 63) (2 ^ 63) (2 ^ 64 - 1) 0
     = Inr \<lparr>p_evict = [], p_used_before = 2 ^ 63, p_used_after = 2 ^ 63\<rparr>
   \<and> unat (2 ^ 64 - 1 :: u64) < unat (2 ^ 63 :: u64) + unat (2 ^ 63 :: u64)"
  by (simp add: plan_def sat_sub_def)

end
