(* ===== verification/Media_Catalog.thy ===== *)
theory Media_Catalog
  imports Catalog_Store Eviction_Plan
begin

text \<open>
  \<open>media_catalog.rs\<close>: the library built on the store. It turns the stored torrents into
  eviction candidates, adds the free-space floor to the planner's demand, and offers the
  read model (the completed media) every playback protocol is built on. The clock is an argument;
  \<open>utf8_percent_encode\<close> of the \<open>percent_encoding\<close> crate is a parameter of \<open>video_path\<close>.
\<close>

section \<open>The budget\<close>

record media_catalog =
  mc_store :: catalog
  mc_budget :: u64
  mc_min_free :: u64
  mc_stream_grace :: u64

text \<open>The subtraction wraps: a use time near the least \<open>i64\<close> lands in the future.\<close>

definition is_protected :: "i64 \<Rightarrow> media_catalog \<Rightarrow> i64 \<Rightarrow> bool" where
  "is_protected now mc used_at = i64_lt (now - used_at) (mc_stream_grace mc)"

definition candidate_of :: "i64 \<Rightarrow> media_catalog \<Rightarrow> torrent_row \<Rightarrow> candidate" where
  "candidate_of now mc t =
     (let m = find (\<lambda>m. imdb_id m = t_imdb_id t) (list_movies (mc_store mc));
          used_at = (case m of Some m \<Rightarrow> last_used_at m | None \<Rightarrow> t_added_at t)
      in \<lparr>c_key = t_info_hash t,
          c_title = (case m of Some m \<Rightarrow> title m | None \<Rightarrow> t_imdb_id t),
          c_size = t_size_bytes t,
          c_last_used_at = used_at,
          c_protected = is_protected now mc used_at\<rparr>)"

definition candidates :: "i64 \<Rightarrow> media_catalog \<Rightarrow> candidate list \<times> u64" where
  "candidates now mc =
     (let ts = list_torrents (mc_store mc)
      in (map (candidate_of now mc) ts, fold (\<lambda>t used. used + t_size_bytes t) ts 0))"

definition media_plan ::
  "media_catalog \<Rightarrow> candidate list \<Rightarrow> u64 \<Rightarrow> u64 \<Rightarrow> u64 \<Rightarrow> plan_error + eviction_plan" where
  "media_plan mc cs used disk_free inc =
     plan cs used inc (mc_budget mc) (sat_sub (inc + mc_min_free mc) disk_free)"

section \<open>The read model\<close>

record media_entry =
  me_id :: string
  me_title :: string
  me_year :: "32 word option"
  me_poster :: "string option"
  me_backdrop :: "string option"
  me_genres :: "string list"
  me_rating :: "rat option"
  me_overview :: "string option"
  me_runtime_min :: "i64 option"
  me_file_name :: string
  me_file_size :: u64

definition media_entry_new :: "movie \<Rightarrow> torrent_row \<Rightarrow> media_entry" where
  "media_entry_new m t =
     \<lparr>me_id = imdb_id m, me_title = title m, me_year = year m, me_poster = poster_url m,
      me_backdrop = backdrop_url m, me_genres = genres m, me_rating = rating m,
      me_overview = overview m, me_runtime_min = runtime_min m,
      me_file_name = t_video_file_name t, me_file_size = t_size_bytes t\<rparr>"

definition display_title :: "media_entry \<Rightarrow> string" where
  "display_title e =
     (case me_year e of Some y \<Rightarrow> me_title e @ '' ('' @ show_int (sint y) @ '')'' | None \<Rightarrow> me_title e)"

definition segment_escaped :: "char \<Rightarrow> bool" where
  "segment_escaped c \<longleftrightarrow> \<not> is_ascii_alphanumeric c \<and> c \<notin> set ''-._*''"

definition video_path ::
  "((char \<Rightarrow> bool) \<Rightarrow> string \<Rightarrow> string) \<Rightarrow> string \<Rightarrow> media_entry \<Rightarrow> string" where
  "video_path utf8_percent_encode prefix e =
     prefix @ ''/'' @ me_id e @ ''/'' @ utf8_percent_encode segment_escaped (me_file_name e)"

definition entry_of :: "movie list \<Rightarrow> torrent_row \<Rightarrow> media_entry option" where
  "entry_of ms t =
     map_option (\<lambda>m. media_entry_new m t) (find (\<lambda>m. imdb_id m = t_imdb_id t) ms)"

definition library_entries :: "media_catalog \<Rightarrow> media_entry list" where
  "library_entries mc =
     (let ms = list_movies (mc_store mc);
          done = filter (\<lambda>t. t_completed_at t \<noteq> None) (list_torrents (mc_store mc))
      in sort_key me_title (List.map_filter (entry_of ms) done))"

definition library_entry :: "media_catalog \<Rightarrow> string \<Rightarrow> media_entry option" where
  "library_entry mc i =
     (case torrent_for_movie i (mc_store mc) of
        None \<Rightarrow> None
      | Some t \<Rightarrow> (case t_completed_at t of
          None \<Rightarrow> None
        | Some _ \<Rightarrow> (case get_movie i (mc_store mc) of
            None \<Rightarrow> None
          | Some m \<Rightarrow> Some (media_entry_new m t))))"

section \<open>Protection\<close>

lemma is_protected_exact:
  assumes "- (2 ^ 63) \<le> sint now - sint t" and "sint now - sint t < 2 ^ 63"
  shows "is_protected now mc t \<longleftrightarrow> sint now - sint t < sint (mc_stream_grace mc)"
  using assms by (simp add: is_protected_def i64_lt_def sint_diff_exact)

section \<open>Movies by id\<close>

lemma tbl_get_perm:
  assumes "key_distinct key xs" and "mset xs = mset ys"
  shows "tbl_get key k xs = tbl_get key k ys"
proof -
  have dy: "key_distinct key ys"
    using assms unfolding key_distinct_def by (metis mset_eq_imp_distinct_iff mset_map)
  show ?thesis
  proof (cases "tbl_get key k xs")
    case None
    then have "tbl_get key k ys = None"
      using mset_eq_setD [OF assms(2)] by (simp add: tbl_get_None)
    with None show ?thesis by simp
  next
    case (Some r)
    then have "r \<in> set ys" and "key r = k"
      using tbl_get_Some [OF Some] mset_eq_setD [OF assms(2)] by auto
    with dy Some show ?thesis using tbl_get_in [of key ys r] by simp
  qed
qed

lemma find_listed_movie:
  assumes "catalog_wf c"
  shows "find (\<lambda>m. imdb_id m = i) (list_movies c) = get_movie i c"
proof -
  have "key_distinct imdb_id (map row_movie (ct_movies c))"
    using assms by (simp add: catalog_wf_def key_distinct_def o_def)
  then have "tbl_get imdb_id i (map row_movie (ct_movies c)) = tbl_get imdb_id i (list_movies c)"
    by (rule tbl_get_perm) (simp add: list_movies_def)
  moreover have "tbl_get imdb_id i (map row_movie rs) = map_option row_movie (tbl_get movie_key i rs)"
    for rs by (induction rs) (auto simp: tbl_get_def)
  ultimately show ?thesis by (simp add: tbl_get_def get_movie_def)
qed

lemma stored_torrent_has_movie:
  assumes "catalog_wf c" and "t \<in> set (list_torrents c)"
  shows "\<exists>m. get_movie (t_imdb_id t) c = Some m"
  using assms by (fastforce simp: catalog_wf_def list_torrents_def get_movie_None
      simp flip: not_None_eq)

lemma get_movie_id: "get_movie i c = Some m \<Longrightarrow> imdb_id m = i"
  by (auto simp: get_movie_def dest: tbl_get_Some)

section \<open>Candidates\<close>

lemma fold_used: "fold (\<lambda>t used. used + t_size_bytes t) ts u = u + (\<Sum>t \<leftarrow> ts. t_size_bytes t)"
  by (induction ts arbitrary: u) (simp_all add: add.assoc)

lemma sum_words_exact:
  fixes f :: "'a \<Rightarrow> u64"
  shows "(\<Sum>x \<leftarrow> xs. unat (f x)) < 2 ^ 64 \<Longrightarrow> unat (\<Sum>x \<leftarrow> xs. f x) = (\<Sum>x \<leftarrow> xs. unat (f x))"
  by (induction xs) (simp_all add: unat_add_exact)

lemma size_candidate_of [simp]: "c_size (candidate_of now mc t) = t_size_bytes t"
  by (simp add: candidate_of_def Let_def)

lemma key_candidate_of [simp]: "c_key (candidate_of now mc t) = t_info_hash t"
  by (simp add: candidate_of_def Let_def)

definition torrent_bytes :: "catalog \<Rightarrow> nat" where
  "torrent_bytes c = (\<Sum>t \<leftarrow> list_torrents c. unat (t_size_bytes t))"

lemma size_of_candidates: "size_of (fst (candidates now mc)) = torrent_bytes (mc_store mc)"
  by (simp add: candidates_def Let_def size_of_def torrent_bytes_def o_def)

lemma used_exact:
  "torrent_bytes (mc_store mc) < 2 ^ 64 \<Longrightarrow>
   unat (snd (candidates now mc)) = torrent_bytes (mc_store mc)"
  by (simp add: candidates_def Let_def fold_used torrent_bytes_def sum_words_exact)

lemma candidate_protected:
  assumes "catalog_wf (mc_store mc)" and "t \<in> set (list_torrents (mc_store mc))"
    and "get_movie (t_imdb_id t) (mc_store mc) = Some m"
  shows "c_protected (candidate_of now mc t) = is_protected now mc (last_used_at m)"
  using assms by (simp add: candidate_of_def Let_def find_listed_movie)

section \<open>The library interface\<close>

text \<open>
  What a playback protocol may rely on: the listing is sorted by title, and an entry found by
  id has that id and is listed.
\<close>

locale media_library =
  fixes inv :: "'s \<Rightarrow> bool"
    and entries :: "'s \<Rightarrow> media_entry list"
    and entry :: "'s \<Rightarrow> string \<Rightarrow> media_entry option"
  assumes entries_sorted: "inv s \<Longrightarrow> sorted (map me_title (entries s))"
    and entry_listed: "inv s \<Longrightarrow> entry s i = Some e \<Longrightarrow> e \<in> set (entries s)"
    and entry_id: "inv s \<Longrightarrow> entry s i = Some e \<Longrightarrow> me_id e = i"
begin

lemma entry_of_listed_id: "inv s \<Longrightarrow> entry s i \<noteq> None \<Longrightarrow> i \<in> me_id ` set (entries s)"
  using entry_listed entry_id by force

lemma unlisted_entry: "inv s \<Longrightarrow> i \<notin> me_id ` set (entries s) \<Longrightarrow> entry s i = None"
  using entry_of_listed_id by blast

end

lemma me_id_new [simp]: "me_id (media_entry_new m t) = imdb_id m"
  by (simp add: media_entry_new_def)

lemma entry_of_stored:
  "catalog_wf c \<Longrightarrow> entry_of (list_movies c) t = map_option (\<lambda>m. media_entry_new m t) (get_movie (t_imdb_id t) c)"
  by (simp add: entry_of_def find_listed_movie)

lemma set_library_entries:
  assumes "catalog_wf (mc_store mc)"
  shows "set (library_entries mc) =
    {media_entry_new m t | m t. t \<in> set (list_torrents (mc_store mc)) \<and> t_completed_at t \<noteq> None
       \<and> get_movie (t_imdb_id t) (mc_store mc) = Some m}"
proof -
  have "set (library_entries mc) = {e. \<exists>t \<in> set (list_torrents (mc_store mc)).
      t_completed_at t \<noteq> None \<and> entry_of (list_movies (mc_store mc)) t = Some e}"
    by (force simp: library_entries_def Let_def map_filter_def)
  then show ?thesis by (auto simp: entry_of_stored [OF assms])
qed

lemma torrent_for_movie_Some:
  assumes "torrent_for_movie i c = Some t"
  shows "t \<in> set (list_torrents c)" and "t_imdb_id t = i"
proof -
  obtain r rs where eq: "sort_key (\<lambda>r. - sint (r_added_at r)) (filter (\<lambda>r. r_imdb_id r = i) (ct_torrents c)) = r # rs"
    and t: "t = torrent_from_record r"
    using assms by (auto simp: torrent_for_movie_def split: list.splits)
  have "r \<in> set (r # rs)" by simp
  then have "r \<in> set (ct_torrents c)" and "r_imdb_id r = i"
    by (simp_all flip: eq)
  with t show "t \<in> set (list_torrents c)" and "t_imdb_id t = i" by (auto simp: list_torrents_def)
qed

lemma torrent_for_movie_newest:
  assumes "torrent_for_movie i c = Some t" and "u \<in> set (list_torrents c)" and "t_imdb_id u = i"
  shows "sint (t_added_at u) \<le> sint (t_added_at t)"
proof -
  let ?s = "sort_key (\<lambda>r. - sint (r_added_at r)) (filter (\<lambda>r. r_imdb_id r = i) (ct_torrents c))"
  obtain r rs where eq: "?s = r # rs" and t: "t = torrent_from_record r"
    using assms by (auto simp: torrent_for_movie_def split: list.splits)
  obtain v where v: "v \<in> set (ct_torrents c)" "u = torrent_from_record v"
    using assms(2) by (auto simp: list_torrents_def)
  have "v \<in> set ?s" using v assms(3) by simp
  then have "v \<in> set (r # rs)" by (simp only: eq)
  moreover have "sorted (map (\<lambda>r. - sint (r_added_at r)) ?s)" by simp
  then have "sorted (map (\<lambda>r. - sint (r_added_at r)) (r # rs))" by (simp only: eq)
  ultimately have "sint (r_added_at v) \<le> sint (r_added_at r)" by auto
  with t v show ?thesis by (simp add: torrent_from_record_def)
qed

lemma torrent_for_movie_None:
  "torrent_for_movie i c = None \<longleftrightarrow> (\<forall>t \<in> set (list_torrents c). t_imdb_id t \<noteq> i)"
proof -
  let ?f = "\<lambda>r. - sint (r_added_at r)" and ?xs = "filter (\<lambda>r. r_imdb_id r = i) (ct_torrents c)"
  have "torrent_for_movie i c = None \<longleftrightarrow> sort_key ?f ?xs = []"
    by (simp add: torrent_for_movie_def split: list.splits)
  also have "\<dots> \<longleftrightarrow> ?xs = []" by (metis length_0_conv length_sort)
  finally show ?thesis by (simp add: list_torrents_def filter_empty_conv)
qed

lemma library_entry_Some:
  "library_entry mc i = Some e \<longleftrightarrow>
    (\<exists>t m. torrent_for_movie i (mc_store mc) = Some t \<and> t_completed_at t \<noteq> None
       \<and> get_movie i (mc_store mc) = Some m \<and> e = media_entry_new m t)"
  by (auto simp: library_entry_def split: option.splits)

interpretation lib: media_library "\<lambda>mc. catalog_wf (mc_store mc)" library_entries library_entry
proof unfold_locales
  fix mc :: media_catalog and i e assume wf: "catalog_wf (mc_store mc)"
  show "sorted (map me_title (library_entries mc))"
    by (simp add: library_entries_def Let_def)
  assume "library_entry mc i = Some e"
  then obtain t m where *: "torrent_for_movie i (mc_store mc) = Some t" "t_completed_at t \<noteq> None"
      "get_movie i (mc_store mc) = Some m" "e = media_entry_new m t"
    by (auto simp: library_entry_Some)
  with wf show "e \<in> set (library_entries mc)"
    by (simp add: set_library_entries) (metis torrent_for_movie_Some)
  from * show "me_id e = i" by (simp add: get_movie_id)
qed

section \<open>Example data\<close>

text \<open>A library with a finished and an unfinished movie, for the witnesses here and later.\<close>

definition example_movie :: "string \<Rightarrow> i64 \<Rightarrow> movie" where
  "example_movie i ts =
     \<lparr>imdb_id = i, tmdb_id = None, title = i, year = None, overview = None, poster_url = None,
      backdrop_url = None, runtime_min = None, genres = [], rating = None, added_at = ts,
      last_used_at = ts\<rparr>"

definition example_torrent :: "string \<Rightarrow> string \<Rightarrow> u64 \<Rightarrow> i64 \<Rightarrow> torrent_row" where
  "example_torrent h i len ts =
     \<lparr>t_info_hash = h, t_imdb_id = i, t_magnet = ''magnet:?xt='' @ h, t_size_bytes = len,
      t_video_file_idx = 0, t_video_file_name = i @ ''.mp4'', t_added_at = ts, t_private = False,
      t_download_limit = None, t_upload_limit = None, t_peer_limit = None, t_completed_at = None\<rparr>"

definition example_queries :: "query list" where
  "example_queries =
     [Upsert_Movie (example_movie ''tt1'' 100) None, Insert_Torrent (example_torrent ''aa'' ''tt1'' 60 100),
      Upsert_Movie (example_movie ''tt2'' 200) None, Insert_Torrent (example_torrent ''bb'' ''tt2'' 30 200),
      Mark_Complete ''aa'' 150]"

definition example_library :: media_catalog where
  "example_library =
     \<lparr>mc_store = fold run_query example_queries empty_catalog,
      mc_budget = 100, mc_min_free = 5, mc_stream_grace = 50\<rparr>"

lemma example_library_wf: "catalog_wf (mc_store example_library)"
  by (simp add: example_library_def run_queries_wf catalog_wf_empty)

section \<open>Properties\<close>

text \<open>The wrap of the subtraction: with the least \<open>i64\<close> as use time a movie is always protected.\<close>

lemma least_use_time_is_protected:
  "is_protected 1700000000 \<lparr>mc_store = empty_catalog, mc_budget = 10, mc_min_free = 0,
     mc_stream_grace = 600\<rparr> (of_int (- (2 ^ 63)))"
  by (simp add: is_protected_def i64_lt_def)

text \<open>For a clock and a use time at or after the epoch, a movie is protected exactly when it
  was used less than the stream-grace window ago.\<close>

theorem protection_window:
  assumes "0 \<le> sint now" and "0 \<le> sint t"
  shows "is_protected now mc t \<longleftrightarrow> sint now - sint t < sint (mc_stream_grace mc)"
  using assms sint_lt [of now] sint_lt [of t] by (intro is_protected_exact) simp_all

theorem protection_window_witness:
  "is_protected 1000 \<lparr>mc_store = empty_catalog, mc_budget = 10, mc_min_free = 0, mc_stream_grace = 600\<rparr> 500"
  by (subst protection_window) simp_all

text \<open>C7: The library lists, sorted by title, exactly the torrents that have finished, each with
  the metadata of its movie; looking a movie up by id yields an entry exactly when its newest
  torrent has finished, and that entry is one of the listed ones.\<close>

theorem library_shows_finished_media:
  assumes "catalog_wf (mc_store mc)"
  shows "sorted (map me_title (library_entries mc))
    \<and> set (library_entries mc) =
        {media_entry_new m t | m t. t \<in> set (list_torrents (mc_store mc)) \<and> t_completed_at t \<noteq> None
           \<and> get_movie (t_imdb_id t) (mc_store mc) = Some m}
    \<and> (\<forall>i e. library_entry mc i = Some e \<longrightarrow> e \<in> set (library_entries mc) \<and> me_id e = i)
    \<and> (library_entry mc i \<noteq> None \<longleftrightarrow>
        (\<exists>t. torrent_for_movie i (mc_store mc) = Some t \<and> t_completed_at t \<noteq> None))"
proof (intro conjI allI impI)
  show "sorted (map me_title (library_entries mc))" using assms by (rule lib.entries_sorted)
  show "set (library_entries mc) =
      {media_entry_new m t | m t. t \<in> set (list_torrents (mc_store mc)) \<and> t_completed_at t \<noteq> None
         \<and> get_movie (t_imdb_id t) (mc_store mc) = Some m}"
    using assms by (rule set_library_entries)
  show "e \<in> set (library_entries mc)" and "me_id e = i" if "library_entry mc i = Some e" for i e
    using assms that lib.entry_listed lib.entry_id by blast+
  have "\<exists>m. get_movie i (mc_store mc) = Some m" if "torrent_for_movie i (mc_store mc) = Some t" for t
    using stored_torrent_has_movie [OF assms] torrent_for_movie_Some [OF that] by metis
  then show "library_entry mc i \<noteq> None \<longleftrightarrow>
      (\<exists>t. torrent_for_movie i (mc_store mc) = Some t \<and> t_completed_at t \<noteq> None)"
    by (fastforce simp: library_entry_Some)
qed

theorem library_shows_finished_media_witness:
  "map me_title (library_entries example_library) = [''tt1'']
   \<and> sorted (map me_title (library_entries example_library))
   \<and> library_entry example_library ''tt2'' = None"
proof -
  have "map me_title (library_entries example_library) = [''tt1'']"
    and "map_option t_completed_at (torrent_for_movie ''tt2'' (mc_store example_library)) = Some None"
    by code_simp+
  with library_shows_finished_media [OF example_library_wf, of "''tt2''"] show ?thesis
    by force
qed

end
