(* ===== verification/Trackers.thy ===== *)
theory Trackers
  imports Net_Addr Faults
begin

text \<open>
  The public tracker feed, \<open>trackers.rs\<close>: the configured sources, the canonical form of a tracker
  URL, the filter that merges the fetched lists, and the refresh that keeps the merged list.
  The URL parser of the \<open>url\<close> crate is the parameter \<open>url_parse\<close>; the HTTP client is the parameter
  \<open>http_get\<close>, which gives the status of an answer, whether it is a success, and its body. The cache
  file holds the last state written; writing it may fail silently.
\<close>

section \<open>Configuration\<close>

record source =
  src_name :: string
  src_url :: string
  src_enabled :: bool
  src_schemes :: "string list option"
  src_take :: "nat option"

record static_lists =
  sl_add :: "string list"
  sl_block :: "string list"

record trackers_config =
  tc_enabled :: bool
  tc_refresh :: duration
  tc_fetch_timeout :: duration
  tc_stale_after :: duration
  tc_schemes :: "string list"
  tc_max :: nat
  tc_reject_ip_hosts :: bool
  tc_reannounce_active :: bool
  tc_sources :: "source list"
  tc_static :: static_lists

definition default_sources :: "source list" where
  "default_sources =
     (let s = (\<lambda>name url take. \<lparr>src_name = name, src_url = url, src_enabled = True,
                 src_schemes = None, src_take = take\<rparr>)
      in [s ''newtrackon-stable'' ''https://newtrackon.com/api/stable'' None,
          s ''ngosang-best''
            ''https://raw.githubusercontent.com/ngosang/trackerslist/master/trackers_best.txt'' None,
          s ''xiu2-best'' ''https://cf.trackerslist.com/best.txt'' None])"

definition known_sources :: "(string \<times> string) list" where
  "known_sources =
     (let ngosang = ''https://raw.githubusercontent.com/ngosang/trackerslist/master/trackers_''
      in [(''newtrackon-stable'', ''https://newtrackon.com/api/stable''),
          (''newtrackon-live'', ''https://newtrackon.com/api/live''),
          (''newtrackon-udp'', ''https://newtrackon.com/api/udp''),
          (''newtrackon-https'', ''https://newtrackon.com/api/https''),
          (''ngosang-best'', ngosang @ ''best.txt''),
          (''ngosang-all'', ngosang @ ''all.txt''),
          (''ngosang-all-udp'', ngosang @ ''all_udp.txt''),
          (''ngosang-all-https'', ngosang @ ''all_https.txt''),
          (''ngosang-all-ip'', ngosang @ ''all_ip.txt''),
          (''xiu2-best'', ''https://cf.trackerslist.com/best.txt''),
          (''xiu2-all'', ''https://cf.trackerslist.com/all.txt''),
          (''xiu2-http'', ''https://cf.trackerslist.com/http.txt'')])"

definition default_trackers_config :: trackers_config where
  "default_trackers_config =
     \<lparr>tc_enabled = True, tc_refresh = from_secs (6 * 3600), tc_fetch_timeout = from_secs 20,
      tc_stale_after = from_secs (7 * 86400),
      tc_schemes = [''https'', ''udp''], tc_max = 60, tc_reject_ip_hosts = False,
      tc_reannounce_active = True, tc_sources = default_sources,
      tc_static = \<lparr>sl_add = [], sl_block = []\<rparr>\<rparr>"

section \<open>State\<close>

record source_status =
  ss_name :: string
  ss_url :: string
  ss_enabled :: bool
  ss_last_fetch_at :: "i64 option"
  ss_last_ok_at :: "i64 option"
  ss_last_error :: "string option"
  ss_fetched :: nat
  ss_accepted :: nat

record tracker_state =
  ts_trackers :: "string list"
  ts_updated_at :: "i64 option"
  ts_sources :: "source_status list"
  ts_rejected :: nat
  ts_deduplicated :: nat

definition default_tracker_state :: tracker_state where
  "default_tracker_state =
     \<lparr>ts_trackers = [], ts_updated_at = None, ts_sources = [], ts_rejected = 0, ts_deduplicated = 0\<rparr>"

record tracker_feed =
  tf_config :: trackers_config
  tf_state :: tracker_state
  tf_cache :: "tracker_state option"

definition tracker_feed_new :: "trackers_config \<Rightarrow> tracker_state option \<Rightarrow> tracker_feed" where
  "tracker_feed_new cfg cache =
     \<lparr>tf_config = cfg, tf_state = (case cache of Some st \<Rightarrow> st | None \<Rightarrow> default_tracker_state),
      tf_cache = cache\<rparr>"

section \<open>The canonical form\<close>

record url =
  u_scheme :: string
  u_host :: "string option"
  u_port :: "nat option"
  u_path :: string
  u_query :: "string option"

type_synonym url_parser = "string \<Rightarrow> url option"

definition default_port :: "string \<Rightarrow> nat option" where
  "default_port scheme =
     (if scheme = ''http'' \<or> scheme = ''ws'' then Some 80
      else if scheme = ''https'' \<or> scheme = ''wss'' then Some 443 else None)"

definition canonical :: "url \<Rightarrow> string option" where
  "canonical u =
     (case u_host u of
        None \<Rightarrow> None
      | Some h \<Rightarrow>
          (let scheme = to_ascii_lowercase (u_scheme u);
               host = to_ascii_lowercase h;
               port = (case u_port u of
                         Some p \<Rightarrow> if Some p = default_port scheme then None else Some p
                       | None \<Rightarrow> None);
               path0 = trim_end_char CHR ''/'' (u_path u);
               path = (if path0 = [] \<and> scheme \<noteq> ''udp'' then ''/announce'' else path0)
           in Some (scheme @ ''://'' @ host @
                (case port of Some p \<Rightarrow> '':'' @ show_nat p | None \<Rightarrow> []) @ path @
                (case u_query u of Some q \<Rightarrow> ''?'' @ q | None \<Rightarrow> []))))"

definition normalize :: "url_parser \<Rightarrow> string \<Rightarrow> string option" where
  "normalize url_parse raw =
     (let r = trim raw
      in if r = [] \<or> starts_with r ''#'' then None
         else case url_parse r of None \<Rightarrow> None | Some u \<Rightarrow> canonical u)"

definition host_of :: "url_parser \<Rightarrow> string \<Rightarrow> string option" where
  "host_of url_parse tracker =
     (case url_parse tracker of None \<Rightarrow> None | Some u \<Rightarrow> map_option to_ascii_lowercase (u_host u))"

text \<open>\<open>split("://").next()\<close>: the text in front of the first separator, or all of it.\<close>

fun before_sep :: "string \<Rightarrow> string \<Rightarrow> string" where
  "before_sep sep [] = []"
| "before_sep sep (c # s) = (if starts_with (c # s) sep then [] else c # before_sep sep s)"

definition scheme_of :: "string \<Rightarrow> string" where
  "scheme_of tracker = to_ascii_lowercase (before_sep ''://'' tracker)"

section \<open>The filter\<close>

definition blocked_by :: "url_parser \<Rightarrow> string \<Rightarrow> string \<Rightarrow> bool" where
  "blocked_by url_parse tracker b =
     (let host = (case host_of url_parse tracker of Some h \<Rightarrow> h | None \<Rightarrow> [])
      in case strip_prefix b ''*.'' of
           Some suffix \<Rightarrow> host = suffix \<or> ends_with host (''.'' @ suffix)
         | None \<Rightarrow> if contains b ''://'' then normalize url_parse b = Some tracker
                  else host = to_ascii_lowercase b)"

definition blocked :: "url_parser \<Rightarrow> string \<Rightarrow> string list \<Rightarrow> bool" where
  "blocked url_parse tracker block = list_ex (blocked_by url_parse tracker) block"

definition is_ip_host :: "url_parser \<Rightarrow> string \<Rightarrow> bool" where
  "is_ip_host url_parse tracker =
     (case host_of url_parse tracker of
        Some h \<Rightarrow> parse_ip (trim_chars {CHR ''['', CHR '']''} h) \<noteq> None | None \<Rightarrow> False)"

record merge_state =
  mg_seen :: "string set"
  mg_out :: "string list"
  mg_rejected :: nat
  mg_dups :: nat

definition refused :: "url_parser \<Rightarrow> trackers_config \<Rightarrow> string list \<Rightarrow> string \<Rightarrow> bool" where
  "refused url_parse cfg allowed t \<longleftrightarrow>
     scheme_of t \<notin> set allowed \<or> blocked url_parse t (sl_block (tc_static cfg))
     \<or> (tc_reject_ip_hosts cfg \<and> is_ip_host url_parse t)"

definition merge_line ::
  "url_parser \<Rightarrow> trackers_config \<Rightarrow> string list \<Rightarrow> string \<Rightarrow> merge_state \<Rightarrow> merge_state" where
  "merge_line url_parse cfg allowed raw st =
     (case normalize url_parse raw of
        None \<Rightarrow> if trim raw \<noteq> [] \<and> \<not> starts_with (trim_start raw) ''#''
                then st\<lparr>mg_rejected := mg_rejected st + 1\<rparr> else st
      | Some t \<Rightarrow>
          if refused url_parse cfg allowed t then st\<lparr>mg_rejected := mg_rejected st + 1\<rparr>
          else if t \<in> mg_seen st then st\<lparr>mg_dups := mg_dups st + 1\<rparr>
          else st\<lparr>mg_seen := insert t (mg_seen st), mg_out := mg_out st @ [t]\<rparr>)"

definition allowed_schemes :: "trackers_config \<Rightarrow> string list option \<Rightarrow> string list" where
  "allowed_schemes cfg schemes =
     map to_ascii_lowercase (case schemes of Some s \<Rightarrow> s | None \<Rightarrow> tc_schemes cfg)"

definition merge_list ::
  "url_parser \<Rightarrow> trackers_config \<Rightarrow> string list option \<times> string list \<Rightarrow> merge_state \<Rightarrow> merge_state" where
  "merge_list url_parse cfg entry st =
     fold (merge_line url_parse cfg (allowed_schemes cfg (fst entry))) (snd entry) st"

definition merge_all ::
  "url_parser \<Rightarrow> trackers_config \<Rightarrow> (string list option \<times> string list) list \<Rightarrow> merge_state" where
  "merge_all url_parse cfg fetched =
     fold (merge_list url_parse cfg) (fetched @ [(None, sl_add (tc_static cfg))])
       \<lparr>mg_seen = {}, mg_out = [], mg_rejected = 0, mg_dups = 0\<rparr>"

definition merge ::
  "url_parser \<Rightarrow> trackers_config \<Rightarrow> (string list option \<times> string list) list
   \<Rightarrow> string list \<times> nat \<times> nat" where
  "merge url_parse cfg fetched =
     (let st = merge_all url_parse cfg fetched
      in (take (tc_max cfg) (mg_out st), mg_rejected st, mg_dups st))"

section \<open>Serving and refreshing\<close>

definition current :: "url_parser \<Rightarrow> i64 \<Rightarrow> tracker_feed \<Rightarrow> string list" where
  "current url_parse now feed =
     (let cfg = tf_config feed; st = tf_state feed
      in if \<not> tc_enabled cfg then []
         else if (case ts_updated_at st of
                    Some t \<Rightarrow> i64_le (now - t) (d_secs (tc_stale_after cfg)) | None \<Rightarrow> False)
              then ts_trackers st
         else fst (merge url_parse cfg []))"

record http_answer =
  ha_status :: string
  ha_success :: bool
  ha_body :: "string result"

definition fetch_source :: "(string \<Rightarrow> http_answer result) \<Rightarrow> source \<Rightarrow> string list result" where
  "fetch_source http_get src =
     (case with_context (''GET '' @ src_url src) (http_get (src_url src)) of
        Inl e \<Rightarrow> Inl e
      | Inr resp \<Rightarrow>
          (case ha_body resp of
             Inl e \<Rightarrow> Inl e
           | Inr body \<Rightarrow>
               if \<not> ha_success resp
               then Inl (bail (src_url src @ '' returned '' @ ha_status resp))
               else (let ls = filter (\<lambda>l. l \<noteq> []) (map trim (str_lines body))
                     in Inr (case src_take src of Some n \<Rightarrow> take n ls | None \<Rightarrow> ls))))"

definition new_status :: "source \<Rightarrow> source_status" where
  "new_status src =
     \<lparr>ss_name = src_name src, ss_url = src_url src, ss_enabled = src_enabled src,
      ss_last_fetch_at = None, ss_last_ok_at = None, ss_last_error = None, ss_fetched = 0,
      ss_accepted = 0\<rparr>"

definition refresh_source ::
  "url_parser \<Rightarrow> (string \<Rightarrow> http_answer result) \<Rightarrow> i64 \<Rightarrow> trackers_config \<Rightarrow> source
   \<Rightarrow> source_status \<times> (string list option \<times> string list) list" where
  "refresh_source url_parse http_get now cfg src =
     (if \<not> src_enabled src then (new_status src, [])
      else
        let st = (new_status src)\<lparr>ss_last_fetch_at := Some now\<rparr>
        in case fetch_source http_get src of
             Inl e \<Rightarrow> (st\<lparr>ss_last_error := Some (error_text e)\<rparr>, [])
           | Inr ls \<Rightarrow>
               (let accepted = fst (merge url_parse
                      (cfg\<lparr>tc_max := 2 ^ 64 - 1, tc_static := \<lparr>sl_add = [], sl_block = []\<rparr>\<rparr>)
                      [(src_schemes src, ls)])
                in (st\<lparr>ss_fetched := length ls, ss_accepted := length accepted,
                       ss_last_ok_at := Some now\<rparr>, [(src_schemes src, ls)])))"

definition refresh ::
  "url_parser \<Rightarrow> (string \<Rightarrow> http_answer result) \<Rightarrow> i64 \<Rightarrow> bool \<Rightarrow> tracker_feed \<Rightarrow> bool \<times> tracker_feed" where
  "refresh url_parse http_get now cache_writable feed =
     (let cfg = tf_config feed; old = tf_state feed
      in if \<not> tc_enabled cfg then (False, feed)
         else
           let results = map (refresh_source url_parse http_get now cfg) (tc_sources cfg);
               statuses = map fst results;
               fetched = concat (map snd results);
               any_ok = list_ex (\<lambda>s. ss_last_ok_at s = Some now) statuses;
               (trackers, rejected, deduplicated) = merge url_parse cfg fetched;
               changed = (ts_trackers old \<noteq> trackers);
               first_run_without_sources = (fetched = [] \<and> ts_trackers old = []);
               st = (if any_ok \<or> first_run_without_sources
                     then \<lparr>ts_trackers = trackers, ts_updated_at = Some now, ts_sources = statuses,
                           ts_rejected = rejected, ts_deduplicated = deduplicated\<rparr>
                     else old\<lparr>ts_sources := statuses\<rparr>)
           in (changed \<and> any_ok,
               feed\<lparr>tf_state := st,
                    tf_cache := (if cache_writable then Some st else tf_cache feed)\<rparr>))"

section \<open>The filter as one expression\<close>

text \<open>The lines of a list that survive it, in order; and how many of its lines count as rejected.\<close>

definition accepted ::
  "url_parser \<Rightarrow> trackers_config \<Rightarrow> string list option \<times> string list \<Rightarrow> string list" where
  "accepted url_parse cfg entry =
     filter (\<lambda>t. \<not> refused url_parse cfg (allowed_schemes cfg (fst entry)) t)
       (List.map_filter (normalize url_parse) (snd entry))"

definition ignored_line :: "string \<Rightarrow> bool" where
  "ignored_line raw \<longleftrightarrow> trim raw = [] \<or> starts_with (trim_start raw) ''#''"

definition rejected_line :: "url_parser \<Rightarrow> trackers_config \<Rightarrow> string list \<Rightarrow> string \<Rightarrow> bool" where
  "rejected_line url_parse cfg allowed raw \<longleftrightarrow>
     (case normalize url_parse raw of
        None \<Rightarrow> \<not> ignored_line raw | Some t \<Rightarrow> refused url_parse cfg allowed t)"

definition rejected_in ::
  "url_parser \<Rightarrow> trackers_config \<Rightarrow> string list option \<times> string list \<Rightarrow> nat" where
  "rejected_in url_parse cfg entry =
     length (filter (rejected_line url_parse cfg (allowed_schemes cfg (fst entry))) (snd entry))"

text \<open>The first occurrence of every element, in order.\<close>

definition dedup :: "'a list \<Rightarrow> 'a list" where
  "dedup xs = rev (remdups (rev xs))"

lemma dedup_simps [simp]:
  "dedup [] = []" "dedup (xs @ [x]) = (if x \<in> set xs then dedup xs else dedup xs @ [x])"
  "set (dedup xs) = set xs" "distinct (dedup xs)"
  by (simp_all add: dedup_def)

lemma length_dedup: "length (dedup xs) = card (set xs)"
  by (metis dedup_simps(3,4) distinct_card)

definition merge_abs :: "string list \<Rightarrow> nat \<Rightarrow> merge_state" where
  "merge_abs acc r =
     \<lparr>mg_seen = set acc, mg_out = dedup acc, mg_rejected = r, mg_dups = length acc - length (dedup acc)\<rparr>"

lemma dedup_le: "length (dedup xs) \<le> length xs"
  by (simp add: length_dedup card_length)

lemma merge_line_abs:
  "merge_line url_parse cfg allowed raw (merge_abs acc r) =
     (case normalize url_parse raw of
        None \<Rightarrow> merge_abs acc (if ignored_line raw then r else r + 1)
      | Some t \<Rightarrow> if refused url_parse cfg allowed t then merge_abs acc (r + 1)
                 else merge_abs (acc @ [t]) r)"
  using dedup_le [of acc]
  by (auto simp: merge_line_def merge_abs_def ignored_line_def Suc_diff_le split: option.splits)

lemma merge_list_abs:
  "merge_list url_parse cfg entry (merge_abs acc r) =
     merge_abs (acc @ accepted url_parse cfg entry) (r + rejected_in url_parse cfg entry)"
proof (cases entry)
  case (Pair schemes ls)
  have "fold (merge_line url_parse cfg (allowed_schemes cfg schemes)) ls (merge_abs acc r) =
      merge_abs (acc @ accepted url_parse cfg (schemes, ls)) (r + rejected_in url_parse cfg (schemes, ls))"
  proof (induction ls arbitrary: acc r)
    case (Cons raw ls)
    then show ?case
      by (auto simp: merge_line_abs accepted_def rejected_in_def rejected_line_def map_filter_simps
          split: option.splits)
  qed (simp add: accepted_def rejected_in_def map_filter_simps)
  then show ?thesis by (simp add: merge_list_def Pair)
qed

lemma merge_lists_abs:
  "fold (merge_list url_parse cfg) entries (merge_abs acc r) =
     merge_abs (acc @ concat (map (accepted url_parse cfg) entries))
       (r + sum_list (map (rejected_in url_parse cfg) entries))"
  by (induction entries arbitrary: acc r) (simp_all add: merge_list_abs add.assoc)

definition all_lists ::
  "trackers_config \<Rightarrow> (string list option \<times> string list) list \<Rightarrow> (string list option \<times> string list) list" where
  "all_lists cfg fetched = fetched @ [(None, sl_add (tc_static cfg))]"

lemma merge_all_abs:
  "merge_all url_parse cfg fetched =
     merge_abs (concat (map (accepted url_parse cfg) (all_lists cfg fetched)))
       (sum_list (map (rejected_in url_parse cfg) (all_lists cfg fetched)))"
proof -
  have "\<lparr>mg_seen = {}, mg_out = [], mg_rejected = 0, mg_dups = 0\<rparr> = merge_abs [] 0"
    by (simp add: merge_abs_def)
  then show ?thesis
    by (simp only: merge_all_def merge_lists_abs flip: all_lists_def) simp
qed

section \<open>Properties\<close>


text \<open>No tracker outside the rules is ever handed out: the merged list has no duplicates, at
  most the configured number of entries, and each of them came from a line of a list that allows
  its scheme, is not blocked, and is not a bare address when those are refused.\<close>

theorem merged_trackers_obey_rules:
  assumes "t \<in> set (fst (merge url_parse cfg fetched))"
  shows "distinct (fst (merge url_parse cfg fetched))
    \<and> length (fst (merge url_parse cfg fetched)) \<le> tc_max cfg
    \<and> (\<exists>entry \<in> set (all_lists cfg fetched). \<exists>raw \<in> set (snd entry).
         normalize url_parse raw = Some t \<and> scheme_of t \<in> set (allowed_schemes cfg (fst entry)))
    \<and> \<not> blocked url_parse t (sl_block (tc_static cfg))
    \<and> (tc_reject_ip_hosts cfg \<longrightarrow> \<not> is_ip_host url_parse t)"
proof -
  let ?kept = "concat (map (accepted url_parse cfg) (all_lists cfg fetched))"
  have out: "fst (merge url_parse cfg fetched) = take (tc_max cfg) (dedup ?kept)"
    by (simp add: merge_def merge_all_abs Let_def) (simp add: merge_abs_def)
  then have "t \<in> set ?kept" using assms by (metis dedup_simps(3) in_set_takeD)
  then obtain entry where entry: "entry \<in> set (all_lists cfg fetched)" "t \<in> set (accepted url_parse cfg entry)"
    by auto
  then obtain raw where "raw \<in> set (snd entry)" "normalize url_parse raw = Some t"
    and "\<not> refused url_parse cfg (allowed_schemes cfg (fst entry)) t"
    by (auto simp: accepted_def map_filter_def)
  with entry out show ?thesis by (auto simp: refused_def)
qed

definition example_url_parse :: url_parser where
  "example_url_parse s =
     (if starts_with s ''udp://'' then Some \<lparr>u_scheme = ''udp'', u_host = Some (drop 6 s), u_port = Some 1,
        u_path = [], u_query = None\<rparr> else None)"

theorem merged_trackers_obey_rules_witness:
  "\<not> blocked example_url_parse ''udp://t.org:1'' (sl_block (tc_static default_trackers_config))"
proof -
  have "''udp://t.org:1'' \<in> set (fst (merge example_url_parse default_trackers_config
      [(None, [''# a list'', ''udp://t.org'', ''wss://t.org''])]))"
    by code_simp
  from merged_trackers_obey_rules [OF this] show ?thesis by blast
qed

lemma current_cong:
  "tf_config f = tf_config g \<Longrightarrow> ts_trackers (tf_state f) = ts_trackers (tf_state g) \<Longrightarrow>
   ts_updated_at (tf_state f) = ts_updated_at (tf_state g) \<Longrightarrow>
   current url_parse now f = current url_parse now g"
  by (simp add: current_def Let_def)

text \<open>C38: When every source fails and a list is held, a refresh keeps that list and its age, and
  reports no change; the failures are recorded per source.\<close>

theorem failed_refresh_keeps_the_list:
  assumes "ts_trackers (tf_state feed) \<noteq> []"
    and "\<forall>src \<in> set (tc_sources (tf_config feed)). src_enabled src \<longrightarrow> \<not> is_ok (fetch_source http_get src)"
  shows "\<exists>feed'. refresh url_parse http_get now writable feed = (False, feed')
    \<and> ts_trackers (tf_state feed') = ts_trackers (tf_state feed)
    \<and> ts_updated_at (tf_state feed') = ts_updated_at (tf_state feed)
    \<and> current url_parse now feed' = current url_parse now feed"
proof -
  let ?r = "refresh_source url_parse http_get now (tf_config feed)"
  let ?st = "(tf_state feed)\<lparr>ts_sources := map fst (map ?r (tc_sources (tf_config feed)))\<rparr>"
  have fails: "snd (?r src) = [] \<and> ss_last_ok_at (fst (?r src)) = None"
    if "src \<in> set (tc_sources (tf_config feed))" for src
    using assms(2) that
    by (auto simp: refresh_source_def Let_def new_status_def is_ok_iff split: sum.splits)
  have "concat (map snd (map ?r (tc_sources (tf_config feed)))) = []"
    using fails by simp
  moreover have "\<not> list_ex (\<lambda>s. ss_last_ok_at s = Some now) (map fst (map ?r (tc_sources (tf_config feed))))"
    using fails by (auto simp: list_ex_iff)
  ultimately have "refresh url_parse http_get now writable feed =
      (False, if tc_enabled (tf_config feed)
        then feed\<lparr>tf_state := ?st, tf_cache := (if writable then Some ?st else tf_cache feed)\<rparr>
        else feed)"
    unfolding refresh_def Let_def using assms(1) by (simp split: prod.splits)
  then show ?thesis
    by (cases "tc_enabled (tf_config feed)") (auto intro!: current_cong)
qed

theorem failed_refresh_keeps_the_list_witness:
  "let feed = \<lparr>tf_config = default_trackers_config,
        tf_state = default_tracker_state\<lparr>ts_trackers := [''udp://t.org:1''], ts_updated_at := Some 10\<rparr>,
        tf_cache = None\<rparr>
   in current example_url_parse 20 (snd (refresh example_url_parse (\<lambda>_. Inl (bail ''offline'')) 20 True feed))
      = [''udp://t.org:1'']"
proof -
  let ?feed = "\<lparr>tf_config = default_trackers_config,
        tf_state = default_tracker_state\<lparr>ts_trackers := [''udp://t.org:1''], ts_updated_at := Some 10\<rparr>,
        tf_cache = None\<rparr>"
  have "\<forall>src \<in> set (tc_sources (tf_config ?feed)). src_enabled src \<longrightarrow>
      \<not> is_ok (fetch_source (\<lambda>_. Inl (bail ''offline'')) src)"
    by (simp add: fetch_source_def)
  moreover have "ts_trackers (tf_state ?feed) \<noteq> []" by simp
  ultimately obtain feed' where
    "refresh example_url_parse (\<lambda>_. Inl (bail ''offline'')) 20 True ?feed = (False, feed')"
    "current example_url_parse 20 feed' = current example_url_parse 20 ?feed"
    using failed_refresh_keeps_the_list by blast
  moreover have "current example_url_parse 20 ?feed = [''udp://t.org:1'']"
    by (simp add: from_secs_def current_def default_trackers_config_def i64_le_def)
  ultimately show ?thesis by (simp add: Let_def)
qed

text \<open>The lists the reachable sources gave, in the order of the configuration.\<close>

definition fetched_lists ::
  "(string \<Rightarrow> http_answer result) \<Rightarrow> source list \<Rightarrow> (string list option \<times> string list) list" where
  "fetched_lists http_get srcs =
     concat (map (\<lambda>src. if \<not> src_enabled src then []
                         else case fetch_source http_get src of
                                Inl _ \<Rightarrow> [] | Inr ls \<Rightarrow> [(src_schemes src, ls)]) srcs)"

text \<open>When at least one enabled source answers, the list is rebuilt from the sources that
  answered in this refresh alone, stamped with the current time: what a failing source had
  contributed before is dropped.\<close>

theorem refresh_uses_only_answers:
  assumes "tc_enabled (tf_config feed)" and "src \<in> set (tc_sources (tf_config feed))"
    and "src_enabled src" and "is_ok (fetch_source http_get src)"
  shows "\<exists>feed'. refresh url_parse http_get now writable feed
      = (ts_trackers (tf_state feed') \<noteq> ts_trackers (tf_state feed), feed')
    \<and> ts_trackers (tf_state feed')
      = fst (merge url_parse (tf_config feed) (fetched_lists http_get (tc_sources (tf_config feed))))
    \<and> ts_updated_at (tf_state feed') = Some now"
proof -
  let ?r = "refresh_source url_parse http_get now (tf_config feed)"
  have lists: "snd (?r x) = (if \<not> src_enabled x then [] else case fetch_source http_get x of
      Inl _ \<Rightarrow> [] | Inr ls \<Rightarrow> [(src_schemes x, ls)])" for x
    by (simp add: refresh_source_def Let_def split: sum.splits)
  have fetched: "concat (map snd (map ?r (tc_sources (tf_config feed))))
      = fetched_lists http_get (tc_sources (tf_config feed))"
    unfolding fetched_lists_def map_map o_def lists ..
  have "ss_last_ok_at (fst (?r src)) = Some now"
    using assms(3,4) by (auto simp: refresh_source_def Let_def is_ok_iff)
  then have ok: "list_ex (\<lambda>s. ss_last_ok_at s = Some now) (map fst (map ?r (tc_sources (tf_config feed))))"
    using assms(2) by (auto simp: list_ex_iff)
  show ?thesis
    unfolding refresh_def Let_def fetched using assms(1) ok by (auto split: prod.splits)
qed

theorem refresh_uses_only_answers_witness:
  "let feed = \<lparr>tf_config = default_trackers_config,
        tf_state = default_tracker_state\<lparr>ts_trackers := [''udp://old.org:1''], ts_updated_at := Some 10\<rparr>,
        tf_cache = None\<rparr>;
       answer = (\<lambda>u. if u = ''https://cf.trackerslist.com/best.txt''
          then Inr \<lparr>ha_status = ''200 OK'', ha_success = True, ha_body = Inr ''udp://new.org''\<rparr>
          else Inl (bail ''offline''))
   in ts_updated_at (tf_state (snd (refresh example_url_parse answer 20 True feed))) = Some 20"
proof -
  let ?feed = "\<lparr>tf_config = default_trackers_config,
        tf_state = default_tracker_state\<lparr>ts_trackers := [''udp://old.org:1''], ts_updated_at := Some 10\<rparr>,
        tf_cache = None\<rparr>"
  let ?answer = "\<lambda>u. if u = ''https://cf.trackerslist.com/best.txt''
          then Inr \<lparr>ha_status = ''200 OK'', ha_success = True, ha_body = Inr ''udp://new.org''\<rparr>
          else Inl (bail ''offline'')"
  let ?src = "\<lparr>src_name = ''xiu2-best'', src_url = ''https://cf.trackerslist.com/best.txt'',
        src_enabled = True, src_schemes = None, src_take = None\<rparr>"
  have "tc_enabled (tf_config ?feed)" and "src_enabled ?src"
    and "?src \<in> set (tc_sources (tf_config ?feed))" and "is_ok (fetch_source ?answer ?src)"
    by (simp_all add: default_trackers_config_def default_sources_def fetch_source_def Let_def)
  from refresh_uses_only_answers [OF this(1,3,2,4), of example_url_parse 20 True]
  show ?thesis unfolding Let_def by auto
qed

text \<open>A host pattern of the block list with a capital letter in it blocks nothing: hosts are
  compared in lower case, the pattern of a \<open>*.\<close> entry as it was written.\<close>

theorem capital_glob_blocks_nothing:
  assumes "c \<in> set suffix" and "is_ascii_upper c"
  shows "\<not> blocked_by url_parse tracker (''*.'' @ suffix)"
proof
  assume *: "blocked_by url_parse tracker (''*.'' @ suffix)"
  let ?host = "case host_of url_parse tracker of Some h \<Rightarrow> h | None \<Rightarrow> []"
  have "strip_prefix (''*.'' @ suffix) ''*.'' = Some suffix" by (simp only: strip_prefix_Some)
  with * have "?host = suffix \<or> ends_with ?host (''.'' @ suffix)"
    by (simp add: blocked_by_def Let_def)
  then have "\<exists>r. ?host = r @ suffix"
    unfolding ends_with_iff by (metis append.assoc append_Nil)
  then obtain r where "?host = r @ suffix" by blast
  then have "c \<in> set ?host" using assms(1) by simp
  then obtain h where "host_of url_parse tracker = Some h" and "c \<in> set h"
    by (cases "host_of url_parse tracker") auto
  then obtain d where "c = lower_char d"
    by (auto simp: host_of_def to_ascii_lowercase_def map_option_case split: option.splits)
  with assms(2) show False
    by (auto simp: is_ascii_upper_def split: if_splits)
qed

theorem capital_glob_blocks_nothing_witness:
  "\<not> blocked_by (\<lambda>_. Some \<lparr>u_scheme = ''udp'', u_host = Some ''x.Bad.example'', u_port = None,
       u_path = [], u_query = None\<rparr>) ''udp://x.bad.example'' ''*.Bad.example''"
  using capital_glob_blocks_nothing [of "CHR ''B''" "''Bad.example''"] by (simp add: is_ascii_upper_def)

end
