(* ===== verification/Source_Acl.thy ===== *)
theory Source_Acl
  imports Net_Addr Faults
begin

text \<open>
  The source-address gate, \<open>http/middleware/source_acl.rs\<close>: the policy \<open>Acl\<close> with its parser,
  the resolution of the real client behind a trusted proxy, and the layer that applies it.
  The network type of the \<open>ipnet\<close> crate is a parameter, a record of the four operations the code
  uses; \<open>ipnet_laws\<close> states what its documentation promises, and \<open>cidr\<close> is one instance. A header
  value is the text of the first \<open>X-Forwarded-For\<close> line, \<open>None\<close> when it is absent or not ASCII.
\<close>

section \<open>Networks\<close>

record 'n ipnet =
  net_parse :: "string \<Rightarrow> 'n option"
  net_of_addr :: "ip_addr \<Rightarrow> 'n"
  net_prefix_len :: "'n \<Rightarrow> nat"
  net_contains :: "'n \<Rightarrow> ip_addr \<Rightarrow> bool"

text \<open>A network made from an address holds exactly that address, at full prefix length.\<close>

definition ipnet_laws :: "'n ipnet \<Rightarrow> bool" where
  "ipnet_laws N \<longleftrightarrow>
     (\<forall>a b. net_contains N (net_of_addr N a) b \<longleftrightarrow> a = b) \<and> (\<forall>a. 0 < net_prefix_len N (net_of_addr N a))"

definition default_allow :: string where
  "default_allow = ''127.0.0.0/8,::1/128,10.0.0.0/8,172.16.0.0/12,192.168.0.0/16,169.254.0.0/16,'' @
     ''fe80::/10,fc00::/7,100.64.0.0/10''"

section \<open>The policy\<close>

record 'n acl =
  acl_allow :: "'n list"
  acl_proxies :: "'n list"

definition acl_entries :: "string list \<Rightarrow> string list" where
  "acl_entries list = filter (\<lambda>e. e \<noteq> []) (map trim (concat (map (split_char CHR '','') list)))"

definition parse_entry ::
  "'n ipnet \<Rightarrow> (string \<Rightarrow> string) \<Rightarrow> string \<Rightarrow> string \<Rightarrow> 'n result" where
  "parse_entry N quote what entry =
     (case net_parse N entry of
        Some n \<Rightarrow> Inr n
      | None \<Rightarrow>
          (case parse_ip entry of
             Some ip \<Rightarrow> Inr (net_of_addr N ip)
           | None \<Rightarrow> with_context (what @ '': '' @ quote entry @ '' is not an IP address or CIDR'')
                      (Inl (bail ''invalid IP address syntax''))))"

fun parse_nets ::
  "'n ipnet \<Rightarrow> (string \<Rightarrow> string) \<Rightarrow> string \<Rightarrow> string list \<Rightarrow> 'n list result" where
  "parse_nets N quote what [] = Inr []"
| "parse_nets N quote what (e # es) =
     (case parse_entry N quote what e of
        Inl err \<Rightarrow> Inl err
      | Inr n \<Rightarrow> (case parse_nets N quote what es of Inl err \<Rightarrow> Inl err | Inr ns \<Rightarrow> Inr (n # ns)))"

definition acl_parse ::
  "'n ipnet \<Rightarrow> (string \<Rightarrow> string) \<Rightarrow> string list \<Rightarrow> string \<Rightarrow> 'n list result" where
  "acl_parse N quote list what = parse_nets N quote what (acl_entries list)"

definition acl_new ::
  "'n ipnet \<Rightarrow> (string \<Rightarrow> string) \<Rightarrow> string list \<Rightarrow> string list \<Rightarrow> 'n acl result" where
  "acl_new N quote allow proxies =
     (case acl_parse N quote allow ''allow-from'' of
        Inl e \<Rightarrow> Inl e
      | Inr a \<Rightarrow>
          (case acl_parse N quote proxies ''trusted-proxy'' of
             Inl e \<Rightarrow> Inl e
           | Inr p \<Rightarrow> Inr \<lparr>acl_allow = a, acl_proxies = p\<rparr>))"

definition unmap :: "ip_addr \<Rightarrow> ip_addr" where
  "unmap ip =
     (case ip of
        V6 v6 \<Rightarrow> (case to_ipv4_mapped v6 of Some v4 \<Rightarrow> V4 v4 | None \<Rightarrow> V6 v6)
      | V4 v4 \<Rightarrow> V4 v4)"

definition allows_everything :: "'n ipnet \<Rightarrow> 'n acl \<Rightarrow> bool" where
  "allows_everything N acl \<longleftrightarrow> (\<exists>n \<in> set (acl_allow acl). net_prefix_len N n = 0)"

definition allows :: "'n ipnet \<Rightarrow> 'n acl \<Rightarrow> ip_addr \<Rightarrow> bool" where
  "allows N acl ip \<longleftrightarrow> (\<exists>n \<in> set (acl_allow acl). net_contains N n (unmap ip))"

definition is_proxy :: "'n ipnet \<Rightarrow> 'n acl \<Rightarrow> ip_addr \<Rightarrow> bool" where
  "is_proxy N acl ip \<longleftrightarrow> (\<exists>n \<in> set (acl_proxies acl). net_contains N n (unmap ip))"

section \<open>The client behind a proxy\<close>

definition parse_hop :: "string \<Rightarrow> ip_addr option" where
  "parse_hop hop =
     (case parse_ip hop of
        Some ip \<Rightarrow> Some ip
      | None \<Rightarrow>
          (case parse_socket hop of
             Some (ip, _) \<Rightarrow> Some ip
           | None \<Rightarrow> map_option V6 (parse_ipv6 (trim_chars {CHR ''['', CHR '']''} hop))))"

definition hop_addr :: "string \<Rightarrow> ip_addr option" where
  "hop_addr hop = parse_hop (trim_chars {CHR 0x22} (trim hop))"

fun walk_hops :: "'n ipnet \<Rightarrow> 'n acl \<Rightarrow> ip_addr \<Rightarrow> string list \<Rightarrow> ip_addr" where
  "walk_hops N acl peer [] = unmap peer"
| "walk_hops N acl peer (hop # hops) =
     (case hop_addr hop of
        None \<Rightarrow> walk_hops N acl peer hops
      | Some ip \<Rightarrow> if \<not> is_proxy N acl ip then unmap ip else walk_hops N acl peer hops)"

definition client_ip :: "'n ipnet \<Rightarrow> 'n acl \<Rightarrow> ip_addr \<Rightarrow> string option \<Rightarrow> ip_addr" where
  "client_ip N acl peer forwarded_for =
     (if \<not> is_proxy N acl peer then unmap peer
      else case forwarded_for of
             None \<Rightarrow> unmap peer
           | Some xff \<Rightarrow> walk_hops N acl peer (rev (split_char CHR '','' xff)))"

section \<open>The layer\<close>

text \<open>What a layer does with a request: pass it on, or answer with an error itself.\<close>

datatype gate = Pass | Refuse api_error

definition require_allowed_source ::
  "'n ipnet \<Rightarrow> (ip_addr \<Rightarrow> string) \<Rightarrow> 'n acl \<Rightarrow> ip_addr option \<Rightarrow> string option \<Rightarrow> gate" where
  "require_allowed_source N show_ip acl connect_info xff =
     (if allows_everything N acl then Pass
      else case connect_info of
             None \<Rightarrow> Pass
           | Some peer \<Rightarrow>
               (let client = client_ip N acl peer xff
                in if allows N acl client then Pass
                   else Refuse (api_error_new 403 ''forbidden''
                          (show_ip client @ '' is not in an allowed source range''))))"

section \<open>Facts\<close>

lemma walk_hops_find:
  "walk_hops N acl peer hops =
    (case find (\<lambda>ip. \<not> is_proxy N acl ip) (List.map_filter hop_addr hops) of
       None \<Rightarrow> unmap peer | Some ip \<Rightarrow> unmap ip)"
  by (induction hops) (auto simp: map_filter_simps split: option.splits)

lemma trim_chars_fixed:
  assumes "\<And>c. c \<in> set s \<Longrightarrow> c \<notin> cs"
  shows "trim_chars cs s = s"
proof -
  have "dropWhile (\<lambda>x. x \<in> cs) t = t" if "set t \<subseteq> set s" for t
    using that assms by (cases t) auto
  then show ?thesis by (simp add: trim_chars_def)
qed

lemma show_ipv4_chars: "c \<in> set (show_ipv4 w) \<Longrightarrow> is_ascii_digit c \<or> c = CHR ''.''"
  by (auto simp: show_ipv4_def octets_def join_with_def dest: show_nat_digits)

lemma rev_split_last:
  assumes "c \<notin> set q"
  shows "rev (split_char c (p @ c # q)) = q # rev (split_char c p)"
proof (induction p)
  case Nil
  with assms show ?case using split_char_append [of c "[]" q] by (simp add: split_char_whole)
next
  case (Cons x p)
  then have "split_char c (p @ c # q) = split_char c p @ [q]"
    by (metis rev.simps(2) rev_rev_ident)
  then show ?case by (cases "split_char c p") auto
qed

lemma client_of_last_hop:
  assumes "is_proxy N acl peer" and "CHR '','' \<notin> set real" and "hop_addr real = Some ip"
    and "\<not> is_proxy N acl ip"
  shows "client_ip N acl peer (Some (fake @ CHR '','' # real)) = unmap ip"
  using assms by (simp add: client_ip_def rev_split_last)

lemma ipv4_plain:
  shows "trim (show_ipv4 w) = show_ipv4 w" and "CHR '','' \<notin> set (show_ipv4 w)"
    and "show_ipv4 w \<noteq> []"
proof -
  show "trim (show_ipv4 w) = show_ipv4 w"
    using show_ipv4_chars [of _ w] digit_plain
    by (intro trim_plain) (fastforce simp: list_all_iff plain_char_def)
  show "CHR '','' \<notin> set (show_ipv4 w)"
    using show_ipv4_chars [of "CHR '',''" w] by (auto simp: is_ascii_digit_def)
  show "show_ipv4 w \<noteq> []" by (simp add: show_ipv4_def octets_def join_with_def)
qed

lemma hop_addr_ipv4: "hop_addr (show_ipv4 w) = Some (V4 w)"
proof -
  have "trim_chars {CHR 0x22} (show_ipv4 w) = show_ipv4 w"
    using show_ipv4_chars [of _ w] by (intro trim_chars_fixed) (fastforce simp: is_ascii_digit_def)
  then show ?thesis by (simp add: hop_addr_def ipv4_plain parse_hop_def parse_show_ipv4)
qed

lemma acl_entries_join:
  assumes "ws \<noteq> []"
  shows "acl_entries [join_with '','' (map show_ipv4 ws)] = map show_ipv4 ws"
proof -
  have "split_char CHR '','' (join_with '','' (map show_ipv4 ws)) = map show_ipv4 ws"
    using assms by (intro split_join) (auto simp: ipv4_plain)
  then show ?thesis by (simp add: acl_entries_def o_def ipv4_plain filter_id_conv)
qed

lemma parse_nets_addrs:
  assumes "\<And>w. net_parse N (show_ipv4 w) = None"
  shows "parse_nets N quote what (map show_ipv4 ws) = Inr (map (\<lambda>w. net_of_addr N (V4 w)) ws)"
  by (induction ws) (simp_all add: parse_entry_def assms parse_show_ipv4)

lemma unmap_V4 [simp]: "unmap (V4 w) = V4 w"
  by (simp add: unmap_def)

lemma unmap_mapped [simp]: "unmap (V6 (ipv4_mapped w)) = V4 w"
  by (simp add: unmap_def mapped_inverse)

section \<open>An instance of the networks\<close>

datatype cidr = Net4 "32 word" nat | Net6 "128 word" nat

definition cidr_parse :: "string \<Rightarrow> cidr option" where
  "cidr_parse s =
     (case split_once CHR ''/'' s of
        None \<Rightarrow> None
      | Some (a, p) \<Rightarrow>
          (case (parse_ip a, parse_unsigned 8 p) of
             (Some (V4 w), Some n) \<Rightarrow> if n \<le> 32 then Some (Net4 w n) else None
           | (Some (V6 w), Some n) \<Rightarrow> if n \<le> 128 then Some (Net6 w n) else None
           | _ \<Rightarrow> None))"

fun cidr_contains :: "cidr \<Rightarrow> ip_addr \<Rightarrow> bool" where
  "cidr_contains (Net4 w n) (V4 a) = (drop_bit (32 - n) w = drop_bit (32 - n) a)"
| "cidr_contains (Net6 w n) (V6 a) = (drop_bit (128 - n) w = drop_bit (128 - n) a)"
| "cidr_contains _ _ = False"

fun cidr_prefix_len :: "cidr \<Rightarrow> nat" where
  "cidr_prefix_len (Net4 w n) = n"
| "cidr_prefix_len (Net6 w n) = n"

fun cidr_of_addr :: "ip_addr \<Rightarrow> cidr" where
  "cidr_of_addr (V4 w) = Net4 w 32"
| "cidr_of_addr (V6 w) = Net6 w 128"

definition cidr_net :: "cidr ipnet" where
  "cidr_net = \<lparr>net_parse = cidr_parse, net_of_addr = cidr_of_addr,
     net_prefix_len = cidr_prefix_len, net_contains = cidr_contains\<rparr>"

lemma cidr_net_simps [simp]:
  "net_parse cidr_net = cidr_parse" "net_of_addr cidr_net = cidr_of_addr"
  "net_prefix_len cidr_net = cidr_prefix_len" "net_contains cidr_net = cidr_contains"
  by (simp_all add: cidr_net_def)

lemma cidr_laws: "ipnet_laws cidr_net"
  unfolding ipnet_laws_def
proof (intro conjI allI)
  show "net_contains cidr_net (net_of_addr cidr_net a) b \<longleftrightarrow> a = b" for a b
    by (cases a; cases b) simp_all
  show "0 < net_prefix_len cidr_net (net_of_addr cidr_net a)" for a by (cases a) simp_all
qed

section \<open>Properties\<close>

text \<open>C35: Behind a trusted proxy the client is the rightmost hop of the header that parses and is
  not itself a trusted proxy, and the peer when there is none; from any other peer the header
  is not looked at.\<close>

theorem client_ip_is_rightmost_untrusted_hop:
  "client_ip N acl peer xff =
    (case (if is_proxy N acl peer
           then find (\<lambda>ip. \<not> is_proxy N acl ip)
                  (List.map_filter hop_addr
                     (case xff of None \<Rightarrow> [] | Some h \<Rightarrow> rev (split_char CHR '','' h)))
           else None) of
       None \<Rightarrow> unmap peer | Some ip \<Rightarrow> unmap ip)"
  by (auto simp: client_ip_def walk_hops_find map_filter_simps split: option.splits)


definition example_acl :: "cidr acl" where
  "example_acl = \<lparr>acl_allow = [Net4 0xC0A80000 16], acl_proxies = [Net4 0xC0A80102 32]\<rparr>"


text \<open>Opening the gate to all of IPv4 opens it to all of IPv6: with \<open>allow_from = 0.0.0.0/0\<close> the
  layer passes an IPv6 peer that no range of the policy contains.\<close>

theorem open_ipv4_range_opens_ipv6:
  assumes "net_parse N ''0.0.0.0/0'' = Some n" and "net_prefix_len N n = 0"
    and "\<And>a. \<not> net_contains N n (V6 a)" and "to_ipv4_mapped v6 = None"
  shows "\<exists>acl. acl_new N quote [''0.0.0.0/0''] [] = Inr acl \<and> \<not> allows N acl (V6 v6)
    \<and> require_allowed_source N show_ip acl (Some (V6 v6)) xff = Pass"
proof -
  let ?acl = "\<lparr>acl_allow = [n], acl_proxies = []\<rparr>"
  have "trim ''0.0.0.0/0'' = ''0.0.0.0/0''" by (rule trim_plain) (simp add: plain_char_def)
  then have "acl_entries [''0.0.0.0/0''] = [''0.0.0.0/0'']" by (simp add: acl_entries_def)
  then have "acl_new N quote [''0.0.0.0/0''] [] = Inr ?acl"
    using assms(1) by (simp add: acl_new_def acl_parse_def parse_entry_def) (simp add: acl_entries_def)
  then show ?thesis
    using assms by (auto simp: require_allowed_source_def allows_everything_def allows_def unmap_def)
qed

theorem open_ipv4_range_opens_ipv6_witness:
  "\<exists>acl. acl_new cidr_net id [''0.0.0.0/0''] [] = Inr acl
    \<and> \<not> allows cidr_net acl (V6 0x26064700000000000000000000001111)
    \<and> require_allowed_source cidr_net (\<lambda>_. []) acl (Some (V6 0x26064700000000000000000000001111)) None = Pass"
proof (rule open_ipv4_range_opens_ipv6)
  show "net_parse cidr_net ''0.0.0.0/0'' = Some (Net4 0 0)" by simp code_simp
qed (simp_all add: to_ipv4_mapped_def)

text \<open>A comma-separated list of bare IPv4 addresses parses, and the policy it gives allows
  exactly those addresses, in plain or IPv4-mapped form, and is not open.\<close>

theorem bare_addresses_allow_only_themselves:
  assumes "ipnet_laws N" and "\<And>w. net_parse N (show_ipv4 w) = None" and "ws \<noteq> []"
  shows "\<exists>acl. acl_new N quote [join_with '','' (map show_ipv4 ws)] [] = Inr acl
    \<and> (\<forall>ip. allows N acl ip \<longleftrightarrow> unmap ip \<in> V4 ` set ws) \<and> \<not> allows_everything N acl"
proof -
  let ?acl = "\<lparr>acl_allow = map (\<lambda>w. net_of_addr N (V4 w)) ws, acl_proxies = []\<rparr>"
  have "acl_new N quote [join_with '','' (map show_ipv4 ws)] [] = Inr ?acl"
    using assms(3) by (simp add: acl_new_def acl_parse_def acl_entries_join parse_nets_addrs [OF assms(2)])
      (simp add: acl_entries_def)
  moreover have "allows N ?acl ip \<longleftrightarrow> unmap ip \<in> V4 ` set ws" for ip
    using assms(1) by (auto simp: allows_def ipnet_laws_def image_iff eq_commute [of "unmap ip"])
  moreover have "\<not> allows_everything N ?acl"
    using assms(1) by (simp add: allows_everything_def ipnet_laws_def)
  ultimately show ?thesis by blast
qed

lemma cidr_parse_bare: "cidr_parse (show_ipv4 w) = None"
proof -
  have "CHR ''/'' \<notin> set (show_ipv4 w)"
    using show_ipv4_chars [of "CHR ''/''" w] by (auto simp: is_ascii_digit_def)
  then show ?thesis by (simp add: cidr_parse_def flip: split_once_None)
qed

theorem bare_addresses_allow_only_themselves_witness:
  "\<exists>acl. acl_new cidr_net id [join_with '','' (map show_ipv4 [0xCB007107, 0x0A000001])] [] = Inr acl
     \<and> allows cidr_net acl (V4 0xCB007107) \<and> \<not> allows cidr_net acl (V4 0xCB007108)"
proof -
  obtain acl where "acl_new cidr_net id [join_with '','' (map show_ipv4 [0xCB007107, 0x0A000001])] [] = Inr acl"
    and "\<And>ip. allows cidr_net acl ip \<longleftrightarrow> unmap ip \<in> V4 ` set [0xCB007107, 0x0A000001]"
    using bare_addresses_allow_only_themselves [OF cidr_laws, of "[0xCB007107, 0x0A000001]" id]
    by (auto simp: cidr_parse_bare)
  then show ?thesis by auto
qed

end
