(* ===== verification/Config.thy ===== *)
theory Config
  imports Trackers Source_Acl
begin

text \<open>
  The settings: the command line as \<open>config/args.rs\<close> declares it, the TOML file of
  \<open>config/file.rs\<close>, and how flags override the file. The \<open>clap\<close> and \<open>toml\<close> parsers are outside;
  reading a file gives its text or fails, and \<open>toml_parse\<close> turns a text into a configuration.
\<close>

section \<open>The command line\<close>

record server_opts =
  so_config :: "string option"
  so_data_dir :: string
  so_disk_budget :: u64
  so_min_free :: u64
  so_stream_grace :: duration
  so_keep_seeding :: bool
  so_bind_device :: "string option"
  so_utp :: bool
  so_peer_limit :: u32
  so_concurrent_checks :: u32
  so_announce_port :: "u16 option"
  so_dht_port :: "u16 option"
  so_dht_bootstrap :: "string list"
  so_disable_lsd :: bool
  so_max_active_downloads :: "u32 option"
  so_pause_duration :: duration
  so_sweep_interval :: duration
  so_http_listen :: "ip_addr \<times> u16"
  so_allow_from :: "string list"
  so_trusted_proxies :: "string list"
  so_ipv4_only :: bool
  so_disable_trackers :: bool
  so_tracker_sources :: "string list"
  so_tracker_schemes :: "string list option"
  so_extra_trackers :: "string list"
  so_public_url :: "string option"
  so_tls_cert :: "string option"
  so_tls_key :: "string option"
  so_tmdb_token :: "string option"
  so_tmdb_api_key :: "string option"
  so_tmdb_base_url :: string
  so_api_token :: "string option"
  so_stall_timeout :: duration
  so_require_mount :: bool
  so_mdns_name :: string
  so_disable_mdns :: bool
  so_dlna_name :: "string option"
  so_addon_name :: "string option"
  so_disable_dlna :: bool
  so_listen_port :: "u16 option"
  so_disable_dht :: bool
  so_disable_upnp_port_forward :: bool
  so_ratelimit_download :: "u32 option"
  so_ratelimit_upload :: "u32 option"

text \<open>The values the declarations default to; \<open>--disk-budget\<close> has none.\<close>

definition default_server_opts :: "u64 \<Rightarrow> server_opts" where
  "default_server_opts budget =
     \<lparr>so_config = None, so_data_dir = ''/var/lib/tornas'', so_disk_budget = budget,
      so_min_free = 20 * 1024 ^ 3, so_stream_grace = from_secs (15 * 60), so_keep_seeding = False,
      so_bind_device = None, so_utp = False, so_peer_limit = 128, so_concurrent_checks = 3,
      so_announce_port = None, so_dht_port = None, so_dht_bootstrap = [], so_disable_lsd = False,
      so_max_active_downloads = None, so_pause_duration = from_secs (3 * 3600),
      so_sweep_interval = from_secs (5 * 60), so_http_listen = (V6 0, 3030), so_allow_from = [],
      so_trusted_proxies = [], so_ipv4_only = False, so_disable_trackers = False,
      so_tracker_sources = [], so_tracker_schemes = None, so_extra_trackers = [],
      so_public_url = None, so_tls_cert = None, so_tls_key = None, so_tmdb_token = None,
      so_tmdb_api_key = None, so_tmdb_base_url = ''https://api.themoviedb.org/3'',
      so_api_token = None, so_stall_timeout = from_secs (6 * 3600), so_require_mount = False,
      so_mdns_name = ''tornas'', so_disable_mdns = False, so_dlna_name = None,
      so_addon_name = None, so_disable_dlna = False, so_listen_port = None,
      so_disable_dht = False, so_disable_upnp_port_forward = False, so_ratelimit_download = None,
      so_ratelimit_upload = None\<rparr>"

section \<open>The file\<close>

record network_config =
  nc_ipv6 :: bool
  nc_allow_from :: "string list"
  nc_trusted_proxies :: "string list"

record file_config =
  fc_trackers :: trackers_config
  fc_network :: network_config

definition default_network_config :: network_config where
  "default_network_config =
     \<lparr>nc_ipv6 = True, nc_allow_from = split_char CHR '','' default_allow, nc_trusted_proxies = []\<rparr>"

definition default_file_config :: file_config where
  "default_file_config = \<lparr>fc_trackers = default_trackers_config, fc_network = default_network_config\<rparr>"

text \<open>\<open>Path::join\<close>: an absolute second part replaces the first; one separator in between.\<close>

definition path_join :: "string \<Rightarrow> string \<Rightarrow> string" where
  "path_join base p =
     (if starts_with p ''/'' then p
      else if base = [] \<or> ends_with base ''/'' then base @ p
      else base @ ''/'' @ p)"

definition discover :: "(string \<Rightarrow> string option) \<Rightarrow> (string \<Rightarrow> bool) \<Rightarrow> string option" where
  "discover env is_file =
     find is_file
       ([''/etc/tornas/config.toml'']
        @ (case env ''XDG_CONFIG_HOME'' of Some x \<Rightarrow> [path_join x ''tornas/config.toml''] | None \<Rightarrow> [])
        @ (case env ''HOME'' of Some h \<Rightarrow> [path_join h ''.config/tornas/config.toml''] | None \<Rightarrow> []))"

definition config_load ::
  "(string \<Rightarrow> string) \<Rightarrow> (string \<Rightarrow> string option) \<Rightarrow> (string \<Rightarrow> bool) \<Rightarrow> (string \<Rightarrow> string result)
   \<Rightarrow> (string \<Rightarrow> file_config result) \<Rightarrow> string option \<Rightarrow> file_config result" where
  "config_load quote env is_file read_file toml_parse path =
     (case (case path of Some p \<Rightarrow> Some p | None \<Rightarrow> discover env is_file) of
        None \<Rightarrow> Inr default_file_config
      | Some p \<Rightarrow>
          (case with_context (''reading config '' @ quote p) (read_file p) of
             Inl e \<Rightarrow> Inl e
           | Inr text \<Rightarrow> with_context (''parsing config '' @ quote p) (toml_parse text)))"

section \<open>Flags over the file\<close>

definition source_url :: "string \<Rightarrow> string" where
  "source_url src = (case map_of known_sources src of Some u \<Rightarrow> u | None \<Rightarrow> src)"

definition add_source :: "string \<Rightarrow> source list \<Rightarrow> source list" where
  "add_source src sources =
     (let url = source_url src
      in if list_ex (\<lambda>x. src_url x = url) sources then sources
         else sources @ [\<lparr>src_name = src, src_url = url, src_enabled = True, src_schemes = None,
                          src_take = None\<rparr>])"

definition apply_overrides :: "server_opts \<Rightarrow> file_config \<Rightarrow> file_config" where
  "apply_overrides o' fc =
     (let net0 = fc_network fc;
          net1 = (if so_ipv4_only o' then net0\<lparr>nc_ipv6 := False\<rparr> else net0);
          net2 = (if so_allow_from o' \<noteq> [] then net1\<lparr>nc_allow_from := so_allow_from o'\<rparr> else net1);
          net3 = (if so_trusted_proxies o' \<noteq> [] then net2\<lparr>nc_trusted_proxies := so_trusted_proxies o'\<rparr>
                  else net2);
          t0 = fc_trackers fc;
          t1 = (if so_disable_trackers o' then t0\<lparr>tc_enabled := False\<rparr> else t0);
          t2 = (case so_tracker_schemes o' of Some s \<Rightarrow> t1\<lparr>tc_schemes := s\<rparr> | None \<Rightarrow> t1);
          t3 = t2\<lparr>tc_sources := fold add_source (so_tracker_sources o') (tc_sources t2)\<rparr>;
          st = tc_static t3;
          t4 = t3\<lparr>tc_static := st\<lparr>sl_add := sl_add st @ so_extra_trackers o'\<rparr>\<rparr>
      in \<lparr>fc_trackers = t4, fc_network = net3\<rparr>)"

definition resolve_file_config ::
  "(string \<Rightarrow> string) \<Rightarrow> (string \<Rightarrow> string option) \<Rightarrow> (string \<Rightarrow> bool) \<Rightarrow> (string \<Rightarrow> string result)
   \<Rightarrow> (string \<Rightarrow> file_config result) \<Rightarrow> server_opts \<Rightarrow> file_config result" where
  "resolve_file_config quote env is_file read_file toml_parse o' =
     (case config_load quote env is_file read_file toml_parse (so_config o') of
        Inl e \<Rightarrow> Inl e | Inr fc \<Rightarrow> Inr (apply_overrides o' fc))"

section \<open>Facts\<close>

lemma add_source_urls:
  "src_url ` set (add_source src ss) = insert (source_url src) (src_url ` set ss)"
  by (cases "source_url src \<in> src_url ` set ss") (force simp: add_source_def Let_def list_ex_iff)+

lemma add_source_distinct:
  "distinct (map src_url ss) \<Longrightarrow> distinct (map src_url (add_source src ss))"
  by (auto simp: add_source_def Let_def list_ex_iff)

lemma add_source_keeps: "\<exists>new. add_source src ss = ss @ new"
  by (simp add: add_source_def Let_def)

lemma fold_add_source:
  "src_url ` set (fold add_source srcs ss) =
     source_url ` set srcs \<union> src_url ` set ss"
  by (induction srcs arbitrary: ss) (auto simp: add_source_urls)

lemma fold_add_source_distinct:
  "distinct (map src_url ss) \<Longrightarrow> distinct (map src_url (fold add_source srcs ss))"
  by (induction srcs arbitrary: ss) (simp_all add: add_source_distinct)

lemma fold_add_source_keeps: "\<exists>new. fold add_source srcs ss = ss @ new"
proof (induction srcs arbitrary: ss)
  case (Cons s srcs)
  obtain a where "add_source s ss = ss @ a" using add_source_keeps by blast
  moreover obtain b where "fold add_source srcs (ss @ a) = (ss @ a) @ b" using Cons by blast
  ultimately show ?case by simp
qed simp

text \<open>Flags add to the sources of the file and never drop or reorder one; a source is added by
  its known name or its URL, and a URL that is already there is not added twice.\<close>

theorem flags_extend_sources:
  assumes "resolve_file_config quote env is_file read_file toml_parse o' = Inr fc"
    and "config_load quote env is_file read_file toml_parse (so_config o') = Inr base"
  shows "(\<exists>new. tc_sources (fc_trackers fc) = tc_sources (fc_trackers base) @ new)
    \<and> src_url ` set (tc_sources (fc_trackers fc)) =
        source_url ` set (so_tracker_sources o')
        \<union> src_url ` set (tc_sources (fc_trackers base))
    \<and> (distinct (map src_url (tc_sources (fc_trackers base)))
       \<longrightarrow> distinct (map src_url (tc_sources (fc_trackers fc))))"
proof -
  have "tc_sources (fc_trackers fc)
      = fold add_source (so_tracker_sources o') (tc_sources (fc_trackers base))"
    using assms by (auto simp: resolve_file_config_def apply_overrides_def Let_def split: option.splits)
  then show ?thesis
    using fold_add_source_keeps fold_add_source fold_add_source_distinct by metis
qed

theorem flags_extend_sources_witness:
  "src_url ` set (tc_sources (fc_trackers
       (apply_overrides (default_server_opts 1\<lparr>so_tracker_sources := [''xiu2-all'']\<rparr>) default_file_config)))
   = insert ''https://cf.trackerslist.com/all.txt'' (src_url ` set default_sources)"
proof -
  let ?o = "default_server_opts 1\<lparr>so_tracker_sources := [''xiu2-all'']\<rparr>"
  have load: "config_load id (\<lambda>_. None) (\<lambda>_. False) (\<lambda>_. Inl (bail [])) (\<lambda>_. Inl (bail [])) (so_config ?o)
      = Inr default_file_config"
    by (simp add: config_load_def discover_def default_server_opts_def)
  then have "resolve_file_config id (\<lambda>_. None) (\<lambda>_. False) (\<lambda>_. Inl (bail [])) (\<lambda>_. Inl (bail [])) ?o
      = Inr (apply_overrides ?o default_file_config)"
    by (simp add: resolve_file_config_def)
  from flags_extend_sources [OF this load] show ?thesis
    by (simp add: source_url_def known_sources_def default_file_config_def
        default_trackers_config_def default_server_opts_def)
qed

text \<open>The access rules of the command line replace those of the file only when some are given,
  so no flag set to nothing can open or close the server; the trackers are off as soon as one
  of the two says so.\<close>

theorem flags_override_file:
  "nc_allow_from (fc_network (apply_overrides o' fc)) =
      (if so_allow_from o' = [] then nc_allow_from (fc_network fc) else so_allow_from o')
   \<and> nc_trusted_proxies (fc_network (apply_overrides o' fc)) =
      (if so_trusted_proxies o' = [] then nc_trusted_proxies (fc_network fc) else so_trusted_proxies o')
   \<and> (nc_ipv6 (fc_network (apply_overrides o' fc)) \<longleftrightarrow> nc_ipv6 (fc_network fc) \<and> \<not> so_ipv4_only o')
   \<and> (tc_enabled (fc_trackers (apply_overrides o' fc)) \<longleftrightarrow>
        tc_enabled (fc_trackers fc) \<and> \<not> so_disable_trackers o')"
  by (auto simp: apply_overrides_def Let_def split: option.splits)

end
