(* ===== verification/Engine_State.thy ===== *)
theory Engine_State
  imports Media_Catalog Config Utils_Size
begin

text \<open>
  The state of the engine, \<open>engine.rs\<close>, and the torrent session it drives. The session is the
  \<open>librqbit\<close> crate: its operations are a record parameter over an unknown state, with the laws the
  engine relies on in \<open>session_laws\<close>. Everything else outside the program (the clock, the disk, the
  URL parser, the metadata service) is one record \<open>world\<close>. A handler runs under one reading of the
  clock. Handlers that take the engine's \<open>add_lock\<close> run one after the other; the model makes every
  handler one step. Log lines are left out; the event log and the counters are kept.
\<close>

section \<open>The torrent session\<close>

record handle =
  h_id :: nat
  h_hash :: string

datatype run_state = St_Initializing | St_Live | St_Paused | St_Error

record live_stats =
  lv_download_bps :: u64
  lv_upload_bps :: u64
  lv_peers_live :: u32

record torrent_stats =
  st_state :: run_state
  st_finished :: bool
  st_progress_bytes :: u64
  st_total_bytes :: u64
  st_live :: "live_stats option"

datatype add_source = From_Bytes string | From_Url string

record add_options =
  ao_list_only :: bool
  ao_overwrite :: bool
  ao_only_files :: "u64 list option"
  ao_initial_peers :: "string list option"
  ao_trackers :: "string list option"
  ao_paused :: bool
  ao_download_bps :: "u32 option"
  ao_upload_bps :: "u32 option"
  ao_peer_limit :: "u64 option"

definition default_add_options :: add_options where
  "default_add_options =
     \<lparr>ao_list_only = False, ao_overwrite = False, ao_only_files = None, ao_initial_peers = None,
      ao_trackers = None, ao_paused = False, ao_download_bps = None, ao_upload_bps = None,
      ao_peer_limit = None\<rparr>"

record listing =
  li_info_hash :: string
  li_private :: bool
  li_files :: "(string \<times> u64) list"
  li_torrent_bytes :: string

datatype add_response = List_Only listing | Added handle | Already_Managed handle

text \<open>
  \<open>rq_get\<close> is the session's lookup by info hash, which fails for a text that is no hash;
  \<open>rq_metadata\<close> gives a torrent's private flag and its torrent file once they are known.
\<close>

record 's librqbit =
  rq_handles :: "'s \<Rightarrow> handle list"
  rq_get :: "'s \<Rightarrow> string \<Rightarrow> handle option"
  rq_stats :: "'s \<Rightarrow> handle \<Rightarrow> torrent_stats"
  rq_is_paused :: "'s \<Rightarrow> handle \<Rightarrow> bool"
  rq_name :: "'s \<Rightarrow> handle \<Rightarrow> string"
  rq_metadata :: "'s \<Rightarrow> handle \<Rightarrow> (bool \<times> string) option"
  rq_piece_map :: "'s \<Rightarrow> handle \<Rightarrow> string option"
  rq_live_peers :: "'s \<Rightarrow> handle \<Rightarrow> string list"
  rq_pause :: "handle \<Rightarrow> 's \<Rightarrow> unit result \<times> 's"
  rq_unpause :: "handle \<Rightarrow> 's \<Rightarrow> unit result \<times> 's"
  rq_delete :: "nat \<Rightarrow> bool \<Rightarrow> 's \<Rightarrow> unit result \<times> 's"
  rq_add :: "add_source \<Rightarrow> add_options \<Rightarrow> 's \<Rightarrow> add_response result \<times> 's"
  rq_stop :: "'s \<Rightarrow> 's"

definition finished :: "'s librqbit \<Rightarrow> 's \<Rightarrow> handle \<Rightarrow> bool" where
  "finished rq s h = st_finished (rq_stats rq s h)"

definition errored :: "'s librqbit \<Rightarrow> 's \<Rightarrow> handle \<Rightarrow> bool" where
  "errored rq s h = (st_state (rq_stats rq s h) = St_Error)"

text \<open>Two sessions that agree on the torrents and on each one's progress; pausing changes less.\<close>

definition same_torrents :: "'s librqbit \<Rightarrow> 's \<Rightarrow> 's \<Rightarrow> bool" where
  "same_torrents rq s s' \<longleftrightarrow>
     rq_handles rq s' = rq_handles rq s \<and> rq_get rq s' = rq_get rq s
     \<and> finished rq s' = finished rq s \<and> errored rq s' = errored rq s"

text \<open>
  What the engine relies on: a lookup by hash finds a listed torrent of that hash; pausing and
  resuming change the paused flag of the one torrent when they succeed and nothing when they
  fail; deleting removes exactly the torrents of that id, or nothing when it fails, and leaves the
  others as they were.
\<close>

definition session_laws :: "'s librqbit \<Rightarrow> bool" where
  "session_laws rq \<longleftrightarrow>
     (\<forall>s x h. rq_get rq s x = Some h \<longrightarrow> h \<in> set (rq_handles rq s) \<and> h_hash h = x) \<and>
     (\<forall>s h. h \<in> set (rq_handles rq s) \<longrightarrow> rq_get rq s (h_hash h) = Some h) \<and>
     (\<forall>s h. same_torrents rq s (snd (rq_pause rq h s))) \<and>
     (\<forall>s h h'. rq_is_paused rq (snd (rq_pause rq h s)) h' =
        (rq_is_paused rq s h' \<or> h' = h \<and> is_ok (fst (rq_pause rq h s)))) \<and>
     (\<forall>s h. same_torrents rq s (snd (rq_unpause rq h s))) \<and>
     (\<forall>s h h'. rq_is_paused rq (snd (rq_unpause rq h s)) h' =
        (rq_is_paused rq s h' \<and> \<not> (h' = h \<and> is_ok (fst (rq_unpause rq h s))))) \<and>
     (\<forall>s i del. rq_handles rq (snd (rq_delete rq i del s)) =
        (if is_ok (fst (rq_delete rq i del s))
         then filter (\<lambda>h. h_id h \<noteq> i) (rq_handles rq s) else rq_handles rq s)) \<and>
     (\<forall>s i del h. h_id h \<noteq> i \<longrightarrow>
        rq_is_paused rq (snd (rq_delete rq i del s)) h = rq_is_paused rq s h
        \<and> finished rq (snd (rq_delete rq i del s)) h = finished rq s h
        \<and> errored rq (snd (rq_delete rq i del s)) h = errored rq s h)"

text \<open>
  Adding: a listing changes nothing; a torrent is added only when none of its hash is there, and
  it enters with the paused flag asked for, under a new id, and nothing else changes; a failed or
  repeated addition changes nothing.
\<close>

definition unchanged :: "'s librqbit \<Rightarrow> 's \<Rightarrow> 's \<Rightarrow> bool" where
  "unchanged rq s s' \<longleftrightarrow> same_torrents rq s s' \<and> rq_is_paused rq s' = rq_is_paused rq s"

definition add_laws :: "'s librqbit \<Rightarrow> bool" where
  "add_laws rq \<longleftrightarrow>
     (\<forall>src ao s. ao_list_only ao \<longrightarrow> unchanged rq s (snd (rq_add rq src ao s))) \<and>
     (\<forall>src ao s h. fst (rq_add rq src ao s) = Inr (Already_Managed h) \<longrightarrow> h \<in> set (rq_handles rq s)) \<and>
     (\<forall>src ao s. (\<forall>h. fst (rq_add rq src ao s) \<noteq> Inr (Added h)) \<longrightarrow>
        unchanged rq s (snd (rq_add rq src ao s))) \<and>
     (\<forall>src ao s h. fst (rq_add rq src ao s) = Inr (Added h) \<longrightarrow> \<not> ao_list_only ao \<longrightarrow>
        rq_get rq s (h_hash h) = None \<and> h_id h \<notin> h_id ` set (rq_handles rq s)
        \<and> set (rq_handles rq (snd (rq_add rq src ao s))) = insert h (set (rq_handles rq s))
        \<and> rq_is_paused rq (snd (rq_add rq src ao s)) = (rq_is_paused rq s)(h := ao_paused ao))"

section \<open>The engine\<close>

datatype pause_reason = Manual | DiskMissing

record pause_state =
  ps_since :: i64
  ps_until :: "i64 option"
  ps_reason :: pause_reason

datatype counter =
    Adds string | Evictions | Evicted_Bytes | Tmdb_Errors | Removals | Seeding_Paused
  | Stalled_Evictions | Pauses | Resumes string

record 's engine =
  en_session :: 's
  en_library :: media_catalog
  en_opts :: server_opts
  en_file_config :: file_config
  en_trackers :: tracker_feed
  en_pause :: "pause_state option"
  en_disk_missing :: bool
  en_progress_seen :: "string \<Rightarrow> (u64 \<times> i64) option"
  en_files :: "string \<Rightarrow> string option"
  en_counters :: "counter \<Rightarrow> u64"

record tmdb_movie =
  tm_tmdb_id :: i64
  tm_title :: string
  tm_year :: "32 word option"
  tm_overview :: "string option"
  tm_poster_url :: "string option"
  tm_backdrop_url :: "string option"
  tm_runtime_min :: "i64 option"
  tm_genres :: "string list"
  tm_rating :: "rat option"
  tm_raw :: string

text \<open>
  \<open>wd_encode_pause\<close> and \<open>wd_decode_pause\<close> are \<open>serde_json\<close> on the pause file; \<open>wd_write_error\<close> says which paths cannot be written; \<open>wd_disk\<close> whether the data disk is on its
  own filesystem, its directory readable and its device present.
\<close>

record 's world =
  wd_rq :: "'s librqbit"
  wd_now :: i64
  wd_url_parse :: url_parser
  wd_quote :: "string \<Rightarrow> string"
  wd_disk_usage :: "(u64 \<times> u64) result"
  wd_disk :: "bool result \<times> bool \<times> bool"
  wd_write_error :: "string \<Rightarrow> anyhow option"
  wd_tmdb :: "(string \<Rightarrow> tmdb_movie result) option"
  wd_http_get :: "string \<Rightarrow> http_answer result"
  wd_base64 :: "string \<Rightarrow> string result"
  wd_lookup_host :: "string \<Rightarrow> string list result"
  wd_show_duration :: "duration \<Rightarrow> string"
  wd_encode_pause :: "pause_state \<Rightarrow> string"
  wd_decode_pause :: "string \<Rightarrow> pause_state option"
  wd_managed :: bool
  wd_host_has_disk :: bool

section \<open>Shared helpers\<close>

abbreviation store :: "'s engine \<Rightarrow> catalog" where
  "store e \<equiv> mc_store (en_library e)"

definition set_store :: "catalog \<Rightarrow> 's engine \<Rightarrow> 's engine" where
  "set_store c e = e\<lparr>en_library := (en_library e)\<lparr>mc_store := c\<rparr>\<rparr>"

definition set_session :: "'s \<Rightarrow> 's engine \<Rightarrow> 's engine" where
  "set_session s e = e\<lparr>en_session := s\<rparr>"

definition count :: "counter \<Rightarrow> u64 \<Rightarrow> 's engine \<Rightarrow> 's engine" where
  "count k n e = e\<lparr>en_counters := (en_counters e)(k := en_counters e k + n)\<rparr>"

definition log_event :: "'s world \<Rightarrow> string \<Rightarrow> string \<Rightarrow> 's engine \<Rightarrow> 's engine" where
  "log_event W k msg e = set_store (add_event (wd_now W) k msg (store e)) e"

definition write_file :: "'s world \<Rightarrow> string \<Rightarrow> string \<Rightarrow> 's engine \<Rightarrow> unit result \<times> 's engine" where
  "write_file W path text e =
     (case wd_write_error W path of
        Some err \<Rightarrow> (Inl err, e)
      | None \<Rightarrow> (Inr (), e\<lparr>en_files := (en_files e)(path \<mapsto> text)\<rparr>))"

definition handle_for :: "'s world \<Rightarrow> 's engine \<Rightarrow> string \<Rightarrow> handle option" where
  "handle_for W e info_hash = rq_get (wd_rq W) (en_session e) info_hash"

definition is_paused :: "'s engine \<Rightarrow> bool" where
  "is_paused e \<longleftrightarrow> en_pause e \<noteq> None"

definition is_disk_missing :: "'s engine \<Rightarrow> bool" where
  "is_disk_missing e = en_disk_missing e"

definition state_label :: "torrent_stats \<Rightarrow> string" where
  "state_label st =
     (case st_state st of
        St_Initializing \<Rightarrow> ''checking''
      | St_Live \<Rightarrow> if st_finished st then ''seeding'' else ''downloading''
      | St_Paused \<Rightarrow> if st_finished st then ''done'' else ''paused''
      | St_Error \<Rightarrow> ''error'')"

definition video_extensions :: "string list" where
  "video_extensions = [''mp4'', ''mkv'', ''avi'', ''mov'', ''webm'', ''m4v'', ''ts'', ''wmv'']"

definition is_video :: "string \<Rightarrow> bool" where
  "is_video name =
     list_ex (\<lambda>ext. ends_with (to_ascii_lowercase name) (''.'' @ ext)) video_extensions"

text \<open>Paths below the data directory.\<close>

definition meta_path :: "'s engine \<Rightarrow> string \<Rightarrow> string" where
  "meta_path e info_hash =
     path_join (path_join (so_data_dir (en_opts e)) ''meta'') (info_hash @ ''.torrent'')"

definition bitv_path :: "'s engine \<Rightarrow> string \<Rightarrow> string" where
  "bitv_path e info_hash =
     path_join (path_join (so_data_dir (en_opts e)) ''session'') (info_hash @ ''.bitv'')"

definition pause_file :: "'s engine \<Rightarrow> string" where
  "pause_file e = path_join (so_data_dir (en_opts e)) ''pause.json''"

section \<open>Facts\<close>

lemma set_store_simps [simp]:
  "store (set_store c e) = c"
  "en_session (set_store c e) = en_session e" "en_opts (set_store c e) = en_opts e"
  "en_pause (set_store c e) = en_pause e" "en_disk_missing (set_store c e) = en_disk_missing e"
  "en_files (set_store c e) = en_files e" "en_trackers (set_store c e) = en_trackers e"
  "en_progress_seen (set_store c e) = en_progress_seen e"
  "mc_budget (en_library (set_store c e)) = mc_budget (en_library e)"
  "mc_min_free (en_library (set_store c e)) = mc_min_free (en_library e)"
  "mc_stream_grace (en_library (set_store c e)) = mc_stream_grace (en_library e)"
  by (simp_all add: set_store_def)

lemma set_session_simps [simp]:
  "en_session (set_session s e) = s" "en_library (set_session s e) = en_library e"
  "en_opts (set_session s e) = en_opts e" "en_pause (set_session s e) = en_pause e"
  "en_disk_missing (set_session s e) = en_disk_missing e" "en_files (set_session s e) = en_files e"
  "en_trackers (set_session s e) = en_trackers e"
  "en_progress_seen (set_session s e) = en_progress_seen e"
  by (simp_all add: set_session_def)

lemma count_simps [simp]:
  "en_session (count k n e) = en_session e" "en_library (count k n e) = en_library e"
  "en_opts (count k n e) = en_opts e" "en_pause (count k n e) = en_pause e"
  "en_disk_missing (count k n e) = en_disk_missing e" "en_files (count k n e) = en_files e"
  "en_trackers (count k n e) = en_trackers e"
  "en_progress_seen (count k n e) = en_progress_seen e"
  by (simp_all add: count_def)

lemma log_event_simps [simp]:
  "en_session (log_event W k m e) = en_session e" "en_opts (log_event W k m e) = en_opts e"
  "en_pause (log_event W k m e) = en_pause e"
  "en_disk_missing (log_event W k m e) = en_disk_missing e"
  "en_files (log_event W k m e) = en_files e" "en_trackers (log_event W k m e) = en_trackers e"
  "en_progress_seen (log_event W k m e) = en_progress_seen e"
  "store (log_event W k m e) = add_event (wd_now W) k m (store e)"
  "mc_budget (en_library (log_event W k m e)) = mc_budget (en_library e)"
  "mc_min_free (en_library (log_event W k m e)) = mc_min_free (en_library e)"
  "mc_stream_grace (en_library (log_event W k m e)) = mc_stream_grace (en_library e)"
  by (simp_all add: log_event_def)

lemma handle_for_frame [simp]:
  "handle_for W (count k n e) h = handle_for W e h"
  "handle_for W (log_event W' k' m e) h = handle_for W e h"
  "handle_for W (set_store c e) h = handle_for W e h"
  by (simp_all add: handle_for_def)

lemma session_get_listed:
  "session_laws rq \<Longrightarrow> rq_get rq s x = Some h \<Longrightarrow> h \<in> set (rq_handles rq s) \<and> h_hash h = x"
  by (simp add: session_laws_def)

lemma session_listed_get: "session_laws rq \<Longrightarrow> h \<in> set (rq_handles rq s) \<Longrightarrow> rq_get rq s (h_hash h) = Some h"
  by (simp add: session_laws_def)

lemma pause_same: "session_laws rq \<Longrightarrow> same_torrents rq s (snd (rq_pause rq h s))"
  by (simp add: session_laws_def)

lemma pause_flag:
  "session_laws rq \<Longrightarrow> rq_is_paused rq (snd (rq_pause rq h s)) h' =
     (rq_is_paused rq s h' \<or> h' = h \<and> is_ok (fst (rq_pause rq h s)))"
  by (simp add: session_laws_def)

lemma unpause_same: "session_laws rq \<Longrightarrow> same_torrents rq s (snd (rq_unpause rq h s))"
  by (simp add: session_laws_def)

lemma unpause_flag:
  "session_laws rq \<Longrightarrow> rq_is_paused rq (snd (rq_unpause rq h s)) h' =
     (rq_is_paused rq s h' \<and> \<not> (h' = h \<and> is_ok (fst (rq_unpause rq h s))))"
  by (simp add: session_laws_def)

lemma delete_handles:
  "session_laws rq \<Longrightarrow> rq_handles rq (snd (rq_delete rq i del s)) =
     (if is_ok (fst (rq_delete rq i del s))
      then filter (\<lambda>h. h_id h \<noteq> i) (rq_handles rq s) else rq_handles rq s)"
  by (simp add: session_laws_def)

lemma add_lists:
  "add_laws rq \<Longrightarrow> ao_list_only ao \<Longrightarrow> unchanged rq s (snd (rq_add rq src ao s))"
  by (simp add: add_laws_def)

lemma add_refused:
  "add_laws rq \<Longrightarrow> (\<And>h. fst (rq_add rq src ao s) \<noteq> Inr (Added h)) \<Longrightarrow>
   unchanged rq s (snd (rq_add rq src ao s))"
  by (simp add: add_laws_def)

lemma add_managed:
  "add_laws rq \<Longrightarrow> fst (rq_add rq src ao s) = Inr (Already_Managed h) \<Longrightarrow> h \<in> set (rq_handles rq s)"
  unfolding add_laws_def by blast

lemma add_added:
  assumes "add_laws rq" and "fst (rq_add rq src ao s) = Inr (Added h)" and "\<not> ao_list_only ao"
  shows "rq_get rq s (h_hash h) = None" and "h_id h \<notin> h_id ` set (rq_handles rq s)"
    and "set (rq_handles rq (snd (rq_add rq src ao s))) = insert h (set (rq_handles rq s))"
    and "rq_is_paused rq (snd (rq_add rq src ao s)) = (rq_is_paused rq s)(h := ao_paused ao)"
  using assms unfolding add_laws_def by blast+

lemma delete_flag:
  "session_laws rq \<Longrightarrow> h_id h \<noteq> i \<Longrightarrow> rq_is_paused rq (snd (rq_delete rq i del s)) h = rq_is_paused rq s h"
  unfolding session_laws_def by blast

lemma same_torrents_refl [simp]: "same_torrents rq s s"
  by (simp add: same_torrents_def)

lemma same_torrents_trans:
  "same_torrents rq s s' \<Longrightarrow> same_torrents rq s' s'' \<Longrightarrow> same_torrents rq s s''"
  by (simp add: same_torrents_def)

end
