(* ===== verification/Memory_Session.thy ===== *)
theory Memory_Session
  imports Engine_State "HOL-Library.DAList"
begin

text \<open>
  An instance of the session interface that keeps its torrents in an association list by info
  hash. It shows that \<open>session_laws\<close> can hold, and the witnesses of the engine's properties run on it.
\<close>

type_synonym memory_session = "(string, nat \<times> torrent_stats \<times> bool) alist"

definition mem_handles :: "memory_session \<Rightarrow> handle list" where
  "mem_handles s = map (\<lambda>(x, i, st, p). \<lparr>h_id = i, h_hash = x\<rparr>) (DAList.impl_of s)"

definition mem_get :: "memory_session \<Rightarrow> string \<Rightarrow> handle option" where
  "mem_get s x = map_option (\<lambda>(i, st, p). \<lparr>h_id = i, h_hash = x\<rparr>) (DAList.lookup s x)"

definition mem_entry :: "memory_session \<Rightarrow> handle \<Rightarrow> (torrent_stats \<times> bool) option" where
  "mem_entry s h =
     (case DAList.lookup s (h_hash h) of
        Some (i, st, p) \<Rightarrow> if i = h_id h then Some (st, p) else None | None \<Rightarrow> None)"

definition mem_stats :: "memory_session \<Rightarrow> handle \<Rightarrow> torrent_stats" where
  "mem_stats s h =
     (case mem_entry s h of
        Some (st, p) \<Rightarrow> st
      | None \<Rightarrow> \<lparr>st_state = St_Error, st_finished = False, st_progress_bytes = 0, st_total_bytes = 0,
                 st_live = None\<rparr>)"

definition mem_is_paused :: "memory_session \<Rightarrow> handle \<Rightarrow> bool" where
  "mem_is_paused s h = (case mem_entry s h of Some (st, p) \<Rightarrow> p | None \<Rightarrow> False)"

definition mem_set :: "bool \<Rightarrow> handle \<Rightarrow> memory_session \<Rightarrow> unit result \<times> memory_session" where
  "mem_set paused h s =
     (case mem_entry s h of
        Some (st, p) \<Rightarrow> (Inr (), DAList.update (h_hash h) (h_id h, st, paused) s)
      | None \<Rightarrow> (Inl (bail ''no such torrent''), s))"

definition mem_delete :: "nat \<Rightarrow> bool \<Rightarrow> memory_session \<Rightarrow> unit result \<times> memory_session" where
  "mem_delete i files s = (Inr (), DAList.filter (\<lambda>(x, j, st, p). j \<noteq> i) s)"

definition mem_next_id :: "memory_session \<Rightarrow> nat" where
  "mem_next_id s = (if mem_handles s = [] then 0 else Suc (Max (h_id ` set (mem_handles s))))"

definition mem_add :: "add_source \<Rightarrow> add_options \<Rightarrow> memory_session \<Rightarrow> add_response result \<times> memory_session" where
  "mem_add src opts s =
     (let x = (case src of From_Bytes b \<Rightarrow> b | From_Url u \<Rightarrow> u)
      in if ao_list_only opts
         then (Inr (List_Only \<lparr>li_info_hash = x, li_private = False, li_files = [(x @ ''.mp4'', 10)],
                               li_torrent_bytes = x\<rparr>), s)
         else case mem_get s x of
                Some h \<Rightarrow> (Inr (Already_Managed h), s)
              | None \<Rightarrow>
                  (Inr (Added \<lparr>h_id = mem_next_id s, h_hash = x\<rparr>),
                   DAList.update x (mem_next_id s, \<lparr>st_state = St_Live, st_finished = False,
                     st_progress_bytes = 0, st_total_bytes = 10, st_live = None\<rparr>, ao_paused opts) s))"

definition mem_session :: "memory_session librqbit" where
  "mem_session =
     \<lparr>rq_handles = mem_handles, rq_get = mem_get, rq_stats = mem_stats, rq_is_paused = mem_is_paused,
      rq_name = (\<lambda>s h. h_hash h), rq_metadata = (\<lambda>s h. Some (False, h_hash h)),
      rq_piece_map = (\<lambda>s h. None), rq_live_peers = (\<lambda>s h. []), rq_pause = mem_set True,
      rq_unpause = mem_set False, rq_delete = mem_delete, rq_add = mem_add, rq_stop = id\<rparr>"

lemma mem_session_simps [simp]:
  "rq_handles mem_session = mem_handles" "rq_get mem_session = mem_get"
  "rq_stats mem_session = mem_stats" "rq_is_paused mem_session = mem_is_paused"
  "rq_pause mem_session = mem_set True" "rq_unpause mem_session = mem_set False"
  "rq_delete mem_session = mem_delete" "rq_add mem_session = mem_add"
  by (simp_all add: mem_session_def)

lemma lookup_in: "DAList.lookup s x = Some v \<longleftrightarrow> (x, v) \<in> set (DAList.impl_of s)"
  by (simp add: DAList.lookup_def)

lemma mem_get_listed: "mem_get s x = Some h \<longleftrightarrow> h \<in> set (mem_handles s) \<and> h_hash h = x"
  by (force simp: mem_get_def mem_handles_def lookup_in)

lemma map_update_same:
  "map_of xs k = Some v \<Longrightarrow> (\<And>a. f (k, v) = f (k, w)) \<Longrightarrow> map f (AList.update k w xs) = map f xs"
  by (induction xs) auto

lemma mem_set_handles: "mem_handles (snd (mem_set paused h s)) = mem_handles s"
proof (cases "mem_entry s h")
  case (Some e)
  obtain st p where l: "DAList.lookup s (h_hash h) = Some (h_id h, st, p)" and e: "e = (st, p)"
    using Some by (auto simp: mem_entry_def split: option.splits if_splits)
  then show ?thesis
    using Some by (simp add: mem_set_def mem_handles_def DAList.lookup_def DAList.update.rep_eq
        map_update_same [where v = "(h_id h, st, p)"])
qed (simp add: mem_set_def)

lemma mem_set_entry:
  "mem_entry (snd (mem_set paused h s)) h' =
     (if h' = h then map_option (\<lambda>(st, p). (st, paused)) (mem_entry s h') else mem_entry s h')"
proof (cases "mem_entry s h")
  case (Some e)
  then obtain st p where l: "DAList.lookup s (h_hash h) = Some (h_id h, st, p)" and e: "e = (st, p)"
    by (auto simp: mem_entry_def split: option.splits if_splits)
  have "mem_entry (snd (mem_set paused h s)) h' =
      (case (if h_hash h' = h_hash h then Some (h_id h, st, paused) else DAList.lookup s (h_hash h')) of
        Some (i, st, p) \<Rightarrow> if i = h_id h' then Some (st, p) else None | None \<Rightarrow> None)"
    using Some by (auto simp: mem_set_def e mem_entry_def lookup_update)
  also have "\<dots> = (if h' = h then map_option (\<lambda>(st, p). (st, paused)) (mem_entry s h') else mem_entry s h')"
    using l by (cases h; cases h') (auto simp: mem_entry_def)
  finally show ?thesis .
qed (auto simp: mem_set_def)

lemma mem_set_ok: "is_ok (fst (mem_set paused h s)) \<longleftrightarrow> mem_entry s h \<noteq> None"
  by (auto simp: mem_set_def split: option.splits)

lemma option_eqI: "(\<And>y. a = Some y \<longleftrightarrow> b = Some y) \<Longrightarrow> a = b"
  by (cases a; cases b) auto

lemma mem_set_same: "same_torrents mem_session s (snd (mem_set paused h s))"
proof -
  have handles: "mem_handles (snd (mem_set paused h s)) = mem_handles s" by (rule mem_set_handles)
  have "mem_get (snd (mem_set paused h s)) x = mem_get s x" for x
    by (rule option_eqI) (simp add: mem_get_listed handles)
  moreover have "mem_stats (snd (mem_set paused h s)) h' = mem_stats s h'" for h'
    by (auto simp: mem_stats_def mem_set_entry split: option.splits)
  ultimately show ?thesis
    using handles by (auto simp: same_torrents_def finished_def errored_def)
qed

lemma mem_delete_entry:
  assumes "h_id h \<noteq> i" shows "mem_entry (snd (mem_delete i files s)) h = mem_entry s h"
proof -
  let ?s = "snd (mem_delete i files s)"
  have "DAList.lookup ?s (h_hash h) = Some v \<longleftrightarrow> DAList.lookup s (h_hash h) = Some v \<and> fst v \<noteq> i" for v
    by (cases v) (auto simp: mem_delete_def lookup_in DAList.filter.rep_eq)
  then have "DAList.lookup ?s (h_hash h) =
      (case DAList.lookup s (h_hash h) of Some v \<Rightarrow> if fst v = i then None else Some v | None \<Rightarrow> None)"
    by (intro option_eqI) (auto split: option.splits)
  with assms show ?thesis by (auto simp: mem_entry_def split: option.splits)
qed

lemma memory_session_laws: "session_laws mem_session"
  unfolding session_laws_def
proof (intro conjI allI impI)
  fix s :: memory_session and h h' :: handle and x i del
  show "rq_get mem_session s x = Some h \<Longrightarrow> h \<in> set (rq_handles mem_session s)"
    and "rq_get mem_session s x = Some h \<Longrightarrow> h_hash h = x"
    and "h \<in> set (rq_handles mem_session s) \<Longrightarrow> rq_get mem_session s (h_hash h) = Some h"
    by (simp_all add: mem_get_listed)
  show "same_torrents mem_session s (snd (rq_pause mem_session h s))"
    and "same_torrents mem_session s (snd (rq_unpause mem_session h s))"
    by (simp_all add: mem_set_same)
  show "rq_is_paused mem_session (snd (rq_pause mem_session h s)) h' =
      (rq_is_paused mem_session s h' \<or> h' = h \<and> is_ok (fst (rq_pause mem_session h s)))"
    and "rq_is_paused mem_session (snd (rq_unpause mem_session h s)) h' =
      (rq_is_paused mem_session s h' \<and> \<not> (h' = h \<and> is_ok (fst (rq_unpause mem_session h s))))"
    by (auto simp: mem_is_paused_def mem_set_entry mem_set_ok split: option.splits)
  show "rq_handles mem_session (snd (rq_delete mem_session i del s)) =
      (if is_ok (fst (rq_delete mem_session i del s))
       then filter (\<lambda>h. h_id h \<noteq> i) (rq_handles mem_session s) else rq_handles mem_session s)"
    by (simp add: mem_delete_def mem_handles_def DAList.filter.rep_eq filter_map o_def
        case_prod_beta')
  show "rq_is_paused mem_session (snd (rq_delete mem_session i del s)) h = rq_is_paused mem_session s h"
    and "finished mem_session (snd (rq_delete mem_session i del s)) h = finished mem_session s h"
    and "errored mem_session (snd (rq_delete mem_session i del s)) h = errored mem_session s h"
    if "h_id h \<noteq> i"
    using mem_delete_entry [OF that, of del s]
    by (simp_all add: mem_is_paused_def finished_def errored_def mem_stats_def)
qed

lemma mem_add_laws: "add_laws mem_session"
proof -
  have fresh: "h_id h \<noteq> mem_next_id s" if "h \<in> set (mem_handles s)" for h s
  proof -
    have "h_id h \<le> Max (h_id ` set (mem_handles s))" using that by simp
    then have "h_id h < Suc (Max (h_id ` set (mem_handles s)))" by (simp only: le_imp_less_Suc)
    then show "h_id h \<noteq> mem_next_id s" using that by (auto simp: mem_next_id_def simp del: not_less_eq)
  qed
  have added: "set (mem_handles (DAList.update x (i, st, p) s)) = insert \<lparr>h_id = i, h_hash = x\<rparr> (set (mem_handles s))
      \<and> mem_is_paused (DAList.update x (i, st, p) s) = (mem_is_paused s)(\<lparr>h_id = i, h_hash = x\<rparr> := p)"
    if none: "mem_get s x = None" for s x i st p
  proof
    have l: "DAList.lookup s x = None" using none by (simp add: mem_get_def)
    have "h \<in> set (mem_handles (DAList.update x (i, st, p) s)) \<longleftrightarrow>
        h = \<lparr>h_id = i, h_hash = x\<rparr> \<or> h \<in> set (mem_handles s)" for h
    proof -
      have "h \<in> set (mem_handles t) \<longleftrightarrow> mem_get t (h_hash h) = Some h" for t
        by (simp add: mem_get_listed)
      then show ?thesis using l
        by (cases h) (auto simp: mem_get_def lookup_update)
    qed
    then show "set (mem_handles (DAList.update x (i, st, p) s)) =
        insert \<lparr>h_id = i, h_hash = x\<rparr> (set (mem_handles s))" by blast
    show "mem_is_paused (DAList.update x (i, st, p) s) =
        (mem_is_paused s)(\<lparr>h_id = i, h_hash = x\<rparr> := p)"
    proof
      fix h :: handle
      show "mem_is_paused (DAList.update x (i, st, p) s) h =
          ((mem_is_paused s)(\<lparr>h_id = i, h_hash = x\<rparr> := p)) h"
        using l by (cases h) (auto simp: mem_is_paused_def mem_entry_def lookup_update split: option.splits)
    qed
  qed
  show ?thesis
    unfolding add_laws_def
    using fresh [symmetric] added
    by (auto simp: mem_add_def Let_def unchanged_def mem_get_listed image_iff split: option.splits if_splits)
qed

section \<open>An example engine\<close>

definition example_stats :: "bool \<Rightarrow> torrent_stats" where
  "example_stats fin = \<lparr>st_state = (if fin then St_Paused else St_Live), st_finished = fin,
     st_progress_bytes = 5, st_total_bytes = 10, st_live = None\<rparr>"

definition example_session :: memory_session where
  "example_session =
     DAList.update ''aa'' (0, example_stats True, True)
       (DAList.update ''bb'' (1, example_stats False, False) DAList.empty)"

text \<open>A codec for the pause file: three fields with commas between.\<close>

definition example_encode :: "pause_state \<Rightarrow> string" where
  "example_encode st =
     join_with [CHR '','']
       [show_nat (unat (ps_since st)),
        case ps_until st of None \<Rightarrow> ''-'' | Some u \<Rightarrow> show_nat (unat u),
        case ps_reason st of Manual \<Rightarrow> ''m'' | DiskMissing \<Rightarrow> ''d'']"

definition example_decode :: "string \<Rightarrow> pause_state option" where
  "example_decode s =
     (case split_char CHR '','' s of
        [since, till, reason] \<Rightarrow>
          map_option (\<lambda>n. \<lparr>ps_since = of_nat n,
              ps_until = (if till = ''-'' then None else map_option of_nat (parse_unsigned 64 till)),
              ps_reason = (if reason = ''m'' then Manual else DiskMissing)\<rparr>)
            (parse_unsigned 64 since)
      | _ \<Rightarrow> None)"

lemma example_codec: "example_decode (example_encode p) = Some p"
proof -
  have digits: "CHR '','' \<notin> set (show_nat n)" "show_nat n \<noteq> ''-''" for n
    using show_nat_digits [of "CHR '',''" n] show_nat_digits [of "CHR ''-''" n]
    by (auto simp: is_ascii_digit_def)
  have read: "parse_unsigned 64 (show_nat (unat w)) = Some (unat w)" for w :: "64 word"
    using unsigned_less [of w] by (intro parse_show_nat) simp
  have "split_char CHR '','' (example_encode p) =
      [show_nat (unat (ps_since p)),
       case ps_until p of None \<Rightarrow> ''-'' | Some u \<Rightarrow> show_nat (unat u),
       case ps_reason p of Manual \<Rightarrow> ''m'' | DiskMissing \<Rightarrow> ''d'']"
    unfolding example_encode_def
    by (rule split_join) (auto simp: digits split: option.splits pause_reason.splits)
  then show ?thesis
    by (cases p) (auto simp: example_decode_def digits read split: option.splits pause_reason.splits)
qed

definition example_world :: "i64 \<Rightarrow> memory_session world" where
  "example_world now =
     \<lparr>wd_rq = mem_session, wd_now = now, wd_url_parse = example_url_parse, wd_quote = id,
      wd_disk_usage = Inr (1000, 2000), wd_disk = (Inr True, True, True),
      wd_write_error = (\<lambda>_. None), wd_tmdb = None, wd_http_get = (\<lambda>_. Inl (bail ''offline'')),
      wd_base64 = Inr, wd_lookup_host = (\<lambda>p. Inr [p]), wd_show_duration = (\<lambda>d. show_u64 (d_secs d)),
      wd_encode_pause = example_encode, wd_decode_pause = example_decode,
      wd_managed = False, wd_host_has_disk = False\<rparr>"

definition example_engine :: "memory_session engine" where
  "example_engine =
     \<lparr>en_session = example_session, en_library = example_library,
      en_opts = default_server_opts 100, en_file_config = default_file_config,
      en_trackers = tracker_feed_new default_trackers_config None, en_pause = None,
      en_disk_missing = False, en_progress_seen = Map.empty, en_files = Map.empty,
      en_counters = (\<lambda>_. 0)\<rparr>"

lemma example_engine_wf: "catalog_wf (store example_engine)"
  by (simp add: example_engine_def example_library_wf)

lemma example_world_simps [simp]:
  "wd_rq (example_world now) = mem_session" "wd_now (example_world now) = now"
  "wd_disk_usage (example_world now) = Inr (1000, 2000)"
  by (simp_all add: example_world_def)

end
