(* ===== verification/Engine_Evict.thy ===== *)
theory Engine_Evict
  imports Memory_Session
begin

text \<open>
  \<open>engine/eviction.rs\<close> and \<open>engine/stall.rs\<close>: evicting one torrent, making room for an incoming one,
  the periodic sweep, and dropping downloads that have stopped. The planner is pure; here its plan
  is carried out on the session and the catalog, where deleting a movie cascades to its torrents.
\<close>

section \<open>Evicting\<close>

definition evict_torrent :: "'s world \<Rightarrow> string \<Rightarrow> 's engine \<Rightarrow> unit result \<times> 's engine" where
  "evict_torrent W info_hash e =
     (case handle_for W e info_hash of
        None \<Rightarrow> (Inr (), e)
      | Some h \<Rightarrow>
          (let (r, s) = rq_delete (wd_rq W) (h_id h) True (en_session e)
           in (with_context (''deleting torrent '' @ info_hash) r, set_session s e)))"

definition evict :: "'s world \<Rightarrow> string \<Rightarrow> 's engine \<Rightarrow> unit result \<times> 's engine" where
  "evict W info_hash e =
     (let row = torrent_by_hash info_hash (store e);
          name = (case Option.bind row (\<lambda>r. get_movie (t_imdb_id r) (store e)) of
                    Some m \<Rightarrow> title m | None \<Rightarrow> info_hash)
      in case evict_torrent W info_hash e of
           (Inl err, e1) \<Rightarrow> (Inl err, e1)
         | (Inr _, e1) \<Rightarrow>
             (let e2 = (case row of
                          None \<Rightarrow> e1
                        | Some r \<Rightarrow> set_store (snd (delete_movie (t_imdb_id r) (store e1))) e1);
                  bytes = (case row of None \<Rightarrow> 0 | Some r \<Rightarrow> t_size_bytes r);
                  e3 = count Evicted_Bytes bytes (count Evictions 1 e2)
              in (Inr (), log_event W ''evict'' (''evicted '' @ name @ '' ('' @ info_hash @ '')'') e3)))"

fun evict_all :: "'s world \<Rightarrow> candidate list \<Rightarrow> 's engine \<Rightarrow> unit result \<times> 's engine" where
  "evict_all W [] e = (Inr (), e)"
| "evict_all W (c # cs) e =
     (case evict W (c_key c) e of
        (Inl err, e') \<Rightarrow> (Inl err, e')
      | (Inr _, e') \<Rightarrow> evict_all W cs e')"

definition ensure_space :: "'s world \<Rightarrow> u64 \<Rightarrow> 's engine \<Rightarrow> candidate list result \<times> 's engine" where
  "ensure_space W inc e =
     (let (cands, used) = candidates (wd_now W) (en_library e)
      in case wd_disk_usage W of
           Inl err \<Rightarrow> (Inl err, e)
         | Inr (disk_free, _) \<Rightarrow>
             (case media_plan (en_library e) cands used disk_free inc of
                Inl pe \<Rightarrow> (Inl (fault NoSpace (plan_error_text pe)), e)
              | Inr p \<Rightarrow>
                  (case evict_all W (p_evict p) e of
                     (Inl err, e') \<Rightarrow> (Inl err, e')
                   | (Inr _, e') \<Rightarrow> (Inr (p_evict p), e'))))"

section \<open>Stalled downloads\<close>

text \<open>
  One pass over the rows: \<open>seen\<close> holds the progress last noted per torrent and when; a row whose
  progress has not grown for \<open>timeout\<close> seconds and whose movie is not protected is stalled.
\<close>

definition stall_check ::
  "'s world \<Rightarrow> 's engine \<Rightarrow> i64 \<Rightarrow> torrent_row \<Rightarrow> (string \<Rightarrow> (u64 \<times> i64) option)
   \<Rightarrow> (string \<times> string \<times> i64) option \<times> (string \<Rightarrow> (u64 \<times> i64) option)" where
  "stall_check W e timeout row seen =
     (let now = wd_now W; x = t_info_hash row
      in case handle_for W e x of
           None \<Rightarrow> (None, seen)
         | Some h \<Rightarrow>
             (let stats = rq_stats (wd_rq W) (en_session e) h
              in if st_finished stats \<or> rq_is_paused (wd_rq W) (en_session e) h
                 then (None, seen(x := None))
                 else
                   let entry = (case seen x of Some p \<Rightarrow> p | None \<Rightarrow> (st_progress_bytes stats, now))
                   in if fst entry < st_progress_bytes stats
                      then (None, seen(x \<mapsto> (st_progress_bytes stats, now)))
                      else
                        let last_used = (case get_movie (t_imdb_id row) (store e) of
                                           Some m \<Rightarrow> last_used_at m | None \<Rightarrow> 0)
                        in (if i64_le timeout (now - snd entry)
                               \<and> \<not> is_protected now (en_library e) last_used
                            then Some (x, t_imdb_id row, now - snd entry) else None,
                            seen(x \<mapsto> entry))))"

fun find_stalled ::
  "'s world \<Rightarrow> 's engine \<Rightarrow> i64 \<Rightarrow> torrent_row list \<Rightarrow> (string \<Rightarrow> (u64 \<times> i64) option)
   \<Rightarrow> (string \<times> string \<times> i64) list \<times> (string \<Rightarrow> (u64 \<times> i64) option)" where
  "find_stalled W e timeout [] seen = ([], seen)"
| "find_stalled W e timeout (row # rows) seen =
     (case stall_check W e timeout row seen of
        (item, seen1) \<Rightarrow>
          (case find_stalled W e timeout rows seen1 of
             (out, seen2) \<Rightarrow> (case item of Some i \<Rightarrow> i # out | None \<Rightarrow> out, seen2)))"

definition stalled_text :: "string \<Rightarrow> i64 \<Rightarrow> string" where
  "stalled_text imdb secs = imdb @ '' made no progress for '' @ human_age secs @ '', evicted''"

fun evict_each_stalled ::
  "'s world \<Rightarrow> (string \<times> string \<times> i64) list \<Rightarrow> 's engine \<Rightarrow> string list result \<times> 's engine" where
  "evict_each_stalled W [] e = (Inr [], e)"
| "evict_each_stalled W ((x, imdb, secs) # rest) e =
     (case evict W x (log_event W ''stalled'' (stalled_text imdb secs) e) of
        (Inl err, e2) \<Rightarrow> (Inl err, e2)
      | (Inr _, e2) \<Rightarrow>
          (case evict_each_stalled W rest (count Stalled_Evictions 1 e2) of
             (Inl err, e3) \<Rightarrow> (Inl err, e3)
           | (Inr out, e3) \<Rightarrow> (Inr (x # out), e3)))"

definition evict_stalled :: "'s world \<Rightarrow> 's engine \<Rightarrow> string list result \<times> 's engine" where
  "evict_stalled W e =
     (let timeout = d_secs (so_stall_timeout (en_opts e))
      in if timeout = 0 then (Inr [], e)
         else
           let rows = list_torrents (store e);
               kept = (\<lambda>x. if list_ex (\<lambda>r. t_info_hash r = x) rows then en_progress_seen e x else None);
               (stalled, seen) = find_stalled W e timeout rows kept
           in evict_each_stalled W stalled (e\<lparr>en_progress_seen := seen\<rparr>))"

text \<open>One tick of the sweep loop; its errors are only logged.\<close>

definition sweep :: "'s world \<Rightarrow> 's engine \<Rightarrow> 's engine" where
  "sweep W e =
     (if is_disk_missing e then e else snd (ensure_space W 0 (snd (evict_stalled W e))))"

section \<open>What an eviction leaves\<close>

definition movies_of :: "string set \<Rightarrow> catalog \<Rightarrow> string set" where
  "movies_of X c = {i. \<exists>x \<in> X. \<exists>t. torrent_by_hash x c = Some t \<and> t_imdb_id t = i}"

definition tables :: "catalog \<Rightarrow> movie_row list \<times> torrent_record list" where
  "tables c = (ct_movies c, ct_torrents c)"

definition without :: "string set \<Rightarrow> catalog \<Rightarrow> movie_row list \<times> torrent_record list" where
  "without M c =
     (filter (\<lambda>r. movie_key r \<notin> M) (ct_movies c), filter (\<lambda>r. r_imdb_id r \<notin> M) (ct_torrents c))"

lemma tables_delete: "tables (snd (delete_movie i c)) = without {i} c"
  by (simp add: tables_def without_def delete_movie_def tbl_del_def)

lemma tables_add_event [simp]: "tables (add_event now k m c) = tables c"
  by (simp add: tables_def)

lemma torrent_by_hash_tables: "tables c = tables c' \<Longrightarrow> torrent_by_hash x c = torrent_by_hash x c'"
  by (simp add: tables_def torrent_by_hash_def)

lemma get_movie_tables: "tables c = tables c' \<Longrightarrow> get_movie i c = get_movie i c'"
  by (simp add: tables_def get_movie_def)

lemma torrent_by_hash_without:
  assumes "catalog_wf c" and "tables c' = without M c"
  shows "torrent_by_hash x c' =
    (case torrent_by_hash x c of None \<Rightarrow> None | Some t \<Rightarrow> if t_imdb_id t \<in> M then None else Some t)"
proof -
  have "ct_torrents c' = filter (\<lambda>r. r_imdb_id r \<notin> M) (ct_torrents c)"
    using assms(2) by (simp add: tables_def without_def)
  moreover have "key_distinct r_info_hash (ct_torrents c)"
    using assms(1) by (simp add: catalog_wf_def)
  ultimately show ?thesis
    by (cases "tbl_get r_info_hash x (ct_torrents c)")
      (simp_all add: torrent_by_hash_def tbl_get_filter)
qed

lemma get_movie_without:
  assumes "catalog_wf c" and "tables c' = without M c"
  shows "get_movie i c' = (if i \<in> M then None else get_movie i c)"
proof -
  have eq: "ct_movies c' = filter (\<lambda>r. movie_key r \<notin> M) (ct_movies c)"
    using assms(2) by (simp add: tables_def without_def)
  have dist: "key_distinct movie_key (ct_movies c)"
    using assms(1) by (simp add: catalog_wf_def)
  show ?thesis
  proof (cases "tbl_get movie_key i (ct_movies c)")
    case (Some r)
    then have "movie_key r = i" using tbl_get_Some [OF Some] by blast
    with Some show ?thesis by (simp add: get_movie_def eq tbl_get_filter [OF dist])
  qed (simp add: get_movie_def eq tbl_get_filter [OF dist])
qed

lemma movies_of_without:
  assumes "catalog_wf c" and "tables c' = without M c"
  shows "movies_of X c' = movies_of X c - M"
  using torrent_by_hash_without [OF assms]
  by (auto simp: movies_of_def split: option.splits if_splits)

lemma without_without: "tables c' = without M c \<Longrightarrow> without N c' = without (M \<union> N) c"
  by (auto simp: tables_def without_def conj_commute intro!: filter_cong)

abbreviation handles :: "'s world \<Rightarrow> 's engine \<Rightarrow> handle set" where
  "handles W e \<equiv> set (rq_handles (wd_rq W) (en_session e))"

definition same_settings :: "'s engine \<Rightarrow> 's engine \<Rightarrow> bool" where
  "same_settings e e' \<longleftrightarrow>
     en_opts e' = en_opts e \<and> en_pause e' = en_pause e \<and> en_disk_missing e' = en_disk_missing e
     \<and> en_files e' = en_files e
     \<and> mc_budget (en_library e') = mc_budget (en_library e)
     \<and> mc_min_free (en_library e') = mc_min_free (en_library e)
     \<and> mc_stream_grace (en_library e') = mc_stream_grace (en_library e)"

lemma same_settings_refl [simp]: "same_settings e e"
  by (simp add: same_settings_def)

lemma same_settings_trans: "same_settings e e' \<Longrightarrow> same_settings e' e'' \<Longrightarrow> same_settings e e''"
  by (simp add: same_settings_def)

lemma evict_torrent_frame:
  "en_library (snd (evict_torrent W x e)) = en_library e"
  "same_settings e (snd (evict_torrent W x e))"
  by (auto simp: evict_torrent_def same_settings_def split: option.splits prod.splits)

lemma evict_cases:
  obtains (failed) err where "evict W x e = (Inl err, snd (evict_torrent W x e))"
    "fst (evict_torrent W x e) = Inl err"
  | (evicted) bytes msg where "fst (evict_torrent W x e) = Inr ()"
    "evict W x e = (Inr (), log_event W ''evict'' msg (count Evicted_Bytes bytes (count Evictions 1
       (case torrent_by_hash x (store e) of None \<Rightarrow> snd (evict_torrent W x e)
        | Some r \<Rightarrow> set_store (snd (delete_movie (t_imdb_id r) (store e))) (snd (evict_torrent W x e))))))"
proof (cases "evict_torrent W x e")
  case (Pair r e1)
  have lib: "store e1 = store e" using evict_torrent_frame(1) [of W x e] Pair by simp
  show ?thesis
  proof (cases r)
    case (Inl err)
    show ?thesis by (rule failed [of err]) (simp_all add: evict_def Pair Inl Let_def)
  next
    case (Inr u)
    then have r: "r = Inr ()" by simp
    show ?thesis
      by (rule evicted) (simp_all only: evict_def Pair r Let_def lib prod.case sum.case fst_conv snd_conv)
  qed
qed

lemma evict_settings: "same_settings e (snd (evict W x e))"
proof (cases rule: evict_cases [of W x e])
  case failed
  then show ?thesis using evict_torrent_frame(2) [of e W x] by simp
next
  case (evicted bytes msg)
  then show ?thesis
    using evict_torrent_frame(2) [of e W x] by (simp add: same_settings_def split: option.splits)
qed

lemma evict_wf: "catalog_wf (store e) \<Longrightarrow> catalog_wf (store (snd (evict W x e)))"
proof (cases rule: evict_cases [of W x e])
  case failed
  then show "catalog_wf (store e) \<Longrightarrow> ?thesis" by (simp add: evict_torrent_frame)
next
  case (evicted bytes msg)
  then show "catalog_wf (store e) \<Longrightarrow> ?thesis"
    by (auto simp: evict_torrent_frame split: option.splits intro!: wf_intros)
qed

lemma evict_tables:
  assumes "evict W x e = (Inr u, e')"
  shows "tables (store e') = without (movies_of {x} (store e)) (store e)"
proof (cases rule: evict_cases [of W x e])
  case failed
  with assms show ?thesis by simp
next
  case (evicted bytes msg)
  define d where "d = (case torrent_by_hash x (store e) of None \<Rightarrow> store e
    | Some r \<Rightarrow> snd (delete_movie (t_imdb_id r) (store e)))"
  have "e' = log_event W ''evict'' msg (count Evicted_Bytes bytes (count Evictions 1
       (case torrent_by_hash x (store e) of None \<Rightarrow> snd (evict_torrent W x e)
        | Some r \<Rightarrow> set_store (snd (delete_movie (t_imdb_id r) (store e))) (snd (evict_torrent W x e)))))"
    using assms evicted(2) by simp
  then have "tables (store e') = tables d"
    by (simp add: d_def evict_torrent_frame split: option.splits)
  also have "tables d = without (movies_of {x} (store e)) (store e)"
  proof (cases "torrent_by_hash x (store e)")
    case None
    then have "movies_of {x} (store e) = {}" by (simp add: movies_of_def)
    with None show ?thesis by (simp add: d_def without_def tables_def)
  next
    case (Some r)
    then have "movies_of {x} (store e) = {t_imdb_id r}" by (auto simp: movies_of_def)
    with Some show ?thesis by (simp add: d_def tables_delete)
  qed
  finally show ?thesis .
qed

lemma evict_session: "evict W x e = (Inr u, e') \<Longrightarrow>
    is_ok (fst (evict_torrent W x e)) \<and> en_session e' = en_session (snd (evict_torrent W x e))"
  by (cases rule: evict_cases [of W x e]) (auto split: option.splits)

lemma evict_handles:
  assumes laws: "session_laws (wd_rq W)" and ok: "evict W x e = (Inr u, e')"
  shows "handles W e' \<subseteq> handles W e \<and> handle_for W e' x = None"
proof (cases "handle_for W e x")
  case None
  with evict_session [OF ok] have "en_session e' = en_session e" by (simp add: evict_torrent_def)
  with None show ?thesis by (simp add: handle_for_def)
next
  case (Some h)
  obtain r s where d: "rq_delete (wd_rq W) (h_id h) True (en_session e) = (r, s)" by fastforce
  from evict_session [OF ok] Some d have s: "en_session e' = s" "is_ok r"
    by (cases r; simp add: evict_torrent_def)+
  then have f: "rq_handles (wd_rq W) s = filter (\<lambda>g. h_id g \<noteq> h_id h) (rq_handles (wd_rq W) (en_session e))"
    using delete_handles [OF laws, of "h_id h" True "en_session e"] d by simp
  have "rq_get (wd_rq W) s x = None"
  proof (rule ccontr)
    assume "rq_get (wd_rq W) s x \<noteq> None"
    then obtain g where "rq_get (wd_rq W) s x = Some g" by blast
    then have "g \<in> set (rq_handles (wd_rq W) s)" and "h_hash g = x"
      using session_get_listed [OF laws] by blast+
    then have "rq_get (wd_rq W) (en_session e) x = Some g" and "h_id g \<noteq> h_id h"
      using session_listed_get [OF laws, of g "en_session e"] by (auto simp: f)
    with Some show False by (simp add: handle_for_def)
  qed
  with f s show ?thesis by (auto simp: handle_for_def)
qed

lemma evict_all_settings: "same_settings e (snd (evict_all W cs e))"
proof (induction cs arbitrary: e)
  case (Cons c cs)
  then show ?case
    using evict_settings [of e W "c_key c"]
    by (auto split: prod.splits sum.splits intro: same_settings_trans)
qed simp

lemma evict_all_wf: "catalog_wf (store e) \<Longrightarrow> catalog_wf (store (snd (evict_all W cs e)))"
proof (induction cs arbitrary: e)
  case (Cons c cs)
  obtain r e1 where r: "evict W (c_key c) e = (r, e1)" by fastforce
  then have "catalog_wf (store e1)" using evict_wf [OF Cons.prems, of W "c_key c"] by simp
  then show ?case using Cons.IH r by (cases r) simp_all
qed simp

lemma evict_all_tables:
  "catalog_wf (store e) \<Longrightarrow> evict_all W cs e = (Inr u, e') \<Longrightarrow>
   tables (store e') = without (movies_of (c_key ` set cs) (store e)) (store e)"
proof (induction cs arbitrary: e)
  case Nil
  then show ?case by (simp add: movies_of_def without_def tables_def)
next
  case (Cons c cs)
  then obtain v e1 where e1: "evict W (c_key c) e = (Inr v, e1)" and rest: "evict_all W cs e1 = (Inr u, e')"
    by (auto split: prod.splits sum.splits)
  let ?M = "movies_of {c_key c} (store e)"
  have t1: "tables (store e1) = without ?M (store e)" by (rule evict_tables [OF e1])
  have wf1: "catalog_wf (store e1)" using evict_wf [OF Cons.prems(1), of W "c_key c"] e1 by simp
  have "movies_of (c_key ` set cs) (store e1) = movies_of (c_key ` set cs) (store e) - ?M"
    by (rule movies_of_without [OF Cons.prems(1) t1])
  moreover have "?M \<union> (movies_of (c_key ` set cs) (store e) - ?M) = movies_of (c_key ` set (c # cs)) (store e)"
    by (auto simp: movies_of_def)
  ultimately show ?case
    using Cons.IH [OF wf1 rest] without_without [OF t1] by simp
qed

lemma evict_all_handles:
  "session_laws (wd_rq W) \<Longrightarrow> evict_all W cs e = (Inr u, e') \<Longrightarrow>
   handles W e' \<subseteq> handles W e \<and> (\<forall>c \<in> set cs. handle_for W e' (c_key c) = None)"
proof (induction cs arbitrary: e)
  case (Cons c cs)
  then obtain v e1 where e1: "evict W (c_key c) e = (Inr v, e1)" and rest: "evict_all W cs e1 = (Inr u, e')"
    by (auto split: prod.splits sum.splits)
  note one = evict_handles [OF Cons.prems(1) e1] and more = Cons.IH [OF Cons.prems(1) rest]
  have "handle_for W e' (c_key c) = None"
  proof (rule ccontr)
    assume "handle_for W e' (c_key c) \<noteq> None"
    then obtain g where "handle_for W e' (c_key c) = Some g" by blast
    then have "g \<in> handles W e'" and "h_hash g = c_key c"
      using session_get_listed [OF Cons.prems(1)] by (auto simp: handle_for_def)
    with more have "handle_for W e1 (c_key c) = Some g"
      using session_listed_get [OF Cons.prems(1), of g "en_session e1"] by (auto simp: handle_for_def)
    with one show False by simp
  qed
  with one more show ?case by auto
qed simp

section \<open>The bytes an eviction frees\<close>

lemma size_of_mono:
  assumes "mset xs \<subseteq># mset ys"
  shows "size_of xs \<le> size_of ys"
proof -
  obtain C where "mset ys = mset xs + C" using assms by (metis subset_mset.le_iff_add)
  then show ?thesis by (simp add: size_of_mset)
qed

lemma size_of_filter: "size_of (filter P cs) + size_of (filter (\<lambda>c. \<not> P c) cs) = size_of cs"
  by (induction cs) auto

lemma listed_by_hash:
  assumes "catalog_wf c" and "t \<in> set (list_torrents c)"
  shows "torrent_by_hash (t_info_hash t) c = Some t"
proof -
  obtain r where r: "r \<in> set (ct_torrents c)" "t = torrent_from_record r"
    using assms(2) by (auto simp: list_torrents_def)
  moreover have "t_info_hash t = r_info_hash r" using r by (simp add: torrent_from_record_def)
  ultimately show ?thesis
    using assms(1) tbl_get_in [of r_info_hash "ct_torrents c" r]
    by (simp add: torrent_by_hash_def catalog_wf_def)
qed

lemma by_hash_listed:
  "torrent_by_hash x c = Some t \<Longrightarrow> t \<in> set (list_torrents c) \<and> t_info_hash t = x"
  by (auto simp: torrent_by_hash_def list_torrents_def torrent_from_record_def dest!: tbl_get_Some)

lemma bytes_after_eviction:
  assumes wf: "catalog_wf (mc_store mc)" and sub: "mset ev \<subseteq># mset (fst (candidates now mc))"
    and t: "tables c' = without (movies_of (c_key ` set ev) (mc_store mc)) (mc_store mc)"
  shows "torrent_bytes c' + size_of ev \<le> torrent_bytes (mc_store mc)"
proof -
  let ?c = "mc_store mc"
  define M where "M = movies_of (c_key ` set ev) ?c"
  define P :: "candidate \<Rightarrow> bool" where "P c \<longleftrightarrow> (\<exists>t. torrent_by_hash (c_key c) ?c = Some t \<and> t_imdb_id t \<in> M)" for c
  let ?cands = "map (candidate_of now mc) (list_torrents ?c)"
  have P_cand: "P (candidate_of now mc t) \<longleftrightarrow> t_imdb_id t \<in> M" if "t \<in> set (list_torrents ?c)" for t
    using listed_by_hash [OF wf that] by (simp add: P_def)
  have sub: "mset ev \<subseteq># mset ?cands" using sub by (simp add: candidates_def Let_def)
  have "P x" if "x \<in> set ev" for x
  proof -
    have "x \<in> set ?cands" using that mset_subset_eqD [OF sub, of x] by simp
    then obtain t where "t \<in> set (list_torrents ?c)" "x = candidate_of now mc t" by auto
    with that listed_by_hash [OF wf, of t] show ?thesis
      by (auto simp: P_def M_def movies_of_def intro!: bexI [of _ "candidate_of now mc t"])
  qed
  then have "filter_mset P (mset ev) = mset ev" by (auto intro: filter_mset_eq_conv [THEN iffD2])
  with sub have "mset ev \<subseteq># mset (filter P ?cands)"
    using multiset_filter_mono [OF sub, of P] by simp
  then have "size_of ev \<le> size_of (filter P ?cands)" by (rule size_of_mono)
  moreover have "size_of (filter (\<lambda>c. \<not> P c) ?cands) = torrent_bytes c'"
  proof -
    have "list_torrents c' = filter (\<lambda>t. t_imdb_id t \<notin> M) (list_torrents ?c)"
      using t by (simp add: tables_def without_def list_torrents_def filter_map o_def flip: M_def)
    moreover have "filter (\<lambda>t. \<not> P (candidate_of now mc t)) (list_torrents ?c)
        = filter (\<lambda>t. t_imdb_id t \<notin> M) (list_torrents ?c)"
      using P_cand by (intro filter_cong) auto
    ultimately show ?thesis by (simp add: torrent_bytes_def size_of_def filter_map o_def)
  qed
  ultimately show ?thesis
    using size_of_filter [of P ?cands] size_of_candidates [of now mc]
    by (simp add: candidates_def Let_def)
qed

lemma ensure_space_Inr:
  assumes "ensure_space W inc e = (Inr ev, e')"
  obtains free disk p where "wd_disk_usage W = Inr (free, disk)"
    and "media_plan (en_library e) (fst (candidates (wd_now W) (en_library e)))
           (snd (candidates (wd_now W) (en_library e))) free inc = Inr p"
    and "ev = p_evict p" and "evict_all W (p_evict p) e = (Inr (), e')"
  using assms that by (auto simp: ensure_space_def Let_def split: prod.splits sum.splits)

lemma evicted_movie_unprotected:
  assumes wf: "catalog_wf (mc_store mc)"
    and p: "media_plan mc (fst (candidates now mc)) used free inc = Inr p"
    and i: "i \<in> movies_of (c_key ` set (p_evict p)) (mc_store mc)"
    and m: "get_movie i (mc_store mc) = Some m"
  shows "\<not> is_protected now mc (last_used_at m)"
proof -
  obtain c t where c: "c \<in> set (p_evict p)" and t: "torrent_by_hash (c_key c) (mc_store mc) = Some t"
      "t_imdb_id t = i"
    using i by (auto simp: movies_of_def)
  have "c \<in> set (fst (candidates now mc)) \<and> \<not> c_protected c"
    using plan_evict_unprotected p c by (simp add: media_plan_def)
  then obtain u where u: "u \<in> set (list_torrents (mc_store mc))" "c = candidate_of now mc u"
    and np: "\<not> c_protected c"
    by (auto simp: candidates_def Let_def)
  then have "u = t" using listed_by_hash [OF wf u(1)] t by simp
  with np u t m candidate_protected [OF wf u(1), of m now] show ?thesis by simp
qed

section \<open>What no eviction touches\<close>

text \<open>Whatever the outcome, an eviction only drops movies that the torrents named belong to.\<close>

lemma evict_drops:
  "\<exists>N \<subseteq> movies_of {x} (store e). tables (store (snd (evict W x e))) = without N (store e)"
proof (cases "evict W x e")
  case (Pair r e')
  show ?thesis
  proof (cases r)
    case (Inl err)
    then have "e' = snd (evict_torrent W x e)"
      using Pair by (cases rule: evict_cases [of W x e]) simp_all
    then have "tables (store e') = without {} (store e)"
      by (simp add: evict_torrent_frame without_def tables_def)
    with Pair show ?thesis by auto
  next
    case (Inr u)
    with Pair evict_tables [of W x e u e'] show ?thesis by auto
  qed
qed

lemma movies_of_empty_without: "tables c = without {} c"
  by (simp add: without_def tables_def)

lemma drops_step:
  assumes "catalog_wf c" and "N \<subseteq> movies_of {x} c" and "tables c1 = without N c"
    and "N' \<subseteq> movies_of X c1" and "tables c2 = without N' c1"
  shows "\<exists>M \<subseteq> movies_of (insert x X) c. tables c2 = without M c"
proof -
  have "N' \<subseteq> movies_of X c - N"
    using movies_of_without [OF assms(1,3)] assms(4) by blast
  then have "N \<union> N' \<subseteq> movies_of (insert x X) c" using assms(2) by (auto simp: movies_of_def)
  moreover have "tables c2 = without (N \<union> N') c"
    using without_without [OF assms(3)] assms(5) by simp
  ultimately show ?thesis by blast
qed

lemma evict_all_drops:
  "catalog_wf (store e) \<Longrightarrow>
   \<exists>N \<subseteq> movies_of (c_key ` set cs) (store e). tables (store (snd (evict_all W cs e))) = without N (store e)"
proof (induction cs arbitrary: e)
  case Nil
  then show ?case using movies_of_empty_without by (auto intro!: exI [of _ "{}"])
next
  case (Cons c cs)
  obtain N where N: "N \<subseteq> movies_of {c_key c} (store e)"
      "tables (store (snd (evict W (c_key c) e))) = without N (store e)"
    using evict_drops [of "c_key c" e W] by blast
  have wf: "catalog_wf (store (snd (evict W (c_key c) e)))" using Cons.prems by (rule evict_wf)
  obtain N' where N': "N' \<subseteq> movies_of (c_key ` set cs) (store (snd (evict W (c_key c) e)))"
      "tables (store (snd (evict_all W cs (snd (evict W (c_key c) e))))) = without N' (store (snd (evict W (c_key c) e)))"
    using Cons.IH [OF wf] by blast
  show ?case
  proof (cases "evict W (c_key c) e")
    case (Pair r e1)
    then show ?thesis
      using N N' drops_step [OF Cons.prems N N'] by (cases r) (auto simp: movies_of_def)
  qed
qed

lemma stall_check_facts:
  assumes "fst (stall_check W e timeout row seen) = Some (x, imdb, secs)"
  shows "t_info_hash row = x \<and> t_imdb_id row = imdb \<and> i64_le timeout secs
     \<and> (\<exists>h. handle_for W e x = Some h \<and> \<not> finished (wd_rq W) (en_session e) h
            \<and> \<not> rq_is_paused (wd_rq W) (en_session e) h)
     \<and> \<not> is_protected (wd_now W) (en_library e)
           (case get_movie imdb (store e) of Some m \<Rightarrow> last_used_at m | None \<Rightarrow> 0)"
proof (cases "handle_for W e (t_info_hash row)")
  case (Some h)
  with assms show ?thesis
    by (simp add: stall_check_def Let_def finished_def split: if_splits)
      (auto simp: Some)
qed (use assms in \<open>simp add: stall_check_def Let_def\<close>)

lemma find_stalled_facts:
  "(x, imdb, secs) \<in> set (fst (find_stalled W e timeout rows seen)) \<Longrightarrow>
   \<exists>row \<in> set rows. t_info_hash row = x \<and> t_imdb_id row = imdb \<and> i64_le timeout secs
     \<and> (\<exists>h. handle_for W e x = Some h \<and> \<not> finished (wd_rq W) (en_session e) h
            \<and> \<not> rq_is_paused (wd_rq W) (en_session e) h)
     \<and> \<not> is_protected (wd_now W) (en_library e)
           (case get_movie imdb (store e) of Some m \<Rightarrow> last_used_at m | None \<Rightarrow> 0)"
proof (induction rows arbitrary: seen)
  case (Cons row rows)
  obtain item seen1 where c: "stall_check W e timeout row seen = (item, seen1)" by fastforce
  obtain out seen2 where f: "find_stalled W e timeout rows seen1 = (out, seen2)" by fastforce
  from Cons.prems c f have "item = Some (x, imdb, secs) \<or> (x, imdb, secs) \<in> set out"
    by (auto split: option.splits)
  then show ?case
  proof
    assume "item = Some (x, imdb, secs)"
    with stall_check_facts [of W e timeout row seen x imdb secs] c show ?thesis by simp
  next
    assume "(x, imdb, secs) \<in> set out"
    with Cons.IH [of seen1] f show ?thesis by simp
  qed
qed simp

lemma evict_each_drops:
  "catalog_wf (store e) \<Longrightarrow>
   \<exists>N \<subseteq> movies_of (fst ` set xs) (store e).
     tables (store (snd (evict_each_stalled W xs e))) = without N (store e)
     \<and> catalog_wf (store (snd (evict_each_stalled W xs e)))
     \<and> same_settings e (snd (evict_each_stalled W xs e))"
proof (induction xs arbitrary: e)
  case Nil
  then show ?case using movies_of_empty_without by (auto intro!: exI [of _ "{}"])
next
  case (Cons y xs)
  obtain x imdb secs where y: "y = (x, imdb, secs)" by (cases y)
  define e1 where "e1 = log_event W ''stalled'' (stalled_text imdb secs) e"
  define e2 where "e2 = snd (evict W x e1)"
  define e3 where "e3 = count Stalled_Evictions 1 e2"
  have t1: "tables (store e1) = tables (store e)" by (simp add: e1_def)
  have wf1: "catalog_wf (store e1)" using Cons.prems by (auto simp: e1_def intro!: wf_intros)
  have wf2: "catalog_wf (store e2)" unfolding e2_def using wf1 by (rule evict_wf)
  have s2: "same_settings e e2"
    using evict_settings [of e1 W x] by (auto simp: e1_def e2_def same_settings_def)
  obtain N where N: "N \<subseteq> movies_of {x} (store e1)" "tables (store e2) = without N (store e1)"
    using evict_drops [of x e1 W] unfolding e2_def by blast
  have m: "movies_of X (store e1) = movies_of X (store e)" for X
    using torrent_by_hash_tables [OF t1] by (simp add: movies_of_def)
  have w: "without M (store e1) = without M (store e)" for M
    using t1 by (simp add: tables_def without_def)
  have "catalog_wf (store e3)" using wf2 by (simp add: e3_def)
  then obtain N' where N': "N' \<subseteq> movies_of (fst ` set xs) (store e3)"
      "tables (store (snd (evict_each_stalled W xs e3))) = without N' (store e3)"
      "catalog_wf (store (snd (evict_each_stalled W xs e3)))"
      "same_settings e3 (snd (evict_each_stalled W xs e3))"
    using Cons.IH by blast
  have s3: "same_settings e (snd (evict_each_stalled W xs e3))"
    using s2 N'(4) by (auto simp: e3_def same_settings_def)
  have st3: "store e3 = store e2" by (simp add: e3_def)
  show ?case
  proof (cases "fst (evict W x e1)")
    case (Inl err)
    then have "evict W x e1 = (Inl err, e2)" by (simp add: e2_def prod_eq_iff)
    then have "snd (evict_each_stalled W (y # xs) e) = e2"
      by (simp add: y flip: e1_def)
    moreover have "N \<subseteq> movies_of (fst ` set (y # xs)) (store e)" using N(1) unfolding m by (auto simp: y movies_of_def)
    ultimately show ?thesis using N(2) w wf2 s2 by auto
  next
    case (Inr u)
    then have "evict W x e1 = (Inr u, e2)" by (simp add: e2_def prod_eq_iff)
    then have "snd (evict_each_stalled W (y # xs) e) = snd (evict_each_stalled W xs e3)"
      by (simp add: y split: prod.splits sum.splits flip: e1_def e3_def)
    then show ?thesis
      using drops_step [OF wf1 N, of N' "fst ` set xs"] N' s3 by (auto simp: st3 m w y)
  qed
qed

lemma protected_movie_kept:
  assumes "catalog_wf c" and "tables c' = without N c" and "get_movie i c = Some m" and "i \<notin> N"
  shows "get_movie i c' = Some m \<and> torrent_for_movie i c' = torrent_for_movie i c"
proof -
  have "filter (\<lambda>r. r_imdb_id r = i) (ct_torrents c') = filter (\<lambda>r. r_imdb_id r = i) (ct_torrents c)"
    using assms(2,4) by (auto simp: tables_def without_def intro!: filter_cong)
  with get_movie_without [OF assms(1,2), of i] assms(3,4) show ?thesis
    by (simp add: torrent_for_movie_def)
qed

lemma ensure_space_drops:
  assumes wf: "catalog_wf (store e)"
  shows "\<exists>N. tables (store (snd (ensure_space W inc e))) = without N (store e)
    \<and> (\<forall>i \<in> N. \<forall>m. get_movie i (store e) = Some m \<longrightarrow>
          \<not> is_protected (wd_now W) (en_library e) (last_used_at m))"
proof -
  let ?lib = "en_library e"
  let ?cands = "fst (candidates (wd_now W) ?lib)" and ?used = "snd (candidates (wd_now W) ?lib)"
  consider (same) "snd (ensure_space W inc e) = e"
    | (planned) p free where "media_plan ?lib ?cands ?used free inc = Inr p"
      "snd (ensure_space W inc e) = snd (evict_all W (p_evict p) e)"
  proof (cases "wd_disk_usage W")
    case (Inl err)
    then show ?thesis by (intro same) (simp add: ensure_space_def split: prod.splits)
  next
    case (Inr fd)
    obtain free disk where fd: "fd = (free, disk)" by (cases fd)
    show ?thesis
    proof (cases "media_plan ?lib ?cands ?used free inc")
      case (Inl pe)
      with Inr fd show ?thesis by (intro same) (simp add: ensure_space_def case_prod_beta)
    next
      case r: (Inr q)
      have "snd (ensure_space W inc e) = snd (evict_all W (p_evict q) e)"
        using Inr fd r by (simp add: ensure_space_def case_prod_beta split: sum.splits)
      with r show ?thesis by (rule planned)
    qed
  qed
  then show ?thesis
  proof cases
    case same
    then show ?thesis using movies_of_empty_without [of "store e"] by (intro exI [of _ "{}"]) simp
  next
    case (planned q free)
    obtain N where N: "N \<subseteq> movies_of (c_key ` set (p_evict q)) (store e)"
        "tables (store (snd (evict_all W (p_evict q) e))) = without N (store e)"
      using evict_all_drops [OF wf] by blast
    with evicted_movie_unprotected [OF wf planned(1)] planned(2) show ?thesis by (intro exI [of _ N]) auto
  qed
qed

lemma ensure_space_keeps:
  assumes wf: "catalog_wf (store e)" and m: "get_movie i (store e) = Some m"
    and p: "is_protected (wd_now W) (en_library e) (last_used_at m)"
  shows "get_movie i (store (snd (ensure_space W inc e))) = Some m
    \<and> torrent_for_movie i (store (snd (ensure_space W inc e))) = torrent_for_movie i (store e)"
proof -
  obtain N where N: "tables (store (snd (ensure_space W inc e))) = without N (store e)" "i \<notin> N"
    using ensure_space_drops [OF wf, of W inc] m p by blast
  with protected_movie_kept [OF wf N(1) m] show ?thesis by simp
qed

lemma evict_stalled_keeps:
  assumes wf: "catalog_wf (store e)" and m: "get_movie i (store e) = Some m"
    and p: "is_protected (wd_now W) (en_library e) (last_used_at m)"
  shows "get_movie i (store (snd (evict_stalled W e))) = Some m
    \<and> torrent_for_movie i (store (snd (evict_stalled W e))) = torrent_for_movie i (store e)
    \<and> catalog_wf (store (snd (evict_stalled W e))) \<and> same_settings e (snd (evict_stalled W e))"
proof -
  define timeout where "timeout = d_secs (so_stall_timeout (en_opts e))"
  define rows where "rows = list_torrents (store e)"
  define kept where "kept = (\<lambda>x. if list_ex (\<lambda>r. t_info_hash r = x) rows then en_progress_seen e x else None)"
  define st where "st = find_stalled W e timeout rows kept"
  define e0 where "e0 = e\<lparr>en_progress_seen := snd st\<rparr>"
  show ?thesis
  proof (cases "timeout = 0")
    case True
    then have "snd (evict_stalled W e) = e" by (simp add: evict_stalled_def flip: timeout_def)
    then show ?thesis using wf m by simp
  next
    case False
    then have s: "snd (evict_stalled W e) = snd (evict_each_stalled W (fst st) e0)"
      by (simp add: evict_stalled_def Let_def st_def e0_def kept_def rows_def timeout_def split: prod.splits)
    have store0: "store e0 = store e" and "same_settings e e0" by (simp_all add: e0_def same_settings_def)
    obtain N where N: "N \<subseteq> movies_of (fst ` set (fst st)) (store e0)"
        "tables (store (snd (evict_each_stalled W (fst st) e0))) = without N (store e0)"
        "catalog_wf (store (snd (evict_each_stalled W (fst st) e0)))"
        "same_settings e0 (snd (evict_each_stalled W (fst st) e0))"
      using evict_each_drops [of e0 "fst st" W] wf store0 by auto
    have "i \<notin> N"
    proof
      assume "i \<in> N"
      then obtain x imdb secs t where x: "(x, imdb, secs) \<in> set (fst st)"
        and t: "torrent_by_hash x (store e) = Some t" "t_imdb_id t = i"
        using N(1) store0 by (fastforce simp: movies_of_def)
      then obtain row where row: "row \<in> set rows" "t_info_hash row = x" "t_imdb_id row = imdb"
        and np: "\<not> is_protected (wd_now W) (en_library e)
           (case get_movie imdb (store e) of Some m \<Rightarrow> last_used_at m | None \<Rightarrow> 0)"
        using find_stalled_facts unfolding st_def by blast
      have "row = t" using listed_by_hash [OF wf, of row] row t by (simp add: rows_def)
      with row t np m p show False by simp
    qed
    with protected_movie_kept [OF _ N(2)] N(3,4) m wf store0 s \<open>same_settings e e0\<close> show ?thesis
      by (auto intro: same_settings_trans)
  qed
qed

lemma ensure_space_room:
  assumes "catalog_wf (store e)" and "ensure_space W inc e = (Inr ev, e')"
    and "torrent_bytes (store e) + unat inc < 2 ^ 64"
    and "unat inc + unat (mc_min_free (en_library e)) < 2 ^ 64"
  shows "catalog_wf (store e')
    \<and> torrent_bytes (store e') + unat inc \<le> unat (mc_budget (en_library e))
    \<and> (\<exists>free disk. wd_disk_usage W = Inr (free, disk)
         \<and> unat inc + unat (mc_min_free (en_library e)) \<le> unat free + size_of ev)"
proof -
  let ?lib = "en_library e"
  let ?cands = "fst (candidates (wd_now W) ?lib)" and ?used = "snd (candidates (wd_now W) ?lib)"
  obtain free disk p where u: "wd_disk_usage W = Inr (free, disk)"
    and p: "media_plan ?lib ?cands ?used free inc = Inr p" and ev: "ev = p_evict p"
    and all: "evict_all W (p_evict p) e = (Inr (), e')"
    using assms(2) by (rule ensure_space_Inr)
  have used: "unat ?used = torrent_bytes (store e)"
    using assms(3) by (intro used_exact) simp
  have fit: "sizes_fit ?cands ?used inc"
    using assms(3) used by (simp add: sizes_fit_def size_of_candidates)
  have extra: "unat (sat_sub (inc + mc_min_free ?lib) free) = unat inc + unat (mc_min_free ?lib) - unat free"
    using assms(4) by (simp add: unat_sat_sub unat_add_exact)
  note plan = p [unfolded media_plan_def]
  have enough: "bytes_needed ?used inc (mc_budget ?lib) (sat_sub (inc + mc_min_free ?lib) free) \<le> size_of ev"
    using plan_evict_enough [OF fit plan] by (simp add: ev)
  have sub: "mset ev \<subseteq># mset ?cands" using plan_evict_mset [OF plan] by (simp add: ev)
  have "torrent_bytes (store e') + size_of ev \<le> torrent_bytes (store e)"
    using bytes_after_eviction [OF assms(1) sub] evict_all_tables [OF assms(1) all] by (simp add: ev)
  moreover have "unat inc \<le> unat (mc_budget ?lib)" using plan_Inr_spec(1) [OF fit plan] .
  ultimately show ?thesis
    using evict_all_wf [OF assms(1), of W "p_evict p"] all u enough extra used
    by (auto simp: bytes_needed_def)
qed

lemma ensure_space_incoming:
  assumes "ensure_space W inc e = (Inr ev, e')"
  shows "inc \<le> mc_budget (en_library e)"
proof -
  obtain free disk p where "media_plan (en_library e) (fst (candidates (wd_now W) (en_library e)))
           (snd (candidates (wd_now W) (en_library e))) free inc = Inr p"
    using assms by (rule ensure_space_Inr) blast
  then show ?thesis by (auto simp: media_plan_def plan_def split: if_splits)
qed

section \<open>Properties\<close>

lemma example_eviction:
  "case fst (ensure_space (example_world 220) 30 example_engine) of Inr ev \<Rightarrow> ev \<noteq> [] | Inl _ \<Rightarrow> False"
  by code_simp

lemma example_evictions:
  "is_ok (fst (ensure_space (example_world 220) 30 example_engine))"
  "projr (fst (ensure_space (example_world 220) 30 example_engine)) \<noteq> []"
  using example_eviction by (auto split: sum.splits)

text \<open>C4: Making room is enough: when it succeeds the catalog is intact, the torrents left and the
  incoming bytes fit the budget, and what was evicted covers the free-space floor. The sums are
  exact as long as the sizes stay below 2^64.\<close>

theorem ensure_space_makes_room:
  assumes "catalog_wf (store e)" and "ensure_space W inc e = (Inr ev, e')"
    and "torrent_bytes (store e) + unat inc < 2 ^ 64"
    and "unat inc + unat (mc_min_free (en_library e)) < 2 ^ 64"
  shows "catalog_wf (store e')
    \<and> torrent_bytes (store e') + unat inc \<le> unat (mc_budget (en_library e))
    \<and> (\<exists>free disk. wd_disk_usage W = Inr (free, disk)
         \<and> unat inc + unat (mc_min_free (en_library e)) \<le> unat free + size_of ev)"
  using assms by (rule ensure_space_room)

theorem ensure_space_makes_room_witness:
  "torrent_bytes (store (snd (ensure_space (example_world 220) 30 example_engine))) + 30 \<le> 100"
proof -
  let ?r = "ensure_space (example_world 220) 30 example_engine"
  have "is_ok (fst ?r)" by (rule example_evictions)
  then obtain ev where ev: "?r = (Inr ev, snd ?r)" by (metis is_ok_iff prod.collapse)
  have vals: "torrent_bytes (store example_engine) = 90"
      "unat (mc_min_free (en_library example_engine)) = 5"
      "unat (mc_budget (en_library example_engine)) = 100" "unat (30 :: u64) = 30"
    by code_simp+
  have small: "torrent_bytes (store example_engine) + unat (30 :: u64) < 2 ^ 64"
    and floor: "unat (30 :: u64) + unat (mc_min_free (en_library example_engine)) < 2 ^ 64"
    unfolding vals by simp_all
  have "torrent_bytes (store (snd ?r)) + unat (30 :: u64) \<le> unat (mc_budget (en_library example_engine))"
    using ensure_space_makes_room [OF example_engine_wf ev small floor] by blast
  then show ?thesis unfolding vals .
qed

text \<open>C5: A protected movie survives every eviction: neither making room, whatever its outcome, nor
  dropping stalled downloads, nor a whole tick of the sweep removes it or changes its torrent.\<close>

theorem evictions_spare_protected:
  assumes "catalog_wf (store e)" and "get_movie i (store e) = Some m"
    and "is_protected (wd_now W) (en_library e) (last_used_at m)"
  shows "get_movie i (store (snd (ensure_space W inc e))) = Some m
    \<and> get_movie i (store (snd (evict_stalled W e))) = Some m
    \<and> get_movie i (store (sweep W e)) = Some m
    \<and> torrent_for_movie i (store (sweep W e)) = torrent_for_movie i (store e)"
proof -
  note st = evict_stalled_keeps [OF assms]
  have "is_protected (wd_now W) (en_library (snd (evict_stalled W e))) (last_used_at m)"
    using st assms(3) by (simp add: is_protected_def same_settings_def)
  then have "get_movie i (store (sweep W e)) = Some m
      \<and> torrent_for_movie i (store (sweep W e)) = torrent_for_movie i (store e)"
    using st assms(2) ensure_space_keeps [of "snd (evict_stalled W e)" i m W 0]
    by (auto simp: sweep_def)
  then show ?thesis using st ensure_space_keeps [OF assms] by blast
qed

theorem evictions_spare_protected_witness:
  "get_movie ''tt2'' (store (sweep (example_world 220) example_engine))
     = get_movie ''tt2'' (store example_engine)"
proof -
  obtain m where m: "get_movie ''tt2'' (store example_engine) = Some m" and "last_used_at m = 200"
  proof -
    have "map_option last_used_at (get_movie ''tt2'' (store example_engine)) = Some 200" by code_simp
    then show ?thesis using that by auto
  qed
  moreover have "is_protected 220 (en_library example_engine) 200" by code_simp
  ultimately show ?thesis
    using evictions_spare_protected [OF example_engine_wf m, of "example_world 220"] by simp
qed

text \<open>A refusal for lack of space evicts nothing: when the planner refuses, the engine is left as
  it was and the error carries the fault the API turns into 507.\<close>

theorem refused_space_changes_nothing:
  assumes "wd_disk_usage W = Inr (free, disk)"
    and "media_plan (en_library e) (fst (candidates (wd_now W) (en_library e)))
      (snd (candidates (wd_now W) (en_library e))) free inc = Inl pe"
  shows "ensure_space W inc e = (Inl (fault NoSpace (plan_error_text pe)), e)
    \<and> ae_status (api_error_from (fault NoSpace (plan_error_text pe))) = 507"
  using assms
  by (simp add: ensure_space_def case_prod_beta api_error_from_def fault_status_def api_error_new_def)

theorem refused_space_changes_nothing_witness:
  "\<exists>err. ensure_space (example_world 220) 90 example_engine = (Inl err, example_engine)"
proof -
  let ?lib = "en_library example_engine"
  let ?plan = "media_plan ?lib (fst (candidates 220 ?lib)) (snd (candidates 220 ?lib)) 1000 90"
  have "\<not> is_ok ?plan" by code_simp
  then obtain pe where "?plan = Inl pe" by (cases ?plan) auto
  with refused_space_changes_nothing [of "example_world 220" 1000 2000 example_engine 90 pe]
  show ?thesis by auto
qed

text \<open>Room is made for real: after a successful call none of the evicted torrents is in the
  catalog or in the session any more, and no other torrent entered the session.\<close>

theorem evicted_torrents_are_gone:
  assumes "catalog_wf (store e)" and "session_laws (wd_rq W)" and "ensure_space W inc e = (Inr ev, e')"
  shows "handles W e' \<subseteq> handles W e
    \<and> (\<forall>c \<in> set ev. torrent_by_hash (c_key c) (store e') = None \<and> handle_for W e' (c_key c) = None)"
proof -
  obtain p :: eviction_plan where ev: "ev = p_evict p" and all: "evict_all W (p_evict p) e = (Inr (), e')"
    using assms(3) by (rule ensure_space_Inr) blast
  have "torrent_by_hash (c_key c) (store e') = None" if "c \<in> set ev" for c
    using torrent_by_hash_without [OF assms(1) evict_all_tables [OF assms(1) all], of "c_key c"] that ev
    by (auto simp: movies_of_def split: option.splits)
  with evict_all_handles [OF assms(2) all] ev show ?thesis by simp
qed

theorem evicted_torrents_are_gone_witness:
  "\<exists>ev. fst (ensure_space (example_world 220) 30 example_engine) = Inr ev \<and> ev \<noteq> []
     \<and> (\<forall>c \<in> set ev. handle_for (example_world 220)
          (snd (ensure_space (example_world 220) 30 example_engine)) (c_key c) = None)"
proof -
  let ?r = "ensure_space (example_world 220) 30 example_engine"
  have "is_ok (fst ?r)" and ne: "projr (fst ?r) \<noteq> []" by (rule example_evictions)+
  then obtain ev where ev: "?r = (Inr ev, snd ?r)" by (metis is_ok_iff prod.collapse)
  moreover from ev ne have "ev \<noteq> []" by (metis fst_conv sum.sel(2))
  ultimately show ?thesis
    using evicted_torrents_are_gone [OF example_engine_wf _ ev] memory_session_laws by (metis example_world_simps(1) fst_conv)
qed

end
