(* ===== verification/Engine_Queue.thy ===== *)
theory Engine_Queue
  imports Engine_Evict
begin

text \<open>
  \<open>engine/queue.rs\<close>: at most \<open>max_active_downloads\<close> unfinished torrents run at once, oldest first,
  and finished ones stop unless \<open>keep_seeding\<close> is set. The task that waits for a download to
  complete is the step \<open>completed\<close>, taken when the session reports the completion.
\<close>

section \<open>Balancing\<close>

definition queue_order :: "torrent_row list \<Rightarrow> torrent_row list" where
  "queue_order rows = sort_key (\<lambda>r. (sint (t_added_at r), t_info_hash r)) rows"

text \<open>One row: start it, hold it, or leave it; the number of torrents started is counted.\<close>

definition start_or_hold ::
  "'s world \<Rightarrow> bool \<Rightarrow> handle \<Rightarrow> nat \<times> 's \<Rightarrow> nat \<times> 's" where
  "start_or_hold W want_running h ns =
     (let (started, s) = ns; rq = wd_rq W
      in if want_running \<and> rq_is_paused rq s h
         then (case rq_unpause rq h s of
                 (Inr _, s') \<Rightarrow> (started + 1, s') | (Inl _, s') \<Rightarrow> (started, s'))
         else if \<not> want_running \<and> \<not> rq_is_paused rq s h \<and> \<not> finished rq s h
         then (started, snd (rq_pause rq h s))
         else (started, s))"

fun balance_rows ::
  "'s world \<Rightarrow> nat \<Rightarrow> bool \<Rightarrow> torrent_row list \<Rightarrow> nat \<Rightarrow> nat \<times> 's \<Rightarrow> nat \<times> 's" where
  "balance_rows W most keep [] slot ns = ns"
| "balance_rows W most keep (row # rows) slot ns =
     (let rq = wd_rq W; s = snd ns
      in case rq_get rq s (t_info_hash row) of
           None \<Rightarrow> balance_rows W most keep rows slot ns
         | Some h \<Rightarrow>
             if state_label (rq_stats rq s h) = ''error'' then balance_rows W most keep rows slot ns
             else if finished rq s h
             then balance_rows W most keep rows slot (start_or_hold W keep h ns)
             else balance_rows W most keep rows (slot + 1) (start_or_hold W (slot + 1 \<le> most) h ns))"

definition max_downloads :: "'s engine \<Rightarrow> nat" where
  "max_downloads e =
     (case so_max_active_downloads (en_opts e) of Some m \<Rightarrow> unat m | None \<Rightarrow> 2 ^ 64 - 1)"

definition balance_queue :: "'s world \<Rightarrow> 's engine \<Rightarrow> nat \<times> 's engine" where
  "balance_queue W e =
     (if is_paused e then (0, e)
      else
        let (started, s) = balance_rows W (max_downloads e) (so_keep_seeding (en_opts e))
                             (queue_order (list_torrents (store e))) 0 (0, en_session e)
        in (started, set_session s e))"

definition queue_is_full :: "'s world \<Rightarrow> 's engine \<Rightarrow> bool" where
  "queue_is_full W e =
     (case so_max_active_downloads (en_opts e) of
        None \<Rightarrow> False
      | Some m \<Rightarrow>
          unat m \<le> length (filter
            (\<lambda>h. \<not> rq_is_paused (wd_rq W) (en_session e) h \<and> \<not> finished (wd_rq W) (en_session e) h)
            (rq_handles (wd_rq W) (en_session e))))"

definition queued_count :: "'s world \<Rightarrow> 's engine \<Rightarrow> nat" where
  "queued_count W e =
     (if so_max_active_downloads (en_opts e) = None \<or> is_paused e then 0
      else length (filter
            (\<lambda>h. rq_is_paused (wd_rq W) (en_session e) h \<and> \<not> finished (wd_rq W) (en_session e) h)
            (rq_handles (wd_rq W) (en_session e))))"

section \<open>Completion\<close>

text \<open>The step taken when the session reports that the torrent of a handle has completed.\<close>

definition completed :: "'s world \<Rightarrow> handle \<Rightarrow> 's engine \<Rightarrow> 's engine" where
  "completed W h e =
     (let e1 = set_store (mark_complete (h_hash h) (wd_now W) (store e)) e
      in if so_keep_seeding (en_opts e) \<or> rq_is_paused (wd_rq W) (en_session e1) h
         then snd (balance_queue W e1)
         else
           let (paused, s) = rq_pause (wd_rq W) h (en_session e1);
               e2 = snd (balance_queue W (set_session s e1))
           in case paused of
                Inl _ \<Rightarrow> e2
              | Inr _ \<Rightarrow>
                  log_event W ''done''
                    (''downloaded '' @ rq_name (wd_rq W) (en_session e2) h @ '', seeding paused'')
                    (count Seeding_Paused 1 e2))"

section \<open>What balancing does\<close>

text \<open>The unfinished downloads in queue order.\<close>

definition downloads :: "'s librqbit \<Rightarrow> 's \<Rightarrow> torrent_row list \<Rightarrow> handle list" where
  "downloads rq s rows = List.map_filter
     (\<lambda>row. case rq_get rq s (t_info_hash row) of
        Some h \<Rightarrow> if errored rq s h \<or> finished rq s h then None else Some h | None \<Rightarrow> None) rows"

text \<open>A session that can pause what runs and resume what is paused.\<close>

definition obliging :: "'s librqbit \<Rightarrow> bool" where
  "obliging rq \<longleftrightarrow>
     (\<forall>s h. h \<in> set (rq_handles rq s) \<longrightarrow>
        (if rq_is_paused rq s h then is_ok (fst (rq_unpause rq h s)) else is_ok (fst (rq_pause rq h s))))"

lemma error_label: "state_label st = ''error'' \<longleftrightarrow> st_state st = St_Error"
  by (auto simp: state_label_def split: run_state.splits)

lemma start_or_hold_session:
  "snd (start_or_hold W want h ns) =
     (if want \<and> rq_is_paused (wd_rq W) (snd ns) h then snd (rq_unpause (wd_rq W) h (snd ns))
      else if \<not> want \<and> \<not> rq_is_paused (wd_rq W) (snd ns) h \<and> \<not> finished (wd_rq W) (snd ns) h
      then snd (rq_pause (wd_rq W) h (snd ns)) else snd ns)"
  by (cases ns) (simp add: start_or_hold_def Let_def case_prod_beta split: sum.splits)

lemma start_or_hold_same:
  "session_laws (wd_rq W) \<Longrightarrow> same_torrents (wd_rq W) (snd ns) (snd (start_or_hold W want h ns))"
  by (simp add: start_or_hold_session pause_same unpause_same)

lemma start_or_hold_other:
  "session_laws (wd_rq W) \<Longrightarrow> h' \<noteq> h \<Longrightarrow>
   rq_is_paused (wd_rq W) (snd (start_or_hold W want h ns)) h' = rq_is_paused (wd_rq W) (snd ns) h'"
  by (simp add: start_or_hold_session pause_flag unpause_flag)

lemma start_or_hold_unfinished:
  assumes "session_laws (wd_rq W)" and "obliging (wd_rq W)" and "h \<in> set (rq_handles (wd_rq W) (snd ns))"
    and "\<not> finished (wd_rq W) (snd ns) h"
  shows "rq_is_paused (wd_rq W) (snd (start_or_hold W want h ns)) h \<longleftrightarrow> \<not> want"
proof -
  have "if rq_is_paused (wd_rq W) (snd ns) h then is_ok (fst (rq_unpause (wd_rq W) h (snd ns)))
      else is_ok (fst (rq_pause (wd_rq W) h (snd ns)))"
    using assms(2,3) by (simp add: obliging_def)
  with assms(1,4) show ?thesis
    by (auto simp: start_or_hold_session pause_flag unpause_flag split: if_splits)
qed

lemma balance_rows_correct:
  assumes laws: "session_laws (wd_rq W)" and ob: "obliging (wd_rq W)"
  shows "distinct (map t_info_hash rows) \<Longrightarrow>
    same_torrents (wd_rq W) (snd ns) (snd (balance_rows W most keep rows slot ns))
    \<and> (\<forall>h. (\<forall>row \<in> set rows. rq_get (wd_rq W) (snd ns) (t_info_hash row) \<noteq> Some h) \<longrightarrow>
         rq_is_paused (wd_rq W) (snd (balance_rows W most keep rows slot ns)) h
           = rq_is_paused (wd_rq W) (snd ns) h)
    \<and> (\<forall>i < length (downloads (wd_rq W) (snd ns) rows).
         rq_is_paused (wd_rq W) (snd (balance_rows W most keep rows slot ns))
           (downloads (wd_rq W) (snd ns) rows ! i) \<longleftrightarrow> \<not> slot + i < most)"
proof (induction rows arbitrary: slot ns)
  case Nil
  then show ?case by (simp add: downloads_def map_filter_simps)
next
  case (Cons row rows)
  let ?rq = "wd_rq W" and ?s = "snd ns"
  have fresh: "rq_get ?rq ?s (t_info_hash r) \<noteq> Some h"
    if "rq_get ?rq ?s (t_info_hash row) = Some h" "r \<in> set rows" for r h
  proof
    assume "rq_get ?rq ?s (t_info_hash r) = Some h"
    then have "h_hash h = t_info_hash r" using session_get_listed [OF laws] by blast
    moreover have "h_hash h = t_info_hash row" using session_get_listed [OF laws that(1)] by blast
    ultimately show False using Cons.prems that(2) by (simp add: image_iff) metis
  qed
  have dist: "distinct (map t_info_hash rows)" using Cons.prems by simp
  show ?case
  proof (cases "rq_get ?rq ?s (t_info_hash row)")
    case None
    with Cons.IH [OF dist, of ns slot] show ?thesis
      by (simp add: downloads_def map_filter_simps)
  next
    case (Some h)
    show ?thesis
    proof (cases "errored ?rq ?s h")
      case True
      with Some Cons.IH [OF dist, of ns slot] show ?thesis
        by (simp add: downloads_def map_filter_simps errored_def error_label)
    next
      case False
      define want where "want = (if finished ?rq ?s h then keep else slot + 1 \<le> most)"
      define slot' where "slot' = (if finished ?rq ?s h then slot else slot + 1)"
      define ns' where "ns' = start_or_hold W want h ns"
      have step: "balance_rows W most keep (row # rows) slot ns = balance_rows W most keep rows slot' ns'"
        using Some False by (simp add: want_def slot'_def ns'_def error_label errored_def)
      have same: "same_torrents ?rq ?s (snd ns')" unfolding ns'_def by (rule start_or_hold_same [OF laws])
      then have get: "rq_get ?rq (snd ns') = rq_get ?rq ?s"
        and dl: "downloads ?rq (snd ns') rows = downloads ?rq ?s rows"
        by (simp_all add: same_torrents_def downloads_def cong: option.case_cong)
      note IH = Cons.IH [OF dist, of ns' slot', unfolded dl get]
      have other: "rq_is_paused ?rq (snd ns') g = rq_is_paused ?rq ?s g" if "g \<noteq> h" for g
        unfolding ns'_def by (rule start_or_hold_other [OF laws that])
      have kept: "rq_is_paused ?rq (snd (balance_rows W most keep rows slot' ns')) h = rq_is_paused ?rq (snd ns') h"
        using IH fresh [OF Some] by blast
      have A: "same_torrents ?rq ?s (snd (balance_rows W most keep rows slot' ns'))"
        using same_torrents_trans [OF same] IH by blast
      have B: "rq_is_paused ?rq (snd (balance_rows W most keep rows slot' ns')) g = rq_is_paused ?rq ?s g"
        if "\<forall>r \<in> set (row # rows). rq_get ?rq ?s (t_info_hash r) \<noteq> Some g" for g
        using that Some other [of g] IH by auto
      show ?thesis
      proof (cases "finished ?rq ?s h")
        case True
        then have "downloads ?rq ?s (row # rows) = downloads ?rq ?s rows" and "slot' = slot"
          using Some by (simp_all add: downloads_def map_filter_simps slot'_def)
        with A B IH step show ?thesis by simp
      next
        case F: False
        then have d: "downloads ?rq ?s (row # rows) = h # downloads ?rq ?s rows" and sl: "slot' = slot + 1"
          using Some False by (simp_all add: downloads_def map_filter_simps slot'_def)
        have "h \<in> set (rq_handles ?rq ?s)" using session_get_listed [OF laws Some] by blast
        then have "rq_is_paused ?rq (snd ns') h \<longleftrightarrow> \<not> slot < most"
          using start_or_hold_unfinished [OF laws ob _ F, of want] F
          by (auto simp: ns'_def want_def)
        then have "rq_is_paused ?rq (snd (balance_rows W most keep rows slot' ns')) (downloads ?rq ?s (row # rows) ! i)
            \<longleftrightarrow> \<not> slot + i < most" if "i < length (downloads ?rq ?s (row # rows))" for i
          using that IH kept d sl by (cases i) auto
        with A B step show ?thesis by simp
      qed
    qed
  qed
qed


lemma memory_session_obliging: "obliging mem_session"
proof -
  have "mem_entry s h \<noteq> None" if "h \<in> set (mem_handles s)" for s h
  proof -
    have "mem_get s (h_hash h) = Some h" using that by (simp add: mem_get_listed)
    then show ?thesis by (cases h) (auto simp: mem_get_def mem_entry_def)
  qed
  then show ?thesis by (simp add: obliging_def mem_set_ok)
qed

definition busy_engine :: "memory_session engine" where
  "busy_engine = example_engine
     \<lparr>en_session := DAList.update ''aa'' (0, example_stats False, False)
                      (DAList.update ''bb'' (1, example_stats False, False) DAList.empty),
      en_opts := (default_server_opts 100)\<lparr>so_max_active_downloads := Some 1\<rparr>\<rparr>"


end
