(* ===== verification/Engine_Pause.thy ===== *)
theory Engine_Pause
  imports Engine_Queue
begin

text \<open>
  \<open>engine/pause.rs\<close> and \<open>engine/disk.rs\<close>: the global pause, its file, and the watch on the data
  disk. A pause asked for by a person is written to \<open>pause.json\<close>; one caused by a missing disk
  lives in memory only and is lifted when the disk is back.
\<close>

section \<open>The pause file\<close>

definition pause_tmp :: "'s engine \<Rightarrow> string" where
  "pause_tmp e = path_join (so_data_dir (en_opts e)) ''pause.json.tmp''"

definition load_pause :: "'s world \<Rightarrow> string option \<Rightarrow> pause_state option" where
  "load_pause W bytes =
     (case Option.bind bytes (wd_decode_pause W) of
        None \<Rightarrow> None
      | Some st \<Rightarrow>
          (case ps_until st of
             Some u \<Rightarrow> if i64_le u (wd_now W) then None else Some st
           | None \<Rightarrow> Some st))"

text \<open>Written to a temporary file first, then renamed over the old one; removing may fail silently.\<close>

definition store_pause :: "'s world \<Rightarrow> pause_state option \<Rightarrow> 's engine \<Rightarrow> unit result \<times> 's engine" where
  "store_pause W st e =
     (case st of
        None \<Rightarrow> (Inr (), if wd_write_error W (pause_file e) = None
                         then e\<lparr>en_files := (en_files e)(pause_file e := None)\<rparr> else e)
      | Some p \<Rightarrow>
          (case write_file W (pause_tmp e) (wd_encode_pause W p) e of
             (Inl err, e1) \<Rightarrow> (Inl err, e1)
           | (Inr _, e1) \<Rightarrow>
               (case wd_write_error W (pause_file e) of
                  Some err \<Rightarrow> (Inl err, e1)
                | None \<Rightarrow> (Inr (), e1\<lparr>en_files := (en_files e1)
                              (pause_file e := en_files e1 (pause_tmp e), pause_tmp e := None)\<rparr>))))"

section \<open>Pausing and resuming\<close>

record pause_report =
  pv_paused :: bool
  pv_since :: "i64 option"
  pv_until :: "i64 option"
  pv_remaining_secs :: "i64 option"
  pv_indefinite :: bool
  pv_reason :: "pause_reason option"
  pv_default_duration_secs :: u64

definition pause_view :: "'s world \<Rightarrow> 's engine \<Rightarrow> pause_report" where
  "pause_view W e =
     (let st = en_pause e
      in \<lparr>pv_paused = (st \<noteq> None),
          pv_since = map_option ps_since st,
          pv_until = Option.bind st ps_until,
          pv_remaining_secs = map_option (\<lambda>u. i64_max (u - wd_now W) 0) (Option.bind st ps_until),
          pv_indefinite = (case st of Some p \<Rightarrow> ps_until p = None | None \<Rightarrow> False),
          pv_reason = map_option ps_reason st,
          pv_default_duration_secs = d_secs (so_pause_duration (en_opts e))\<rparr>)"

fun pause_handles :: "'s librqbit \<Rightarrow> handle list \<Rightarrow> nat \<times> 's \<Rightarrow> nat \<times> 's" where
  "pause_handles rq [] ns = ns"
| "pause_handles rq (h # hs) ns =
     (if rq_is_paused rq (snd ns) h then pause_handles rq hs ns
      else case rq_pause rq h (snd ns) of
             (Inr _, s) \<Rightarrow> pause_handles rq hs (fst ns + 1, s)
           | (Inl _, s) \<Rightarrow> pause_handles rq hs (fst ns, s))"

definition apply_pause :: "'s world \<Rightarrow> 's engine \<Rightarrow> nat \<times> 's engine" where
  "apply_pause W e =
     (let (n, s) = pause_handles (wd_rq W) (rq_handles (wd_rq W) (en_session e)) (0, en_session e)
      in (n, set_session s e))"

definition thirty_days :: duration where
  "thirty_days = from_secs (30 * 86400)"

definition new_pause :: "'s world \<Rightarrow> duration \<Rightarrow> bool \<Rightarrow> 's engine \<Rightarrow> pause_state" where
  "new_pause W dur indefinite e =
     \<lparr>ps_since = (case en_pause e of Some p \<Rightarrow> ps_since p | None \<Rightarrow> wd_now W),
      ps_until = (if indefinite then None else Some (wd_now W + d_secs dur)),
      ps_reason = Manual\<rparr>"

definition pause_text :: "'s world \<Rightarrow> bool \<Rightarrow> nat \<Rightarrow> duration \<Rightarrow> string" where
  "pause_text W indefinite n dur =
     (if indefinite then ''paused everything ('' @ show_nat n @ '' torrents) until resumed''
      else ''paused everything ('' @ show_nat n @ '' torrents) for '' @ wd_show_duration W dur)"

definition pause_all ::
  "'s world \<Rightarrow> duration option \<Rightarrow> bool \<Rightarrow> 's engine \<Rightarrow> pause_report result \<times> 's engine" where
  "pause_all W dur0 indefinite e =
     (let dur = (case dur0 of Some d \<Rightarrow> d | None \<Rightarrow> so_pause_duration (en_opts e))
      in if \<not> indefinite \<and> (d_zero dur \<or> d_less thirty_days dur)
         then (Inl (fault Invalid ''pause duration must be between 1 second and 30 days''), e)
         else
           let st = new_pause W dur indefinite e
           in case (if is_disk_missing e then (Inr (), e) else store_pause W (Some st) e) of
                (Inl err, e1) \<Rightarrow> (Inl err, e1)
              | (Inr _, e1) \<Rightarrow>
                  (let (n, e2) = apply_pause W (e1\<lparr>en_pause := Some st\<rparr>);
                       e3 = count Pauses 1 (log_event W ''pause'' (pause_text W indefinite n dur) e2)
                   in (Inr (pause_view W e3), e3)))"

definition resume_text :: "string \<Rightarrow> nat \<Rightarrow> string" where
  "resume_text trigger n = ''resumed ('' @ trigger @ ''): '' @ show_nat n @ '' torrents restarted''"

definition resume_all :: "'s world \<Rightarrow> string \<Rightarrow> 's engine \<Rightarrow> nat result \<times> 's engine" where
  "resume_all W trigger e =
     (if is_disk_missing e
      then (Inl (fault Conflict
              ''the data disk is not mounted; tornas resumes on its own when it is back''), e)
      else if en_pause e = None then (Inr 0, e)
      else
        let e1 = snd (store_pause W None (e\<lparr>en_pause := None\<rparr>));
            (n, e2) = balance_queue W e1;
            e3 = count (Resumes trigger) 1 (log_event W ''resume'' (resume_text trigger n) e2)
        in (Inr n, e3))"

section \<open>The disk watch\<close>

datatype disk_verdict = Nothing | PauseForDisk | ResumeFromDisk

definition disk_action :: "bool \<Rightarrow> pause_reason option \<Rightarrow> disk_verdict" where
  "disk_action disk_ok pause =
     (if \<not> disk_ok \<and> pause = None then PauseForDisk
      else if disk_ok \<and> pause = Some DiskMissing then ResumeFromDisk
      else Nothing)"

definition data_disk_ok :: "'s world \<Rightarrow> 's engine \<Rightarrow> bool" where
  "data_disk_ok W e =
     (if \<not> so_require_mount (en_opts e) then True
      else case wd_disk W of (separate, readable, present) \<Rightarrow> separate = Inr True \<and> readable \<and> present)"

definition pause_for_disk :: "'s world \<Rightarrow> 's engine \<Rightarrow> 's engine" where
  "pause_for_disk W e =
     (if en_pause e \<noteq> None then e
      else count Pauses 1 (snd (apply_pause W
             (e\<lparr>en_pause := Some \<lparr>ps_since = wd_now W, ps_until = None, ps_reason = DiskMissing\<rparr>\<rparr>))))"

text \<open>
  One tick of the watch. Asking \<open>systemd\<close> for a restart is the second component of the result.
\<close>

definition check_pause :: "'s world \<Rightarrow> 's engine \<Rightarrow> unit result \<times> bool \<times> 's engine" where
  "check_pause W e =
     (let ok = data_disk_ok W e;
          was_missing = en_disk_missing e;
          e1 = e\<lparr>en_disk_missing := \<not> ok\<rparr>;
          e2 = (if ok \<and> was_missing then log_event W ''disk'' ''the data disk came back'' e1 else e1)
      in case disk_action ok (map_option ps_reason (en_pause e2)) of
           PauseForDisk \<Rightarrow> (Inr (), False, pause_for_disk W e2)
         | ResumeFromDisk \<Rightarrow>
             (let (r, e3) = resume_all W ''disk'' e2 in (map_sum id (\<lambda>_. ()) r, False, e3))
         | Nothing \<Rightarrow>
             (let restart = (\<not> ok \<and> wd_managed W \<and> wd_host_has_disk W);
                  e3 = (if restart then log_event W ''disk'' ''the data disk came back; restarting'' e2
                        else e2)
              in case en_pause e3 of
                   None \<Rightarrow> (Inr (), restart, snd (balance_queue W e3))
                 | Some p \<Rightarrow>
                     if ok \<and> (case ps_until p of Some u \<Rightarrow> i64_le u (wd_now W) | None \<Rightarrow> False)
                     then (let (r, e4) = resume_all W ''auto'' e3 in (map_sum id (\<lambda>_. ()) r, restart, e4))
                     else (Inr (), restart, snd (apply_pause W e3))))"

section \<open>Pausing reaches every torrent\<close>

lemma pause_handles_same:
  "session_laws rq \<Longrightarrow> same_torrents rq (snd ns) (snd (pause_handles rq hs ns))"
proof (induction hs arbitrary: ns)
  case (Cons h hs)
  obtain r s where p: "rq_pause rq h (snd ns) = (r, s)" by fastforce
  then have "same_torrents rq (snd ns) s" using pause_same [OF Cons.prems, of "snd ns" h] by simp
  then have "same_torrents rq (snd ns) (snd (pause_handles rq hs (n, s)))" for n
    using Cons.IH [OF Cons.prems, of "(n, s)"] same_torrents_trans by fastforce
  then show ?case using p Cons.IH [OF Cons.prems, of ns] by (auto split: sum.splits)
qed simp

lemma pause_handles_mono:
  "session_laws rq \<Longrightarrow> rq_is_paused rq (snd ns) h \<Longrightarrow> rq_is_paused rq (snd (pause_handles rq hs ns)) h"
proof (induction hs arbitrary: ns)
  case (Cons g hs)
  have "rq_is_paused rq (snd (rq_pause rq g (snd ns))) h"
    using Cons.prems by (simp add: pause_flag)
  then show ?case
    using Cons.IH [OF Cons.prems(1)] Cons.prems(2) by (auto split: prod.splits sum.splits)
qed simp

lemma pause_handles_all:
  "session_laws rq \<Longrightarrow> obliging rq \<Longrightarrow> set hs \<subseteq> set (rq_handles rq (snd ns)) \<Longrightarrow>
   h \<in> set hs \<Longrightarrow> rq_is_paused rq (snd (pause_handles rq hs ns)) h"
proof (induction hs arbitrary: ns)
  case (Cons g hs)
  show ?case
  proof (cases "rq_is_paused rq (snd ns) g")
    case True
    then have eq: "pause_handles rq (g # hs) ns = pause_handles rq hs ns" by simp
    show ?thesis
    proof (cases "h = g")
      case True
      with pause_handles_mono [OF Cons.prems(1) \<open>rq_is_paused rq (snd ns) g\<close>, of hs] eq show ?thesis
        by simp
    next
      case False
      with Cons.IH [OF Cons.prems(1,2), of ns] Cons.prems(3,4) eq show ?thesis by simp
    qed
  next
    case False
    obtain r s where p: "rq_pause rq g (snd ns) = (r, s)" by fastforce
    have "is_ok r" using Cons.prems(2,3) False p by (fastforce simp: obliging_def split: if_splits)
    then have eq: "pause_handles rq (g # hs) ns = pause_handles rq hs (fst ns + 1, s)"
      and g: "rq_is_paused rq s g"
      using False p pause_flag [OF Cons.prems(1), of g "snd ns" g] by (auto simp: is_ok_iff)
    have "rq_handles rq s = rq_handles rq (snd ns)"
      using pause_same [OF Cons.prems(1), of "snd ns" g] p by (simp add: same_torrents_def)
    then have "h \<in> set hs \<Longrightarrow> rq_is_paused rq (snd (pause_handles rq hs (fst ns + 1, s))) h"
      using Cons.IH [OF Cons.prems(1,2), of "(fst ns + 1, s)"] Cons.prems(3) by simp
    moreover have "rq_is_paused rq (snd (pause_handles rq hs (fst ns + 1, s))) g"
      using pause_handles_mono [OF Cons.prems(1), of "(fst ns + 1, s)" g hs] g by simp
    ultimately show ?thesis using Cons.prems(4) eq by auto
  qed
qed simp

definition all_paused :: "'s world \<Rightarrow> 's engine \<Rightarrow> bool" where
  "all_paused W e \<longleftrightarrow> (\<forall>h \<in> handles W e. rq_is_paused (wd_rq W) (en_session e) h)"

lemma apply_pause_all:
  assumes "session_laws (wd_rq W)" and "obliging (wd_rq W)"
  shows "all_paused W (snd (apply_pause W e))"
proof -
  let ?s = "snd (pause_handles (wd_rq W) (rq_handles (wd_rq W) (en_session e)) (0, en_session e))"
  have "rq_handles (wd_rq W) ?s = rq_handles (wd_rq W) (en_session e)"
    using pause_handles_same [OF assms(1), of "(0, en_session e)"] by (simp add: same_torrents_def)
  with pause_handles_all [OF assms, of "rq_handles (wd_rq W) (en_session e)" "(0, en_session e)"]
  show ?thesis by (simp add: all_paused_def apply_pause_def case_prod_beta)
qed

lemma apply_pause_frame [simp]:
  "en_library (snd (apply_pause W e)) = en_library e" "en_opts (snd (apply_pause W e)) = en_opts e"
  "en_pause (snd (apply_pause W e)) = en_pause e"
  "en_disk_missing (snd (apply_pause W e)) = en_disk_missing e"
  "en_files (snd (apply_pause W e)) = en_files e"
  by (simp_all add: apply_pause_def Let_def split: prod.splits)

lemma balance_queue_frame [simp]:
  "en_library (snd (balance_queue W e)) = en_library e" "en_opts (snd (balance_queue W e)) = en_opts e"
  "en_pause (snd (balance_queue W e)) = en_pause e"
  "en_disk_missing (snd (balance_queue W e)) = en_disk_missing e"
  "en_files (snd (balance_queue W e)) = en_files e"
  by (simp_all add: balance_queue_def Let_def split: prod.splits)

section \<open>The invariant of the pause\<close>

text \<open>
  Whatever is in the pause file is a pause somebody asked for, never one for a missing disk; and
  while the disk is missing everything is paused.
\<close>

definition pause_file_ok :: "(pause_state \<Rightarrow> string) \<Rightarrow> 's engine \<Rightarrow> bool" where
  "pause_file_ok enc e \<longleftrightarrow>
     (\<forall>text. en_files e (pause_file e) = Some text \<longrightarrow> (\<exists>p. text = enc p \<and> ps_reason p = Manual))"

definition pause_inv :: "(pause_state \<Rightarrow> string) \<Rightarrow> 's engine \<Rightarrow> bool" where
  "pause_inv enc e \<longleftrightarrow> pause_file_ok enc e \<and> (en_disk_missing e \<longrightarrow> en_pause e \<noteq> None)"

lemma pause_paths: "pause_file e \<noteq> pause_tmp e"
  by (auto simp: pause_file_def pause_tmp_def path_join_def starts_with_def)

lemma store_pause_frame [simp]:
  "en_library (snd (store_pause W st e)) = en_library e"
  "en_opts (snd (store_pause W st e)) = en_opts e"
  "en_pause (snd (store_pause W st e)) = en_pause e"
  "en_disk_missing (snd (store_pause W st e)) = en_disk_missing e"
  "en_session (snd (store_pause W st e)) = en_session e"
  by (auto simp: store_pause_def write_file_def split: option.splits prod.splits sum.splits)

lemma store_pause_file:
  "en_files (snd (store_pause W st e)) (pause_file e) = en_files e (pause_file e)
   \<or> en_files (snd (store_pause W st e)) (pause_file e) = map_option (wd_encode_pause W) st"
  using pause_paths [of e]
  by (auto simp: store_pause_def write_file_def split: option.splits prod.splits sum.splits)

lemma store_pause_ok_file:
  "fst (store_pause W (Some p) e) = Inr () \<Longrightarrow>
   en_files (snd (store_pause W (Some p) e)) (pause_file e) = Some (wd_encode_pause W p)"
  using pause_paths [of e]
  by (auto simp: store_pause_def write_file_def pause_tmp_def split: option.splits prod.splits sum.splits)

lemma store_pause_inv:
  assumes "pause_file_ok (wd_encode_pause W) e" and "\<And>p. st = Some p \<Longrightarrow> ps_reason p = Manual"
  shows "pause_file_ok (wd_encode_pause W) (snd (store_pause W st e))"
proof -
  have "pause_file (snd (store_pause W st e)) = pause_file e" by (simp add: pause_file_def)
  with assms store_pause_file [of W st e] show ?thesis
    by (cases st) (auto simp: pause_file_ok_def)
qed

lemma pause_file_ok_cong:
  "en_files e' = en_files e \<Longrightarrow> en_opts e' = en_opts e \<Longrightarrow> pause_file_ok enc e' = pause_file_ok enc e"
  by (simp add: pause_file_ok_def pause_file_def)

lemma pause_all_cases:
  obtains (refused) err where "pause_all W dur indefinite e = (Inl err, e)"
  | (failed) err d where "pause_all W dur indefinite e =
      (Inl err, snd (store_pause W (Some (new_pause W d indefinite e)) e))" "\<not> is_disk_missing e"
  | (paused) d msg e1 where
      "e1 = (if is_disk_missing e then e else snd (store_pause W (Some (new_pause W d indefinite e)) e))"
      "\<not> is_disk_missing e \<Longrightarrow> fst (store_pause W (Some (new_pause W d indefinite e)) e) = Inr ()"
      "d = (case dur of Some x \<Rightarrow> x | None \<Rightarrow> so_pause_duration (en_opts e))"
      "snd (pause_all W dur indefinite e) = count Pauses 1 (log_event W ''pause'' msg
         (snd (apply_pause W (e1\<lparr>en_pause := Some (new_pause W d indefinite e)\<rparr>))))"
      "\<exists>v. fst (pause_all W dur indefinite e) = Inr v"
proof -
  define d where "d = (case dur of Some x \<Rightarrow> x | None \<Rightarrow> so_pause_duration (en_opts e))"
  define st where "st = new_pause W d indefinite e"
  obtain r e1 where r: "(if is_disk_missing e then (Inr (), e) else store_pause W (Some st) e) = (r, e1)"
    by fastforce
  obtain n e2 where a: "apply_pause W (e1\<lparr>en_pause := Some st\<rparr>) = (n, e2)" by fastforce
  show ?thesis
  proof (cases "\<not> indefinite \<and> (d_zero d \<or> d_less thirty_days d)")
    case True
    then show ?thesis by (intro refused) (simp add: pause_all_def Let_def flip: d_def)
  next
    case bounds: False
    show ?thesis
    proof (cases r)
      case (Inl err)
      with r have "\<not> is_disk_missing e" and "store_pause W (Some st) e = (Inl err, e1)"
        by (auto split: if_splits)
      with bounds show ?thesis
        by (intro failed [of err d]) (auto simp: pause_all_def Let_def st_def simp flip: d_def)
    next
      case (Inr u)
      have "pause_all W dur indefinite e = (Inr (pause_view W (count Pauses 1 (log_event W ''pause''
          (pause_text W indefinite n d) e2))), count Pauses 1 (log_event W ''pause'' (pause_text W indefinite n d) e2))"
        using bounds r a unfolding pause_all_def Let_def d_def [symmetric] st_def [symmetric] Inr
        by simp
      with r Inr a show ?thesis
        by (intro paused [of e1 d "pause_text W indefinite n d"]) (auto simp: st_def d_def split: if_splits)
    qed
  qed
qed

lemma pause_all_inv:
  assumes "pause_inv (wd_encode_pause W) e"
  shows "pause_inv (wd_encode_pause W) (snd (pause_all W dur indefinite e))"
proof (cases rule: pause_all_cases [of W dur indefinite e])
  case refused
  then show ?thesis using assms by simp
next
  case (failed err d)
  then show ?thesis
    using assms store_pause_inv [of W e "Some (new_pause W d indefinite e)"]
    by (simp add: pause_inv_def is_disk_missing_def new_pause_def)
next
  case (paused d msg e1)
  have "pause_file_ok (wd_encode_pause W) e1"
    using assms store_pause_inv [of W e "Some (new_pause W d indefinite e)"] paused(1)
    by (simp add: pause_inv_def new_pause_def)
  then show ?thesis
    unfolding paused(4) by (simp add: pause_inv_def pause_file_ok_def pause_file_def)
qed

lemma resume_all_cases:
  obtains (kept) "snd (resume_all W trigger e) = e"
      "is_ok (fst (resume_all W trigger e)) \<Longrightarrow> en_pause e = None"
  | (resumed) n e2 where "en_pause e \<noteq> None" "\<not> en_disk_missing e"
      "balance_queue W (snd (store_pause W None (e\<lparr>en_pause := None\<rparr>))) = (n, e2)"
      "resume_all W trigger e = (Inr n, count (Resumes trigger) 1
         (log_event W ''resume'' (resume_text trigger n) e2))"
proof (cases "is_disk_missing e \<or> en_pause e = None")
  case True
  then show ?thesis by (intro kept) (auto simp: resume_all_def)
next
  case False
  moreover obtain n e2 where "balance_queue W (snd (store_pause W None (e\<lparr>en_pause := None\<rparr>))) = (n, e2)"
    by fastforce
  ultimately show ?thesis
    by (intro resumed [of n e2]) (auto simp: resume_all_def is_disk_missing_def Let_def)
qed

lemma resume_all_frame [simp]:
  "en_opts (snd (resume_all W trigger e)) = en_opts e"
  "en_disk_missing (snd (resume_all W trigger e)) = en_disk_missing e"
proof -
  show "en_opts (snd (resume_all W trigger e)) = en_opts e"
    by (cases rule: resume_all_cases [of W trigger e])
      (use balance_queue_frame [of W "snd (store_pause W None (e\<lparr>en_pause := None\<rparr>))"] in auto)
  show "en_disk_missing (snd (resume_all W trigger e)) = en_disk_missing e"
    by (cases rule: resume_all_cases [of W trigger e])
      (use balance_queue_frame [of W "snd (store_pause W None (e\<lparr>en_pause := None\<rparr>))"] in auto)
qed

lemma resume_all_inv:
  assumes "pause_inv (wd_encode_pause W) e"
  shows "pause_inv (wd_encode_pause W) (snd (resume_all W trigger e))"
proof (cases rule: resume_all_cases [of W trigger e])
  case kept
  with assms show ?thesis by simp
next
  case (resumed n e2)
  let ?e1 = "snd (store_pause W None (e\<lparr>en_pause := None\<rparr>))"
  have same: "en_files e2 = en_files ?e1" "en_opts e2 = en_opts e" "en_disk_missing e2 = en_disk_missing e"
    using balance_queue_frame [of W ?e1] resumed(3) by auto
  have "pause_file_ok (wd_encode_pause W) ?e1"
    using assms by (intro store_pause_inv) (auto simp: pause_inv_def pause_file_ok_def pause_file_def)
  with same have "pause_file_ok (wd_encode_pause W) e2" by (simp add: pause_file_ok_def pause_file_def)
  with same resumed(2,4) show ?thesis by (simp add: pause_inv_def pause_file_ok_def pause_file_def)
qed

lemma pause_inv_cong:
  "pause_inv enc e \<Longrightarrow> en_files e' = en_files e \<Longrightarrow> en_opts e' = en_opts e \<Longrightarrow>
   (en_disk_missing e' \<Longrightarrow> en_disk_missing e) \<Longrightarrow> (en_pause e \<noteq> None \<Longrightarrow> en_pause e' \<noteq> None) \<Longrightarrow>
   pause_inv enc e'"
  by (auto simp: pause_inv_def pause_file_ok_def pause_file_def)

lemma pause_for_disk_inv:
  assumes "pause_file_ok enc e" shows "pause_inv enc (pause_for_disk W e)"
  using assms by (auto simp: pause_inv_def pause_for_disk_def pause_file_ok_def pause_file_def)

section \<open>What the watch and the pause do\<close>

text \<open>The four ways one tick of the watch can end.\<close>

lemma check_pause_cases:
  obtains (held) e2 where "check_pause W e = (Inr (), False, pause_for_disk W e2)"
      "\<not> data_disk_ok W e" "en_pause e = None" "en_pause e2 = None"
      "en_files e2 = en_files e" "en_opts e2 = en_opts e" "en_disk_missing e2"
  | (lifted) trigger e2 p where "snd (snd (check_pause W e)) = snd (resume_all W trigger e2)"
      "data_disk_ok W e" "en_pause e = Some p" "en_pause e2 = Some p"
      "ps_reason p = DiskMissing \<or> (\<exists>u. ps_until p = Some u \<and> i64_le u (wd_now W))"
      "en_files e2 = en_files e" "en_opts e2 = en_opts e" "\<not> en_disk_missing e2"
  | (ran) e2 where "snd (snd (check_pause W e)) = snd (balance_queue W e2)"
      "data_disk_ok W e" "en_pause e = None" "en_pause e2 = None"
      "en_files e2 = en_files e" "en_opts e2 = en_opts e" "\<not> en_disk_missing e2"
  | (kept) e2 p where "snd (snd (check_pause W e)) = snd (apply_pause W e2)"
      "en_pause e = Some p" "en_pause e2 = Some p"
      "data_disk_ok W e \<longrightarrow> ps_reason p = Manual \<and> \<not> (\<exists>u. ps_until p = Some u \<and> i64_le u (wd_now W))"
      "en_files e2 = en_files e" "en_opts e2 = en_opts e" "en_disk_missing e2 \<longleftrightarrow> \<not> data_disk_ok W e"
proof -
  define ok where "ok = data_disk_ok W e"
  define e2 where "e2 = (if ok \<and> en_disk_missing e
      then log_event W ''disk'' ''the data disk came back'' (e\<lparr>en_disk_missing := \<not> ok\<rparr>)
      else e\<lparr>en_disk_missing := \<not> ok\<rparr>)"
  define host_back where "host_back = (\<not> ok \<and> wd_managed W \<and> wd_host_has_disk W)"
  define e3 where "e3 = (if host_back then log_event W ''disk'' ''the data disk came back; restarting'' e2 else e2)"
  have e2: "en_pause e2 = en_pause e" "en_files e2 = en_files e" "en_opts e2 = en_opts e"
    "en_disk_missing e2 \<longleftrightarrow> \<not> ok" by (simp_all add: e2_def)
  then have e3: "en_pause e3 = en_pause e" "en_files e3 = en_files e" "en_opts e3 = en_opts e"
    "en_disk_missing e3 \<longleftrightarrow> \<not> ok" by (simp_all add: e3_def)
  note step = check_pause_def [of W e, unfolded Let_def, folded ok_def, folded e2_def, folded host_back_def, folded e3_def]
  show ?thesis
  proof (cases "en_pause e")
    case None
    show ?thesis
    proof (cases ok)
      case True
      with None have "snd (snd (check_pause W e)) = snd (balance_queue W e3)"
        by (simp add: step e2 e3 disk_action_def)
      with None True e3 show ?thesis by (intro ran [of e3]) (auto simp: ok_def)
    next
      case False
      with None have "check_pause W e = (Inr (), False, pause_for_disk W e2)"
        by (simp add: step e2 disk_action_def)
      with None False e2 show ?thesis by (intro held [of e2]) (auto simp: ok_def)
    qed
  next
    case (Some p)
    consider (disk) "ok" "ps_reason p = DiskMissing"
      | (due) "ok" "ps_reason p = Manual" "\<exists>u. ps_until p = Some u \<and> i64_le u (wd_now W)"
      | (not_due) "ok \<longrightarrow> ps_reason p = Manual \<and> \<not> (\<exists>u. ps_until p = Some u \<and> i64_le u (wd_now W))"
      by (cases "ps_reason p") auto
    then show ?thesis
    proof cases
      case disk
      with Some have "snd (snd (check_pause W e)) = snd (resume_all W ''disk'' e2)"
        by (simp add: step e2 disk_action_def case_prod_beta)
      with Some disk e2 show ?thesis by (intro lifted [of "''disk''" e2 p]) (auto simp: ok_def)
    next
      case due
      with Some have "snd (snd (check_pause W e)) = snd (resume_all W ''auto'' e3)"
        by (auto simp: step e2 e3 disk_action_def case_prod_beta)
      with Some due e3 show ?thesis by (intro lifted [of "''auto''" e3 p]) (auto simp: ok_def)
    next
      case not_due
      with Some have "snd (snd (check_pause W e)) = snd (apply_pause W e3)"
        by (auto simp: step e2 e3 disk_action_def split: option.splits)
      with Some not_due e3 show ?thesis by (intro kept [of e3 p]) (auto simp: ok_def)
    qed
  qed
qed

lemma check_pause_inv:
  assumes "pause_inv (wd_encode_pause W) e"
  shows "pause_inv (wd_encode_pause W) (snd (snd (check_pause W e)))"
proof (cases rule: check_pause_cases [of W e])
  case (held e2)
  then show ?thesis using assms pause_for_disk_inv [of "wd_encode_pause W" e2 W]
    by (simp add: pause_inv_def pause_file_ok_def pause_file_def)
next
  case (lifted trigger e2 p)
  then show ?thesis using resume_all_inv [OF pause_inv_cong [OF assms, of e2], of trigger] by simp
next
  case (ran e2)
  then show ?thesis using pause_inv_cong [OF assms, of "snd (balance_queue W e2)"] by simp
next
  case (kept e2 p)
  then show ?thesis using assms by (simp add: pause_inv_def pause_file_ok_def pause_file_def)
qed

lemma resume_all_lifts:
  assumes "en_pause e \<noteq> None" and "\<not> en_disk_missing e"
  shows "en_pause (snd (resume_all W trigger e)) = None"
proof (cases rule: resume_all_cases [of W trigger e])
  case kept
  with assms show ?thesis by (auto simp: resume_all_def is_disk_missing_def Let_def is_ok_iff case_prod_beta)
next
  case (resumed n e2)
  then show ?thesis
    using balance_queue_frame(3) [of W "snd (store_pause W None (e\<lparr>en_pause := None\<rparr>))"] by simp
qed

lemma pause_for_disk_all:
  assumes "session_laws (wd_rq W)" and "obliging (wd_rq W)" and "en_pause e = None"
  shows "all_paused W (pause_for_disk W e)" and "is_paused (pause_for_disk W e)"
proof -
  let ?e = "e\<lparr>en_pause := Some \<lparr>ps_since = wd_now W, ps_until = None, ps_reason = DiskMissing\<rparr>\<rparr>"
  have "pause_for_disk W e = count Pauses 1 (snd (apply_pause W ?e))"
    using assms(3) by (simp add: pause_for_disk_def)
  then show "all_paused W (pause_for_disk W e)" and "is_paused (pause_for_disk W e)"
    using apply_pause_all [OF assms(1,2), of ?e] by (simp_all add: all_paused_def is_paused_def)
qed



section \<open>A pause survives a restart\<close>

lemma load_stored:
  assumes "wd_decode_pause W (wd_encode_pause W p) = Some p"
  shows "load_pause (W\<lparr>wd_now := now\<rparr>) (Some (wd_encode_pause W p)) =
    (if \<exists>u. ps_until p = Some u \<and> i64_le u now then None else Some p)"
  using assms by (auto simp: load_pause_def split: option.splits)

lemma pause_all_until:
  assumes "is_ok (fst (pause_all W (Some d) False e))"
  shows "map_option ps_until (en_pause (snd (pause_all W (Some d) False e))) = Some (Some (wd_now W + d_secs d))"
proof (cases rule: pause_all_cases [of W "Some d" False e])
  case (paused d' msg e1)
  then show ?thesis by (simp add: new_pause_def)
qed (use assms in simp_all)

lemma example_pauses:
  "is_ok (fst (pause_all (example_world 300) (Some (from_secs 60)) False busy_engine))"
  "is_ok (fst (pause_all (example_world 300) (Some (from_secs 60)) False example_engine))"
  by (simp_all add: pause_all_def store_pause_def write_file_def case_prod_beta Let_def is_disk_missing_def
      busy_engine_def example_engine_def example_world_def d_zero_def d_less_def from_secs_def thirty_days_def)

lemma example_pause_until:
  "map_option ps_until (en_pause (snd (pause_all (example_world 300) (Some (from_secs 60)) False busy_engine)))
    = Some (Some 360)"
  "map_option ps_until (en_pause (snd (pause_all (example_world 300) (Some (from_secs 60)) False example_engine)))
    = Some (Some 360)"
proof -
  have "wd_now (example_world 300) + d_secs (from_secs 60) = 360" by (simp add: example_world_def from_secs_def)
  with pause_all_until [OF example_pauses(1)] pause_all_until [OF example_pauses(2)] show
    "map_option ps_until (en_pause (snd (pause_all (example_world 300) (Some (from_secs 60)) False busy_engine)))
      = Some (Some 360)"
    "map_option ps_until (en_pause (snd (pause_all (example_world 300) (Some (from_secs 60)) False example_engine)))
      = Some (Some 360)"
    by simp_all
qed

text \<open>C10: A pause survives a restart and a resume ends it for good: after a successful pause with
  the data disk present, what a later start reads back from \<open>pause.json\<close>, at whatever time, is the
  pause in force unless its end has passed; it is one asked for by hand, it keeps the start of the
  pause it replaces, and once resumed (and the file removed) a start reads none. The file format is
  assumed to read back what it wrote.\<close>

theorem pause_survives_restart:
  assumes "\<And>p. wd_decode_pause W (wd_encode_pause W p) = Some p"
    and "\<not> is_disk_missing e" and "pause_all W dur indefinite e = (Inr v, e')"
  shows "\<exists>p. en_pause e' = Some p \<and> ps_reason p = Manual
      \<and> (\<forall>q. en_pause e = Some q \<longrightarrow> ps_since p = ps_since q)
      \<and> (\<forall>now. load_pause (W\<lparr>wd_now := now\<rparr>) (en_files e' (pause_file e')) =
           (if \<exists>u. ps_until p = Some u \<and> i64_le u now then None else Some p))
      \<and> (wd_write_error W (pause_file e') = None \<longrightarrow>
           (let e2 = snd (resume_all W trigger e')
            in en_pause e2 = None \<and> load_pause W (en_files e2 (pause_file e2)) = None))"
proof (cases rule: pause_all_cases [of W dur indefinite e])
  case (paused d msg e1)
  let ?p = "new_pause W d indefinite e"
  have e1: "e1 = snd (store_pause W (Some ?p) e)" using paused(1) assms(2) by simp
  have stored: "en_files e1 (pause_file e) = Some (wd_encode_pause W ?p)"
    unfolding e1 by (rule store_pause_ok_file) (use paused(2) assms(2) in simp)
  have e': "e' = count Pauses 1 (log_event W ''pause'' msg (snd (apply_pause W (e1\<lparr>en_pause := Some ?p\<rparr>))))"
    using paused(4) assms(3) by simp
  have opts: "en_opts e' = en_opts e" and p: "en_pause e' = Some ?p" and path: "pause_file e' = pause_file e"
    and present: "\<not> en_disk_missing e'" and fs: "en_files e' = en_files e1"
    using assms(2) by (simp_all add: e' e1 pause_file_def is_disk_missing_def)
  have gone: "en_pause (snd (resume_all W trigger e')) = None"
    by (rule resume_all_lifts) (simp_all add: p present)
  have removed: "load_pause W (en_files (snd (resume_all W trigger e')) (pause_file e')) = None"
    if w: "wd_write_error W (pause_file e') = None"
  proof (cases rule: resume_all_cases [of W trigger e'])
    case kept
    then show ?thesis using gone p by simp
  next
    case (resumed n e2)
    have "en_files e2 = en_files (snd (store_pause W None (e'\<lparr>en_pause := None\<rparr>)))"
      using balance_queue_frame(5) [of W "snd (store_pause W None (e'\<lparr>en_pause := None\<rparr>))"] resumed(3)
      by simp
    then show ?thesis using w resumed(4) by (simp add: store_pause_def pause_file_def load_pause_def)
  qed
  have "ps_reason ?p = Manual \<and> (\<forall>q. en_pause e = Some q \<longrightarrow> ps_since ?p = ps_since q)"
    by (simp add: new_pause_def)
  then show ?thesis
    using p gone removed load_stored [where W = W and p = ?p, OF assms(1)] stored
    by (intro exI [of _ ?p]) (simp add: fs path Let_def, simp add: pause_file_def opts)
qed (use assms(3) in simp_all)

theorem pause_survives_restart_witness:
  "let W = example_world 300; e' = snd (pause_all W (Some (from_secs 60)) False busy_engine)
   in load_pause (W\<lparr>wd_now := 330\<rparr>) (en_files e' (pause_file e')) = en_pause e'
      \<and> load_pause (W\<lparr>wd_now := 360\<rparr>) (en_files e' (pause_file e')) = None"
proof -
  let ?W = "example_world 300"
  obtain v e' where r: "pause_all ?W (Some (from_secs 60)) False busy_engine = (Inr v, e')"
  proof -
    have "is_ok (fst (pause_all ?W (Some (from_secs 60)) False busy_engine))" by (rule example_pauses)
    then show thesis using that by (metis is_ok_iff prod.collapse)
  qed
  have codec: "wd_decode_pause ?W (wd_encode_pause ?W p) = Some p" for p
    by (simp add: example_world_def example_codec)
  have "map_option ps_until (en_pause e') = Some (Some 360)" using example_pause_until(1) r by simp
  moreover have "\<not> is_disk_missing busy_engine" by (simp add: is_disk_missing_def busy_engine_def example_engine_def)
  ultimately show ?thesis
    using pause_survives_restart [OF codec, of busy_engine "Some (from_secs 60)" False v e'] r
    by (auto simp: Let_def i64_le_def)
qed

end
