(* ===== verification/Engine_Views.thy ===== *)
theory Engine_Views
  imports Engine_Pause
begin

text \<open>
  \<open>engine/views.rs\<close>: what the API, the dashboard and the metrics are shown. Nothing here changes the
  engine, except that asking for a stream marks the movie as used. What only the session knows
  (transfer snapshots, piece counts, tracker schemes, addresses) is the record parameter \<open>swarm\<close>.
\<close>

section \<open>What the session reports\<close>

record live_detail =
  ld_fetched_bytes :: u64
  ld_uploaded_bytes :: u64
  ld_checked_pieces :: u64
  ld_average_piece_time :: "duration option"
  ld_queued :: u32
  ld_connecting :: u32
  ld_live :: u32
  ld_seen :: u32
  ld_dead :: u32
  ld_not_needed :: u32
  ld_live_tcp :: u32
  ld_live_utp :: u32
  ld_live_socks :: u32

record torrent_lengths =
  tl_total :: u64
  tl_piece :: u32
  tl_pieces :: u32
  tl_files :: u64
  tl_private :: bool

record 's swarm =
  sw_live :: "'s \<Rightarrow> handle \<Rightarrow> live_detail option"
  sw_lengths :: "'s \<Rightarrow> handle \<Rightarrow> torrent_lengths option"
  sw_uploaded :: "'s \<Rightarrow> handle \<Rightarrow> u64"
  sw_trackers :: "'s \<Rightarrow> handle \<Rightarrow> string list"
  sw_download_bps :: "'s \<Rightarrow> u64"
  sw_upload_bps :: "'s \<Rightarrow> u64"
  sw_peers_live :: "'s \<Rightarrow> u32"
  sw_limits :: "'s \<Rightarrow> u32 option \<times> u32 option"
  sw_dht :: "'s \<Rightarrow> (u64 \<times> u64 \<times> u64) option"
  sw_listen_addr :: "'s \<Rightarrow> (ip_addr \<times> u16) option"
  sw_stream_len :: "'s \<Rightarrow> handle \<Rightarrow> u64 \<Rightarrow> u64 result"
  sw_version :: string
  sw_hostname :: string
  sw_uptime_secs :: u64

section \<open>Movies\<close>

record movie_view =
  mv_movie :: movie
  mv_torrent :: "torrent_row option"
  mv_state :: string
  mv_progress_bytes :: u64
  mv_total_bytes :: u64
  mv_finished :: bool
  mv_download_bps :: u64
  mv_upload_bps :: u64
  mv_peers :: u64
  mv_protected :: bool

definition view_movie :: "'s world \<Rightarrow> 's engine \<Rightarrow> movie \<Rightarrow> handle option \<Rightarrow> movie_view" where
  "view_movie W e m h0 =
     (let torrent = torrent_for_movie (imdb_id m) (store e);
          h = (case h0 of Some h \<Rightarrow> Some h
               | None \<Rightarrow> Option.bind torrent (\<lambda>t. handle_for W e (t_info_hash t)));
          protected = is_protected (wd_now W) (en_library e) (last_used_at m)
      in case h of
           Some h \<Rightarrow>
             (let stats = rq_stats (wd_rq W) (en_session e) h;
                  live = st_live stats;
                  label = state_label stats;
                  label = (if label = ''paused'' \<and> \<not> is_paused e then ''queued'' else label)
              in \<lparr>mv_movie = m, mv_torrent = torrent, mv_state = label,
                  mv_progress_bytes = st_progress_bytes stats, mv_total_bytes = st_total_bytes stats,
                  mv_finished = st_finished stats,
                  mv_download_bps = (case live of Some l \<Rightarrow> lv_download_bps l | None \<Rightarrow> 0),
                  mv_upload_bps = (case live of Some l \<Rightarrow> lv_upload_bps l | None \<Rightarrow> 0),
                  mv_peers = (case live of Some l \<Rightarrow> ucast (lv_peers_live l) | None \<Rightarrow> 0),
                  mv_protected = protected\<rparr>)
         | None \<Rightarrow>
             \<lparr>mv_movie = m, mv_torrent = torrent, mv_state = ''missing'', mv_progress_bytes = 0,
              mv_total_bytes = (case torrent of Some t \<Rightarrow> t_size_bytes t | None \<Rightarrow> 0),
              mv_finished = False, mv_download_bps = 0, mv_upload_bps = 0, mv_peers = 0,
              mv_protected = protected\<rparr>)"

definition list_movie_views :: "'s world \<Rightarrow> 's engine \<Rightarrow> movie_view list" where
  "list_movie_views W e = map (\<lambda>m. view_movie W e m None) (list_movies (store e))"

definition get_movie_view :: "'s world \<Rightarrow> 's engine \<Rightarrow> string \<Rightarrow> movie_view option" where
  "get_movie_view W e i = map_option (\<lambda>m. view_movie W e m None) (get_movie i (store e))"

definition not_loaded :: string where
  "not_loaded = ''the torrent is not loaded (the data disk may be missing)''"

definition stream_target ::
  "'s world \<Rightarrow> string \<Rightarrow> 's engine \<Rightarrow> (handle \<times> u64 \<times> string) result \<times> 's engine" where
  "stream_target W i e =
     (case torrent_for_movie i (store e) of
        None \<Rightarrow> (Inl (fault NotFound ''no such movie''), e)
      | Some t \<Rightarrow>
          (case handle_for W e (t_info_hash t) of
             None \<Rightarrow> (Inl (fault Conflict not_loaded), e)
           | Some h \<Rightarrow> (Inr (h, t_video_file_idx t, t_video_file_name t),
                        set_store (touch i (wd_now W) (store e)) e)))"

text \<open>\<open>Streamer::open\<close>: the length of the stream and the name of its file.\<close>

definition open_stream :: "'s world \<Rightarrow> 's swarm \<Rightarrow> string \<Rightarrow> 's engine \<Rightarrow> (u64 \<times> string) result \<times> 's engine" where
  "open_stream W S i e =
     (case stream_target W i e of
        (Inl err, e1) \<Rightarrow> (Inl err, e1)
      | (Inr (h, idx, name), e1) \<Rightarrow>
          (case with_context ''opening stream'' (sw_stream_len S (en_session e1) h idx) of
             Inl err \<Rightarrow> (Inl err, e1) | Inr len \<Rightarrow> (Inr (len, name), e1)))"

definition touch_movie :: "'s world \<Rightarrow> string \<Rightarrow> 's engine \<Rightarrow> 's engine" where
  "touch_movie W i e = set_store (touch i (wd_now W) (store e)) e"

definition set_last_used ::
  "'s world \<Rightarrow> string \<Rightarrow> i64 option \<Rightarrow> 's engine \<Rightarrow> movie_view result \<times> 's engine" where
  "set_last_used W i ts e =
     (if get_movie i (store e) = None then (Inl (fault NotFound ''no such movie''), e)
      else
        let e1 = set_store (touch i (case ts of Some t \<Rightarrow> t | None \<Rightarrow> wd_now W) (store e)) e
        in (case get_movie_view W e1 i of
              Some v \<Rightarrow> Inr v | None \<Rightarrow> Inl (fault NotFound ''no such movie''), e1))"

section \<open>Status\<close>

record budget_view =
  bv_limit :: u64
  bv_used :: u64
  bv_min_free :: u64
  bv_disk_free :: u64
  bv_disk_total :: u64
  bv_next_eviction :: "candidate option"

record session_report =
  sv_download_bps :: u64
  sv_upload_bps :: u64
  sv_download_limit :: "u32 option"
  sv_upload_limit :: "u32 option"
  sv_queued :: nat
  sv_peers_live :: u64
  sv_uptime_secs :: u64
  sv_torrents :: nat
  sv_listen_addr :: "(ip_addr \<times> u16) option"

record status_view =
  vw_pause :: pause_report
  vw_version :: string
  vw_hostname :: string
  vw_warnings :: "string list"
  vw_budget :: budget_view
  vw_session :: session_report
  vw_movies :: "movie_view list"
  vw_events :: "event list"

definition disk_gone_text :: "'s engine \<Rightarrow> string" where
  "disk_gone_text e = ''the data disk at '' @ so_data_dir (en_opts e)
     @ '' is not mounted: everything is paused until it is back''"

definition low_disk_text :: "u64 \<Rightarrow> u64 \<Rightarrow> string" where
  "low_disk_text free wanted = ''only '' @ human_bytes free
     @ '' free on disk, below the configured minimum of '' @ human_bytes wanted
     @ '': new movies will be refused until space is reclaimed''"

definition over_budget_text :: "u64 \<Rightarrow> u64 \<Rightarrow> string" where
  "over_budget_text used most = ''usage ('' @ human_bytes used @ '') exceeds the budget ('' @ human_bytes most
     @ ''); the next sweep will evict''"

definition no_tmdb_text :: string where
  "no_tmdb_text = ''no TMDB credentials configured: movies are catalogued by IMDb id only''"

definition warnings :: "'s world \<Rightarrow> 's engine \<Rightarrow> string list" where
  "warnings W e =
     (let lib = en_library e; used = snd (candidates (wd_now W) lib)
      in (if is_disk_missing e then [disk_gone_text e] else [])
         @ (case wd_disk_usage W of
              Inr (free, _) \<Rightarrow> if free < mc_min_free lib then [low_disk_text free (mc_min_free lib)] else []
            | Inl _ \<Rightarrow> [])
         @ (if mc_budget lib < used then [over_budget_text used (mc_budget lib)] else [])
         @ (if wd_tmdb W = None then [no_tmdb_text] else []))"

definition session_view :: "'s world \<Rightarrow> 's swarm \<Rightarrow> 's engine \<Rightarrow> session_report" where
  "session_view W S e =
     (let s = en_session e
      in \<lparr>sv_download_bps = sw_download_bps S s, sv_upload_bps = sw_upload_bps S s,
          sv_download_limit = fst (sw_limits S s), sv_upload_limit = snd (sw_limits S s),
          sv_queued = queued_count W e, sv_peers_live = ucast (sw_peers_live S s),
          sv_uptime_secs = sw_uptime_secs S, sv_torrents = length (rq_handles (wd_rq W) s),
          sv_listen_addr = sw_listen_addr S s\<rparr>)"

definition status_without_disk :: "'s world \<Rightarrow> 's swarm \<Rightarrow> 's engine \<Rightarrow> status_view" where
  "status_without_disk W S e =
     \<lparr>vw_pause = pause_view W e, vw_version = sw_version S, vw_hostname = sw_hostname S,
      vw_warnings = warnings W e,
      vw_budget = \<lparr>bv_limit = mc_budget (en_library e), bv_used = 0,
                   bv_min_free = mc_min_free (en_library e), bv_disk_free = 0, bv_disk_total = 0,
                   bv_next_eviction = None\<rparr>,
      vw_session = session_view W S e, vw_movies = [], vw_events = []\<rparr>"

definition status :: "'s world \<Rightarrow> 's swarm \<Rightarrow> 's engine \<Rightarrow> status_view result" where
  "status W S e =
     (if is_disk_missing e then Inr (status_without_disk W S e)
      else
        let (cands, used) = candidates (wd_now W) (en_library e)
        in case wd_disk_usage W of
             Inl err \<Rightarrow> Inl err
           | Inr (disk_free, disk_total) \<Rightarrow>
               Inr \<lparr>vw_pause = pause_view W e, vw_version = sw_version S, vw_hostname = sw_hostname S,
                    vw_warnings = warnings W e,
                    vw_budget =
                      \<lparr>bv_limit = mc_budget (en_library e), bv_used = used,
                       bv_min_free = mc_min_free (en_library e), bv_disk_free = disk_free,
                       bv_disk_total = disk_total,
                       bv_next_eviction =
                         min_by_key (\<lambda>c. sint (c_last_used_at c)) (filter (\<lambda>c. \<not> c_protected c) cands)\<rparr>,
                    vw_session = session_view W S e, vw_movies = list_movie_views W e,
                    vw_events = recent_events 20 (store e)\<rparr>)"

definition probe :: "'s world \<Rightarrow> 's engine \<Rightarrow> unit result" where
  "probe W e =
     (if is_disk_missing e then Inr ()
      else case wd_disk_usage W of Inl err \<Rightarrow> Inl err | Inr _ \<Rightarrow> Inr ())"

definition dht_stats :: "'s swarm \<Rightarrow> 's engine \<Rightarrow> (u64 \<times> u64 \<times> u64) option" where
  "dht_stats S e = sw_dht S (en_session e)"

section \<open>Facts for the metrics\<close>

record torrent_report =
  tr_imdb_id :: string
  tr_info_hash :: string
  tr_title :: string
  tr_state :: string
  tr_private :: bool
  tr_size_bytes :: u64
  tr_selected_bytes :: u64
  tr_progress_bytes :: u64
  tr_piece_length :: u64
  tr_pieces :: u64
  tr_pieces_verified :: u64
  tr_files :: u64
  tr_fetched_bytes :: u64
  tr_uploaded_bytes :: u64
  tr_download_bps :: u64
  tr_upload_bps :: u64
  tr_peers :: "(string \<times> u64) list"
  tr_peers_live_by_transport :: "(string \<times> u64) list"
  tr_piece_download_avg :: "duration option"
  tr_eta_secs :: "u64 option"
  tr_idle_secs :: i64
  tr_trackers_by_scheme :: "(string \<times> nat) list"

definition count_by_name :: "string list \<Rightarrow> (string \<times> nat) list" where
  "count_by_name xs = map (\<lambda>s. (s, length (filter ((=) s) xs))) (sort (remdups xs))"

definition peer_count :: "live_detail option \<Rightarrow> (live_detail \<Rightarrow> u32) \<Rightarrow> u64" where
  "peer_count d f = (case d of Some l \<Rightarrow> ucast (f l) | None \<Rightarrow> 0)"

text \<open>The average piece time is kept as a duration; the code converts it to seconds.\<close>

definition torrent_fact ::
  "'s world \<Rightarrow> 's swarm \<Rightarrow> 's engine \<Rightarrow> movie list \<Rightarrow> torrent_row \<Rightarrow> handle \<Rightarrow> torrent_report" where
  "torrent_fact W S e movies row h =
     (let s = en_session e;
          m = find (\<lambda>m. imdb_id m = t_imdb_id row) movies;
          stats = rq_stats (wd_rq W) s h;
          len = (case sw_lengths S s h of Some l \<Rightarrow> l
                 | None \<Rightarrow> \<lparr>tl_total = 0, tl_piece = 0, tl_pieces = 0, tl_files = 0, tl_private = False\<rparr>);
          live = st_live stats;
          d = sw_live S s h;
          down = (case live of Some l \<Rightarrow> lv_download_bps l | None \<Rightarrow> 0);
          remaining = sat_sub (st_total_bytes stats) (st_progress_bytes stats)
      in \<lparr>tr_imdb_id = t_imdb_id row, tr_info_hash = t_info_hash row,
          tr_title = (case m of Some m \<Rightarrow> title m | None \<Rightarrow> []),
          tr_state = state_label stats, tr_private = tl_private len, tr_size_bytes = tl_total len,
          tr_selected_bytes = st_total_bytes stats, tr_progress_bytes = st_progress_bytes stats,
          tr_piece_length = ucast (tl_piece len), tr_pieces = ucast (tl_pieces len),
          tr_pieces_verified = (case d of Some l \<Rightarrow> ld_checked_pieces l | None \<Rightarrow> 0),
          tr_files = tl_files len,
          tr_fetched_bytes = (case d of Some l \<Rightarrow> ld_fetched_bytes l | None \<Rightarrow> 0),
          tr_uploaded_bytes = (case d of Some l \<Rightarrow> ld_uploaded_bytes l | None \<Rightarrow> sw_uploaded S s h),
          tr_download_bps = down,
          tr_upload_bps = (case live of Some l \<Rightarrow> lv_upload_bps l | None \<Rightarrow> 0),
          tr_peers =
            [(''queued'', peer_count d ld_queued), (''connecting'', peer_count d ld_connecting),
             (''live'', peer_count d ld_live), (''seen'', peer_count d ld_seen),
             (''dead'', peer_count d ld_dead), (''not_needed'', peer_count d ld_not_needed)],
          tr_peers_live_by_transport =
            [(''tcp'', peer_count d ld_live_tcp), (''utp'', peer_count d ld_live_utp),
             (''socks'', peer_count d ld_live_socks)],
          tr_piece_download_avg = Option.bind d ld_average_piece_time,
          tr_eta_secs = (if \<not> st_finished stats \<and> 0 < down then Some (remaining div down) else None),
          tr_idle_secs = wd_now W - (case m of Some m \<Rightarrow> last_used_at m | None \<Rightarrow> t_added_at row),
          tr_trackers_by_scheme = count_by_name (sw_trackers S s h)\<rparr>)"

definition torrent_facts :: "'s world \<Rightarrow> 's swarm \<Rightarrow> 's engine \<Rightarrow> torrent_report list" where
  "torrent_facts W S e =
     List.map_filter
       (\<lambda>row. map_option (torrent_fact W S e (list_movies (store e)) row) (handle_for W e (t_info_hash row)))
       (list_torrents (store e))"

section \<open>What a status shows\<close>

lemma state_label_paused: "state_label st = ''paused'' \<longleftrightarrow> st_state st = St_Paused \<and> \<not> st_finished st"
  by (auto simp: state_label_def split: run_state.splits)

lemma state_label_known: "state_label st \<notin> {''missing'', ''queued''}"
  by (auto simp: state_label_def split: run_state.splits)

text \<open>The state of a listed movie and the global pause and session agree.\<close>

lemma view_state:
  assumes "v = view_movie W e m None"
  shows "(mv_state v = ''missing'' \<longleftrightarrow>
            (\<forall>t. mv_torrent v = Some t \<longrightarrow> handle_for W e (t_info_hash t) = None))
    \<and> (mv_state v = ''queued'' \<longrightarrow> \<not> is_paused e \<and> \<not> mv_finished v)
    \<and> (mv_state v = ''paused'' \<longrightarrow> is_paused e \<and> \<not> mv_finished v)
    \<and> mv_torrent v = torrent_for_movie (imdb_id m) (store e)"
proof (cases "torrent_for_movie (imdb_id m) (store e)")
  case None
  then show ?thesis by (simp add: assms view_movie_def Let_def)
next
  case (Some t)
  show ?thesis
  proof (cases "handle_for W e (t_info_hash t)")
    case None
    with Some show ?thesis by (simp add: assms view_movie_def Let_def)
  next
    case (Some h)
    with \<open>torrent_for_movie (imdb_id m) (store e) = Some t\<close>
      state_label_known [of "rq_stats (wd_rq W) (en_session e) h"]
      state_label_paused [of "rq_stats (wd_rq W) (en_session e) h"]
    show ?thesis by (auto simp: assms view_movie_def Let_def)
  qed
qed

lemma first_evicted_is_oldest:
  assumes "plan cs used inc most extra = Inr p" and "p_evict p = c # rest"
  shows "\<exists>n. min_by_key (\<lambda>c. sint (c_last_used_at c)) (filter (\<lambda>c. \<not> c_protected c) cs) = Some n
    \<and> c_last_used_at n = c_last_used_at c"
proof -
  let ?cs = "filter (\<lambda>c. \<not> c_protected c) cs" and ?f = "\<lambda>c. sint (c_last_used_at c)"
  have "\<exists>k. p_evict p = take k (lru_order cs)"
  proof (cases "p_evict p = []")
    case False
    then obtain need where "p_evict p = fst (pick need 0 [] (lru_order cs))"
      using assms(1) by (auto simp: plan_def Let_def split: if_splits prod.splits) (metis fst_conv)
    with pick_prefix [of need 0 "[]" "lru_order cs"] show ?thesis by simp
  qed (metis take0)
  then obtain k where k: "p_evict p = take k (lru_order cs)" by blast
  obtain os where order: "lru_order cs = c # os"
    using assms(2) k by (cases "lru_order cs"; cases k) auto
  then have c: "c \<in> set ?cs" using set_lru_order [of cs] by auto
  have "\<forall>d \<in> set ?cs. lru_key c \<le> lru_key d"
    using sorted_lru_order [of cs] order set_lru_order [of cs] by auto
  then have least: "\<forall>d \<in> set ?cs. ?f c \<le> ?f d" by (fastforce simp: lru_key_def less_eq_prod_def)
  obtain n where n: "min_by_key ?f ?cs = Some n" using c min_by_key_None [of ?f ?cs] by (metis empty_iff list.set(1) not_None_eq)
  with min_by_key_Some [OF n] c least have "?f n = ?f c" by (meson antisym)
  with n show ?thesis by (metis signed_word_eqI)
qed


definition example_swarm :: "memory_session swarm" where
  "example_swarm =
     \<lparr>sw_live = (\<lambda>_ _. None), sw_lengths = (\<lambda>_ _. None), sw_uploaded = (\<lambda>_ _. 0),
      sw_trackers = (\<lambda>_ _. []), sw_download_bps = (\<lambda>_. 0), sw_upload_bps = (\<lambda>_. 0),
      sw_peers_live = (\<lambda>_. 0), sw_limits = (\<lambda>_. (None, None)), sw_dht = (\<lambda>_. None),
      sw_listen_addr = (\<lambda>_. None), sw_stream_len = (\<lambda>_ _ _. Inr 10), sw_version = ''0'',
      sw_hostname = ''box'', sw_uptime_secs = 1\<rparr>"


section \<open>Streaming protects\<close>

lemma get_movie_touch:
  "get_movie i (touch i now c) = map_option (\<lambda>m. m\<lparr>last_used_at := now\<rparr>) (get_movie i c)"
  by (auto simp: get_movie_def touch_def tbl_get_upd option.map_comp o_def)

lemma torrent_for_movie_touch [simp]: "torrent_for_movie i (touch j now c) = torrent_for_movie i c"
  by (simp add: torrent_for_movie_def touch_def)

lemma movie_of_torrent:
  assumes "catalog_wf c" and "torrent_for_movie i c = Some t"
  shows "\<exists>m. get_movie i c = Some m"
proof -
  obtain r where "r \<in> set (ct_torrents c)" "r_imdb_id r = i"
    using torrent_for_movie_Some [OF assms(2)] by (auto simp: list_torrents_def torrent_from_record_def)
  then have "i \<in> movie_key ` set (ct_movies c)" using assms(1) by (auto simp: catalog_wf_def)
  then show ?thesis using tbl_get_None [of movie_key i "ct_movies c"] by (auto simp: get_movie_def)
qed

text \<open>C17: Opening a stream protects the movie: whenever a movie's stream is opened (and the grace
  window is positive), no eviction that runs at that moment, for whatever incoming size, takes the
  movie or its torrent away.\<close>

theorem streaming_protects:
  assumes "catalog_wf (store e)" and "stream_target W i e = (Inr (h, idx, name), e')"
    and "0 < sint (mc_stream_grace (en_library e))"
  shows "\<exists>m t. get_movie i (store (snd (ensure_space W inc e'))) = Some m
    \<and> torrent_for_movie i (store (snd (ensure_space W inc e'))) = Some t
    \<and> t_video_file_idx t = idx \<and> t_video_file_name t = name \<and> last_used_at m = wd_now W"
proof -
  obtain t where t: "torrent_for_movie i (store e) = Some t" "t_video_file_idx t = idx"
      "t_video_file_name t = name" and e': "e' = set_store (touch i (wd_now W) (store e)) e"
    using assms(2) by (auto simp: stream_target_def split: option.splits)
  obtain m where m: "get_movie i (store e) = Some m" using movie_of_torrent [OF assms(1) t(1)] by blast
  have wf: "catalog_wf (store e')" using assms(1) by (simp add: e' touch_wf)
  have m': "get_movie i (store e') = Some (m\<lparr>last_used_at := wd_now W\<rparr>)"
    using m by (simp add: e' get_movie_touch)
  have "is_protected (wd_now W) (en_library e') (wd_now W)"
    using assms(3) by (simp add: is_protected_def i64_lt_def e')
  with ensure_space_keeps [OF wf m', of W inc] t show ?thesis by (simp add: e')
qed

theorem streaming_protects_witness:
  "\<exists>m. get_movie ''tt1'' (store (snd (ensure_space (example_world 500) 30
      (snd (stream_target (example_world 500) ''tt1'' example_engine))))) = Some m \<and> last_used_at m = 500"
proof -
  let ?r = "stream_target (example_world 500) ''tt1'' example_engine"
  have "is_ok (fst ?r)" and g: "0 < sint (mc_stream_grace (en_library example_engine))" by code_simp+
  then obtain h idx name where r: "?r = (Inr (h, idx, name), snd ?r)"
    by (metis is_ok_iff prod.collapse)
  from streaming_protects [OF example_engine_wf r g, of 30] show ?thesis by auto
qed

end
