(* ===== verification/Engine_Session.thy ===== *)
theory Engine_Session
  imports Engine_Views
begin

text \<open>
  \<open>engine/session.rs\<close>, \<open>engine/limits.rs\<close> and \<open>engine/trackers.rs\<close>: how a catalogued torrent is put
  back into the session, the agreement of session and catalog after a restart, reloading a torrent
  with new options while keeping its piece map, and re-announcing after a tracker refresh. Waiting
  for a re-added torrent to initialise changes nothing and is left out.
\<close>

section \<open>Sources and options\<close>

definition read_file :: "'s engine \<Rightarrow> string \<Rightarrow> string result" where
  "read_file e path =
     (case en_files e path of
        Some text \<Rightarrow> Inr text | None \<Rightarrow> Inl (bail ''No such file or directory (os error 2)''))"

text \<open>The saved metadata first, then the stored file, then the magnet link.\<close>

definition source_for :: "'s engine \<Rightarrow> torrent_row \<Rightarrow> add_source result" where
  "source_for e row =
     (case en_files e (meta_path e (t_info_hash row)) of
        Some bytes \<Rightarrow> Inr (From_Bytes bytes)
      | None \<Rightarrow>
          (case strip_prefix (t_magnet row) ''file://'' of
             Some path \<Rightarrow> map_sum id From_Bytes (with_context (''reading '' @ path) (read_file e path))
           | None \<Rightarrow> Inr (From_Url (t_magnet row))))"

definition nonzero :: "u32 option \<Rightarrow> u32 option" where
  "nonzero v = (case v of Some x \<Rightarrow> if x = 0 then None else Some x | None \<Rightarrow> None)"

definition current_trackers :: "'s world \<Rightarrow> 's engine \<Rightarrow> string list" where
  "current_trackers W e = current (wd_url_parse W) (wd_now W) (en_trackers e)"

definition torrent_options :: "'s world \<Rightarrow> 's engine \<Rightarrow> torrent_row \<Rightarrow> bool \<Rightarrow> add_options" where
  "torrent_options W e row paused =
     default_add_options
       \<lparr>ao_overwrite := True, ao_only_files := Some [t_video_file_idx row],
        ao_trackers := (if t_private row then None else Some (current_trackers W e)),
        ao_paused := paused, ao_download_bps := nonzero (t_download_limit row),
        ao_upload_bps := nonzero (t_upload_limit row), ao_peer_limit := map_option ucast (t_peer_limit row)\<rparr>"

text \<open>\<open>with_extension("bitv.tmp")\<close> on a path that ends in \<open>.bitv\<close>.\<close>

definition bitv_tmp :: "'s engine \<Rightarrow> string \<Rightarrow> string" where
  "bitv_tmp e info_hash = bitv_path e info_hash @ ''.tmp''"

definition write_piece_map ::
  "'s world \<Rightarrow> string \<Rightarrow> string \<Rightarrow> 's engine \<Rightarrow> unit result \<times> 's engine" where
  "write_piece_map W info_hash bytes e =
     (let bitv = bitv_path e info_hash; tmp = bitv_tmp e info_hash
      in case write_file W tmp bytes e of
           (Inl err, e1) \<Rightarrow> (with_context (''writing '' @ wd_quote W tmp) (Inl err), e1)
         | (Inr _, e1) \<Rightarrow>
             (case wd_write_error W bitv of
                Some err \<Rightarrow> (with_context (''replacing '' @ wd_quote W bitv) (Inl err), e1)
              | None \<Rightarrow> (Inr (), e1\<lparr>en_files := (en_files e1)(bitv := Some bytes, tmp := None)\<rparr>)))"

section \<open>Agreement with the catalog\<close>

fun remove_orphans :: "'s librqbit \<Rightarrow> torrent_row list \<Rightarrow> handle list \<Rightarrow> 's \<Rightarrow> 's" where
  "remove_orphans rq known [] s = s"
| "remove_orphans rq known (h # hs) s =
     remove_orphans rq known hs
       (if list_ex (\<lambda>k. t_info_hash k = h_hash h) known then s else snd (rq_delete rq (h_id h) True s))"

fun readd_missing ::
  "'s world \<Rightarrow> 's engine \<Rightarrow> handle list \<Rightarrow> torrent_row list \<Rightarrow> 's \<Rightarrow> 's" where
  "readd_missing W e loaded [] s = s"
| "readd_missing W e loaded (row # rows) s =
     readd_missing W e loaded rows
       (if list_ex (\<lambda>h. h_hash h = t_info_hash row) loaded then s
        else case source_for e row of
               Inl _ \<Rightarrow> s
             | Inr src \<Rightarrow> snd (rq_add (wd_rq W) src (torrent_options W e row (is_paused e)) s))"

definition reconcile :: "'s world \<Rightarrow> 's engine \<Rightarrow> 's engine" where
  "reconcile W e =
     (let known = list_torrents (store e);
          loaded = rq_handles (wd_rq W) (en_session e)
      in set_session (readd_missing W e loaded known
           (remove_orphans (wd_rq W) known loaded (en_session e))) e)"

section \<open>Stopping\<close>

fun save_piece_maps :: "'s world \<Rightarrow> handle list \<Rightarrow> 's engine \<Rightarrow> 's engine" where
  "save_piece_maps W [] e = e"
| "save_piece_maps W (h # hs) e =
     save_piece_maps W hs
       (case rq_piece_map (wd_rq W) (en_session e) h of
          Some bytes \<Rightarrow> snd (write_piece_map W (h_hash h) bytes e) | None \<Rightarrow> e)"

definition shutdown :: "'s world \<Rightarrow> 's engine \<Rightarrow> 's engine" where
  "shutdown W e =
     (let e1 = set_session (rq_stop (wd_rq W) (en_session e)) e
      in if is_disk_missing e1 then e1
         else save_piece_maps W (rq_handles (wd_rq W) (en_session e1)) e1)"

section \<open>Reloading a torrent\<close>

text \<open>The metadata of a torrent added before it was kept is saved while it is in memory.\<close>

definition save_metadata :: "'s world \<Rightarrow> handle \<Rightarrow> string \<Rightarrow> 's engine \<Rightarrow> unit result \<times> 's engine" where
  "save_metadata W h meta e =
     (if en_files e meta \<noteq> None then (Inr (), e)
      else case rq_metadata (wd_rq W) (en_session e) h of
             None \<Rightarrow> (Inr (), e)
           | Some (_, bytes) \<Rightarrow>
               (let (r, e1) = write_file W meta bytes e
                in (with_context (''saving '' @ wd_quote W meta) r, e1)))"

text \<open>Deleting, restoring the piece map and adding again.\<close>

definition replace_torrent ::
  "'s world \<Rightarrow> torrent_row \<Rightarrow> nat \<Rightarrow> add_source \<Rightarrow> string option \<Rightarrow> add_options \<Rightarrow> 's engine
   \<Rightarrow> unit result \<times> 's engine" where
  "replace_torrent W row i src saved opts e =
     (case rq_delete (wd_rq W) i False (en_session e) of
        (Inl err, s) \<Rightarrow> (with_context (''reloading '' @ t_imdb_id row) (Inl err), set_session s e)
      | (Inr _, s) \<Rightarrow>
          (case (case saved of None \<Rightarrow> (Inr (), set_session s e)
                 | Some bytes \<Rightarrow> write_piece_map W (t_info_hash row) bytes (set_session s e)) of
             (Inl err, e2) \<Rightarrow> (Inl err, e2)
           | (Inr _, e2) \<Rightarrow>
               (let (r, s2) = rq_add (wd_rq W) src opts (en_session e2)
                in (with_context (''re-adding '' @ t_imdb_id row) (map_sum id (\<lambda>_. ()) r),
                    set_session s2 e2))))"

definition reload_torrent :: "'s world \<Rightarrow> torrent_row \<Rightarrow> 's engine \<Rightarrow> unit result \<times> 's engine" where
  "reload_torrent W row e =
     (let rq = wd_rq W
      in case handle_for W e (t_info_hash row) of
           None \<Rightarrow> (Inr (), e)
         | Some h \<Rightarrow>
             (let was_paused = rq_is_paused rq (en_session e) h;
                  peers = rq_live_peers rq (en_session e) h;
                  e1 = (if was_paused then e else set_session (snd (rq_pause rq h (en_session e))) e);
                  saved = rq_piece_map rq (en_session e1) h
              in case save_metadata W h (meta_path e1 (t_info_hash row)) e1 of
                   (Inl err, e2) \<Rightarrow> (Inl err, e2)
                 | (Inr _, e2) \<Rightarrow>
                     (case source_for e2 row of
                        Inl err \<Rightarrow> (Inl err, e2)
                      | Inr src \<Rightarrow>
                          (let opts = torrent_options W e2 row was_paused;
                               opts = (if peers = [] then opts else opts\<lparr>ao_initial_peers := Some peers\<rparr>)
                           in replace_torrent W row (h_id h) src saved opts e2))))"

section \<open>Limits\<close>

definition limit_text :: "u32 option \<Rightarrow> string" where
  "limit_text v = (case v of Some x \<Rightarrow> human_rate (ucast x) | None \<Rightarrow> ''default'')"

definition limits_text :: "string \<Rightarrow> u32 option \<Rightarrow> u32 option \<Rightarrow> u32 option \<Rightarrow> string" where
  "limits_text imdb download upload peers =
     imdb @ '': download '' @ limit_text download @ '', upload '' @ limit_text upload @ '', ''
       @ (case peers of Some p \<Rightarrow> show_nat (unat p) @ '' peers'' | None \<Rightarrow> ''default peers'')"

definition limits_refused :: anyhow where
  "limits_refused = fault Conflict ''the data disk is missing; limits can be changed once it is back''"

definition set_movie_limits ::
  "'s world \<Rightarrow> string \<Rightarrow> u32 option \<Rightarrow> u32 option \<Rightarrow> u32 option \<Rightarrow> 's engine
   \<Rightarrow> movie_view result \<times> 's engine" where
  "set_movie_limits W i download upload peers e =
     (if is_disk_missing e then (Inl limits_refused, e)
      else case torrent_for_movie i (store e) of
             None \<Rightarrow> (Inl (fault NotFound ''no such movie''), e)
           | Some row \<Rightarrow>
               (let e1 = set_store (set_limits (t_info_hash row) download upload peers (store e)) e;
                    row1 = row\<lparr>t_download_limit := download, t_upload_limit := upload,
                               t_peer_limit := peers\<rparr>
                in case reload_torrent W row1 e1 of
                     (Inl err, e2) \<Rightarrow> (Inl err, e2)
                   | (Inr _, e2) \<Rightarrow>
                       (let e3 = log_event W ''limits'' (limits_text i download upload peers) e2
                        in (case get_movie_view W e3 i of
                              Some v \<Rightarrow> Inr v | None \<Rightarrow> Inl (fault NotFound ''no such movie''), e3))))"

section \<open>Re-announcing\<close>

fun reannounce_rows :: "'s world \<Rightarrow> torrent_row list \<Rightarrow> nat \<Rightarrow> 's engine \<Rightarrow> nat result \<times> 's engine" where
  "reannounce_rows W [] n e = (Inr n, e)"
| "reannounce_rows W (row # rows) n e =
     (let rq = wd_rq W; s = en_session e
      in case handle_for W e (t_info_hash row) of
           None \<Rightarrow> reannounce_rows W rows n e
         | Some h \<Rightarrow>
             (let private = (case rq_metadata rq s h of Some (p, _) \<Rightarrow> p | None \<Rightarrow> False)
              in if private \<or> finished rq s h \<or> rq_is_paused rq s h then reannounce_rows W rows n e
                 else case reload_torrent W row e of
                        (Inl err, e1) \<Rightarrow> (Inl err, e1)
                      | (Inr _, e1) \<Rightarrow> reannounce_rows W rows (n + 1) e1))"

definition reannounce_active :: "'s world \<Rightarrow> 's engine \<Rightarrow> nat result \<times> 's engine" where
  "reannounce_active W e =
     (if is_paused e then (Inr 0, e) else reannounce_rows W (list_torrents (store e)) 0 e)"

definition tracker_cache :: "'s engine \<Rightarrow> string" where
  "tracker_cache e = path_join (so_data_dir (en_opts e)) ''trackers.json''"

definition refresh_trackers :: "'s world \<Rightarrow> 's engine \<Rightarrow> bool \<times> 's engine" where
  "refresh_trackers W e =
     (let (changed, feed) = refresh (wd_url_parse W) (wd_http_get W) (wd_now W)
                              (wd_write_error W (tracker_cache e) = None) (en_trackers e)
      in (changed, e\<lparr>en_trackers := feed\<rparr>))"

text \<open>One tick of the refresh task; its errors are only logged.\<close>

definition tracker_tick :: "'s world \<Rightarrow> 's engine \<Rightarrow> 's engine" where
  "tracker_tick W e =
     (if \<not> tc_enabled (tf_config (en_trackers e)) \<or> is_disk_missing e then e
      else
        let (changed, e1) = refresh_trackers W e
        in if changed \<and> tc_reannounce_active (tf_config (en_trackers e)) then snd (reannounce_active W e1)
           else e1)"

section \<open>Private torrents and the public feed\<close>

lemma trackers_frame [simp]:
  "meta_path (en_trackers_update f e) = meta_path e" "bitv_path (en_trackers_update f e) = bitv_path e"
  "bitv_tmp (en_trackers_update f e) = bitv_tmp e"
  "handle_for W (en_trackers_update f e) = handle_for W e"
  "source_for (en_trackers_update f e) = source_for e"
  "is_paused (en_trackers_update f e) = is_paused e"
  "set_session s (en_trackers_update f e) = en_trackers_update f (set_session s e)"
  by (simp_all add: fun_eq_iff meta_path_def bitv_path_def bitv_tmp_def handle_for_def source_for_def
      read_file_def is_paused_def set_session_def split: option.splits)

lemma write_file_trackers [simp]:
  "write_file W p t (en_trackers_update f e) = map_prod id (en_trackers_update f) (write_file W p t e)"
  by (simp add: write_file_def split: option.splits)

lemma write_piece_map_trackers [simp]:
  "write_piece_map W x b (en_trackers_update f e) = map_prod id (en_trackers_update f) (write_piece_map W x b e)"
  by (simp add: write_piece_map_def Let_def case_prod_beta split: sum.splits option.splits)

lemma save_metadata_trackers [simp]:
  "save_metadata W h m (en_trackers_update f e) = map_prod id (en_trackers_update f) (save_metadata W h m e)"
  by (simp add: save_metadata_def Let_def case_prod_beta split: option.splits)

lemma replace_torrent_trackers [simp]:
  "replace_torrent W row i src saved opts (en_trackers_update f e) =
     map_prod id (en_trackers_update f) (replace_torrent W row i src saved opts e)"
  by (simp add: replace_torrent_def Let_def case_prod_beta split: sum.splits option.splits)

lemma private_options:
  "t_private row \<Longrightarrow> torrent_options W (en_trackers_update f e) row p = torrent_options W e row p"
  by (simp add: torrent_options_def)

lemma readd_missing_trackers:
  "(\<And>row. row \<in> set rows \<Longrightarrow> t_private row) \<Longrightarrow>
   readd_missing W (en_trackers_update f e) loaded rows s = readd_missing W e loaded rows s"
  by (induction rows arbitrary: s) (simp_all add: private_options split: sum.splits)



section \<open>The session after a restart\<close>

lemma remove_orphans_session:
  assumes laws: "session_laws rq" and ok: "\<And>i d s. is_ok (fst (rq_delete rq i d s))"
  shows "set hs \<subseteq> set (rq_handles rq s0) \<Longrightarrow> inj_on h_id (set (rq_handles rq s0)) \<Longrightarrow>
    set (rq_handles rq s) \<subseteq> set (rq_handles rq s0) \<Longrightarrow>
    set (rq_handles rq (remove_orphans rq known hs s)) =
      {h \<in> set (rq_handles rq s). h \<in> set hs \<longrightarrow> h_hash h \<in> t_info_hash ` set known}"
proof (induction hs arbitrary: s)
  case (Cons g hs)
  define s' where "s' = (if list_ex (\<lambda>k. t_info_hash k = h_hash g) known then s
    else snd (rq_delete rq (h_id g) True s))"
  have "set (rq_handles rq s') =
      {h \<in> set (rq_handles rq s). h = g \<longrightarrow> h_hash h \<in> t_info_hash ` set known}"
  proof (cases "list_ex (\<lambda>k. t_info_hash k = h_hash g) known")
    case True
    then show ?thesis by (auto simp: s'_def list_ex_iff intro: rev_image_eqI)
  next
    case False
    then have "set (rq_handles rq s') = {h \<in> set (rq_handles rq s). h_id h \<noteq> h_id g}"
      by (simp add: s'_def delete_handles [OF laws] ok)
    moreover have "h_hash g \<notin> t_info_hash ` set known" using False by (auto simp: list_ex_iff)
    moreover have "h_id h = h_id g \<longleftrightarrow> h = g" if "h \<in> set (rq_handles rq s)" for h
      using that Cons.prems inj_onD [of h_id "set (rq_handles rq s0)" h g] by auto
    ultimately show ?thesis by auto
  qed
  moreover have "set (rq_handles rq s') \<subseteq> set (rq_handles rq s0)" using Cons.prems(3) calculation by auto
  ultimately show ?case using Cons.IH [of s'] Cons.prems by (auto simp flip: s'_def)
qed simp

lemma remove_orphans_flag:
  assumes laws: "session_laws rq" and inj: "inj_on h_id (set (rq_handles rq s0))"
    and h: "h \<in> set (rq_handles rq s0)" "h_hash h \<in> t_info_hash ` set known"
  shows "set hs \<subseteq> set (rq_handles rq s0) \<Longrightarrow>
    rq_is_paused rq (remove_orphans rq known hs s) h = rq_is_paused rq s h"
proof (induction hs arbitrary: s)
  case (Cons g hs)
  have "rq_is_paused rq (if list_ex (\<lambda>k. t_info_hash k = h_hash g) known then s
      else snd (rq_delete rq (h_id g) True s)) h = rq_is_paused rq s h"
  proof (cases "h_id h = h_id g")
    case True
    then have "h = g" using inj_onD [OF inj, of h g] h Cons.prems by simp
    then have "list_ex (\<lambda>k. t_info_hash k = h_hash g) known" using h(2) by (auto simp: list_ex_iff)
    then show ?thesis by simp
  qed (simp add: delete_flag [OF laws])
  with Cons.IH Cons.prems show ?case by simp
qed simp

text \<open>A row whose torrent the session takes back, under its own hash, whenever it is not loaded.\<close>

definition restorable :: "'s world \<Rightarrow> 's engine \<Rightarrow> torrent_row \<Rightarrow> bool" where
  "restorable W e row \<longleftrightarrow>
     (\<exists>src. source_for e row = Inr src \<and>
        (\<forall>ao s. rq_get (wd_rq W) s (t_info_hash row) = None \<and> \<not> ao_list_only ao \<longrightarrow>
           (\<exists>h. fst (rq_add (wd_rq W) src ao s) = Inr (Added h) \<and> h_hash h = t_info_hash row)))"

lemma torrent_options_simps [simp]:
  "\<not> ao_list_only (torrent_options W e row p)" "ao_paused (torrent_options W e row p) = p"
  by (simp_all add: torrent_options_def default_add_options_def)

lemma no_handle_of_hash:
  "session_laws rq \<Longrightarrow> x \<notin> h_hash ` set (rq_handles rq s) \<Longrightarrow> rq_get rq s x = None"
  using session_get_listed [of rq s x] by (cases "rq_get rq s x") auto

lemma readd_missing_session:
  assumes laws: "session_laws (wd_rq W)" and adds: "add_laws (wd_rq W)"
  shows "distinct (map t_info_hash rows) \<Longrightarrow>
    \<forall>row \<in> set rows. t_info_hash row \<notin> h_hash ` set loaded \<longrightarrow>
       restorable W e row \<and> t_info_hash row \<notin> h_hash ` set (rq_handles (wd_rq W) s) \<Longrightarrow>
    (let s' = readd_missing W e loaded rows s; rq = wd_rq W
     in h_hash ` set (rq_handles rq s') =
          h_hash ` set (rq_handles rq s) \<union> (t_info_hash ` set rows - h_hash ` set loaded)
        \<and> set (rq_handles rq s) \<subseteq> set (rq_handles rq s')
        \<and> (\<forall>h \<in> set (rq_handles rq s). rq_is_paused rq s' h = rq_is_paused rq s h)
        \<and> (\<forall>h \<in> set (rq_handles rq s') - set (rq_handles rq s). rq_is_paused rq s' h = is_paused e))"
proof (induction rows arbitrary: s)
  case Nil
  then show ?case by simp
next
  case (Cons row rows)
  let ?rq = "wd_rq W"
  have dist: "distinct (map t_info_hash rows)" "t_info_hash row \<notin> t_info_hash ` set rows"
    using Cons.prems(1) by auto
  show ?case
  proof (cases "list_ex (\<lambda>h. h_hash h = t_info_hash row) loaded")
    case True
    then have "t_info_hash row \<in> h_hash ` set loaded" by (auto simp: list_ex_iff intro: rev_image_eqI)
    moreover have "readd_missing W e loaded (row # rows) s = readd_missing W e loaded rows s"
      using True by simp
    ultimately show ?thesis
      using Cons.IH [OF dist(1), of s] Cons.prems(2) by (simp add: Let_def insert_Diff_if)
  next
    case False
    then have new: "t_info_hash row \<notin> h_hash ` set loaded" by (auto simp: list_ex_iff)
    obtain src where src: "source_for e row = Inr src"
      and takes: "\<And>ao s. rq_get ?rq s (t_info_hash row) = None \<Longrightarrow> \<not> ao_list_only ao \<Longrightarrow>
        \<exists>h. fst (rq_add ?rq src ao s) = Inr (Added h) \<and> h_hash h = t_info_hash row"
      using Cons.prems(2) new unfolding restorable_def by (metis list.set_intros(1))
    let ?o = "torrent_options W e row (is_paused e)"
    define s1 where "s1 = snd (rq_add ?rq src ?o s)"
    have "rq_get ?rq s (t_info_hash row) = None"
      using no_handle_of_hash [OF laws] Cons.prems(2) new by simp
    then obtain h where h: "fst (rq_add ?rq src ?o s) = Inr (Added h)" "h_hash h = t_info_hash row"
      using takes [of s ?o] by auto
    note add = add_added [OF adds h(1) torrent_options_simps(1), folded s1_def]
    have fresh: "h \<notin> set (rq_handles ?rq s)"
      using session_listed_get [OF laws, of h s] add(1) by auto
    have step: "readd_missing W e loaded (row # rows) s = readd_missing W e loaded rows s1"
      using False src by (simp add: s1_def)
    have "t_info_hash r \<noteq> t_info_hash row" if "r \<in> set rows" for r
      using that dist(2) by (metis image_eqI)
    then have "\<forall>r \<in> set rows. t_info_hash r \<notin> h_hash ` set loaded \<longrightarrow>
        restorable W e r \<and> t_info_hash r \<notin> h_hash ` set (rq_handles ?rq s1)"
      using Cons.prems(2) by (simp add: add(3) h(2))
    note IH = Cons.IH [OF dist(1) this, unfolded Let_def]
    have hashes: "h_hash ` set (rq_handles ?rq s1) = insert (t_info_hash row) (h_hash ` set (rq_handles ?rq s))"
      by (simp add: add(3) h(2))
    have "rq_is_paused ?rq (readd_missing W e loaded rows s1) h = is_paused e"
      using IH by (simp add: add(3,4))
    moreover have "rq_is_paused ?rq (readd_missing W e loaded rows s1) g = rq_is_paused ?rq s g"
      if "g \<in> set (rq_handles ?rq s)" for g
      using IH that fresh by (auto simp: add(3,4))
    moreover have "h_hash ` set (rq_handles ?rq (readd_missing W e loaded rows s1)) =
        h_hash ` set (rq_handles ?rq s) \<union> (t_info_hash ` set (row # rows) - h_hash ` set loaded)"
      using IH new unfolding hashes by auto
    moreover have "set (rq_handles ?rq s) \<subseteq> set (rq_handles ?rq (readd_missing W e loaded rows s1))"
      and "\<forall>g \<in> set (rq_handles ?rq (readd_missing W e loaded rows s1)) - insert h (set (rq_handles ?rq s)).
        rq_is_paused ?rq (readd_missing W e loaded rows s1) g = is_paused e"
      using IH unfolding add(3) by simp_all
    ultimately show ?thesis unfolding step Let_def by blast
  qed
qed


text \<open>One torrent loaded, one missing, one unknown to the catalog.\<close>

definition restarted_engine :: "memory_session engine" where
  "restarted_engine = example_engine
     \<lparr>en_session := DAList.update ''aa'' (0, example_stats False, True)
                      (DAList.update ''zz'' (1, example_stats False, False) DAList.empty),
      en_files := [meta_path example_engine ''aa'' \<mapsto> ''aa'', meta_path example_engine ''bb'' \<mapsto> ''bb'']\<rparr>"


section \<open>A reload keeps the torrent\<close>

text \<open>Saved metadata that always stands for the torrent of one hash.\<close>

definition identifies :: "'s librqbit \<Rightarrow> string \<Rightarrow> string \<Rightarrow> bool" where
  "identifies rq bytes x \<longleftrightarrow>
     (\<forall>ao s. \<not> ao_list_only ao \<longrightarrow>
        (case fst (rq_add rq (From_Bytes bytes) ao s) of
           Inr (Added h) \<Rightarrow> h_hash h = x
         | Inr (Already_Managed h) \<Rightarrow> h_hash h = x
         | Inr (List_Only _) \<Rightarrow> False
         | Inl _ \<Rightarrow> True))"

lemma write_file_session [simp]:
  "en_session (snd (write_file W p t e)) = en_session e"
  "en_opts (snd (write_file W p t e)) = en_opts e" "en_library (snd (write_file W p t e)) = en_library e"
  by (auto simp: write_file_def split: option.splits)

lemma write_piece_map_session [simp]:
  "en_session (snd (write_piece_map W x b e)) = en_session e"
  "en_opts (snd (write_piece_map W x b e)) = en_opts e"
  "en_library (snd (write_piece_map W x b e)) = en_library e"
  by (auto simp: write_piece_map_def Let_def case_prod_beta split: sum.splits option.splits)

lemma save_metadata_session [simp]:
  "en_session (snd (save_metadata W h m e)) = en_session e"
  "en_opts (snd (save_metadata W h m e)) = en_opts e"
  "en_library (snd (save_metadata W h m e)) = en_library e"
  by (auto simp: save_metadata_def Let_def case_prod_beta split: option.splits)

lemma replace_torrent_ok:
  assumes "replace_torrent W row i src saved opts e = (Inr u, e')"
  obtains s1 r where "rq_delete (wd_rq W) i False (en_session e) = (Inr (), s1)"
    and "rq_add (wd_rq W) src opts s1 = (Inr r, en_session e')" and "en_library e' = en_library e"
proof -
  obtain d s1 where d: "rq_delete (wd_rq W) i False (en_session e) = (d, s1)" by fastforce
  then have ok: "d = Inr ()" using assms by (cases d) (auto simp: replace_torrent_def)
  define m where "m = (case saved of None \<Rightarrow> (Inr (), set_session s1 e)
    | Some bytes \<Rightarrow> write_piece_map W (t_info_hash row) bytes (set_session s1 e))"
  have m: "en_session (snd m) = s1" "en_library (snd m) = en_library e"
    by (simp_all add: m_def split: option.splits)
  obtain a s2 where a: "rq_add (wd_rq W) src opts s1 = (a, s2)" by fastforce
  have "case m of (Inl err, e2) \<Rightarrow> False
      | (Inr _, e2) \<Rightarrow> (\<exists>r. a = Inr r) \<and> e' = set_session s2 e2"
    using assms d ok m a by (cases a) (auto simp: replace_torrent_def m_def [symmetric] split: prod.splits sum.splits)
  then show thesis using that [of s1] d ok a m by (auto split: prod.splits sum.splits)
qed

text \<open>C14: A reload gives the torrent back: when it succeeds for a torrent whose saved metadata stands
  for it, the torrent is in the session again, running or paused as it was, and every other torrent
  is still there with its own paused flag; the catalog is not touched.\<close>

theorem reload_keeps_the_torrent:
  assumes "session_laws (wd_rq W)" and "add_laws (wd_rq W)" and "inj_on h_id (handles W e)"
    and "handle_for W e (t_info_hash row) = Some h"
    and "en_files e (meta_path e (t_info_hash row)) = Some bytes"
    and "identifies (wd_rq W) bytes (t_info_hash row)" and "reload_torrent W row e = (Inr u, e')"
  shows "(\<exists>h'. handle_for W e' (t_info_hash row) = Some h'
        \<and> rq_is_paused (wd_rq W) (en_session e') h' = rq_is_paused (wd_rq W) (en_session e) h)
    \<and> (\<forall>g \<in> handles W e. g \<noteq> h \<longrightarrow> g \<in> handles W e'
        \<and> rq_is_paused (wd_rq W) (en_session e') g = rq_is_paused (wd_rq W) (en_session e) g)
    \<and> en_library e' = en_library e"
proof -
  let ?rq = "wd_rq W" and ?x = "t_info_hash row"
  define was where "was = rq_is_paused ?rq (en_session e) h"
  define e1 where "e1 = (if was then e else set_session (snd (rq_pause ?rq h (en_session e))) e)"
  have frame: "en_files e1 = en_files e" "meta_path e1 = meta_path e" "en_library e1 = en_library e"
    by (simp_all add: e1_def meta_path_def fun_eq_iff)
  have same: "same_torrents ?rq (en_session e) (en_session e1)"
    by (simp add: e1_def pause_same [OF assms(1)])
  have flag1: "rq_is_paused ?rq (en_session e1) g = rq_is_paused ?rq (en_session e) g" if "g \<noteq> h" for g
    using that by (simp add: e1_def pause_flag [OF assms(1)])
  have saved: "save_metadata W h (meta_path e1 ?x) e1 = (Inr (), e1)" and src: "source_for e1 row = Inr (From_Bytes bytes)"
    using assms(5) by (simp_all add: save_metadata_def source_for_def frame)
  obtain opts pm where opts: "\<not> ao_list_only opts" "ao_paused opts = was"
    and run: "replace_torrent W row (h_id h) (From_Bytes bytes) pm opts e1 = (Inr u, e')"
  proof -
    let ?o = "torrent_options W e1 row was" and ?p = "rq_live_peers ?rq (en_session e) h"
    let ?opts = "if ?p = [] then ?o else ?o\<lparr>ao_initial_peers := Some ?p\<rparr>"
    have "reload_torrent W row e = replace_torrent W row (h_id h) (From_Bytes bytes)
        (rq_piece_map ?rq (en_session e1) h) ?opts e1"
      using assms(4) saved src by (simp add: reload_torrent_def Let_def flip: was_def e1_def)
    then show thesis using that [of ?opts] assms(7) by simp
  qed
  obtain s1 r where d: "rq_delete ?rq (h_id h) False (en_session e1) = (Inr (), s1)"
    and a: "rq_add ?rq (From_Bytes bytes) opts s1 = (Inr r, en_session e')" and lib: "en_library e' = en_library e1"
    using run by (rule replace_torrent_ok)
  have "rq_handles ?rq (en_session e1) = rq_handles ?rq (en_session e)"
    using same by (simp add: same_torrents_def)
  then have s1: "set (rq_handles ?rq s1) = {g \<in> handles W e. h_id g \<noteq> h_id h}"
    using delete_handles [OF assms(1), of "h_id h" False "en_session e1"] d by simp
  have h: "h \<in> handles W e" "h_hash h = ?x"
    using session_get_listed [OF assms(1)] assms(4) by (auto simp: handle_for_def)
  have others: "g \<in> set (rq_handles ?rq s1) \<and> rq_is_paused ?rq s1 g = rq_is_paused ?rq (en_session e) g"
    if "g \<in> handles W e" "g \<noteq> h" for g
  proof -
    have "h_id g \<noteq> h_id h" using inj_onD [OF assms(3), of g h] that h(1) by blast
    with delete_flag [OF assms(1), of g "h_id h" False "en_session e1"] that d s1 flag1 [OF that(2)]
    show ?thesis by simp
  qed
  have gone: "?x \<notin> h_hash ` set (rq_handles ?rq s1)"
  proof
    assume "?x \<in> h_hash ` set (rq_handles ?rq s1)"
    then obtain g where g: "g \<in> handles W e" "h_id g \<noteq> h_id h" "h_hash g = ?x" by (auto simp: s1)
    then have "rq_get ?rq (en_session e) ?x = Some g" using session_listed_get [OF assms(1)] by metis
    with g(2) assms(4) show False by (simp add: handle_for_def)
  qed
  obtain h' where r: "r = Added h'" "h_hash h' = ?x"
  proof (cases r)
    case (Already_Managed g)
    then have "g \<in> set (rq_handles ?rq s1)" using add_managed [OF assms(2)] a by (metis fst_conv)
    moreover have "h_hash g = ?x"
      using assms(6) opts(1) a Already_Managed by (auto simp: identifies_def dest!: spec [of _ opts] spec [of _ s1])
    ultimately show thesis using gone by (metis image_eqI)
  qed (use assms(6) opts(1) a that in \<open>auto simp: identifies_def dest!: spec [of _ opts] spec [of _ s1]\<close>)
  have add: "set (rq_handles ?rq (en_session e')) = insert h' (set (rq_handles ?rq s1))"
    "rq_is_paused ?rq (en_session e') = (rq_is_paused ?rq s1)(h' := was)"
    using add_added(3,4) [OF assms(2) _ opts(1), of "From_Bytes bytes" s1 h'] a r(1) opts(2) by simp_all
  have present: "handle_for W e' ?x = Some h'"
    using session_listed_get [OF assms(1), of h' "en_session e'"] add(1) r(2) by (simp add: handle_for_def)
  have "h' \<notin> set (rq_handles ?rq s1)" using gone r(2) by (metis image_eqI)
  then show ?thesis using present add others lib frame(3) by (auto simp: was_def)
qed

theorem reload_keeps_the_torrent_witness:
  "let e' = snd (reload_torrent (example_world 300) (example_torrent ''aa'' ''tt1'' 60 100) restarted_engine)
   in \<exists>h'. handle_for (example_world 300) e' ''aa'' = Some h' \<and> mem_is_paused (en_session e') h'"
proof -
  let ?W = "example_world 300" and ?e = restarted_engine and ?row = "example_torrent ''aa'' ''tt1'' 60 100"
  let ?h = "\<lparr>h_id = 0, h_hash = ''aa''\<rparr>"
  have handles: "rq_handles (wd_rq ?W) (en_session ?e) = [\<lparr>h_id = 1, h_hash = ''zz''\<rparr>, ?h]"
    and h: "handle_for ?W ?e (t_info_hash ?row) = Some ?h" and "mem_is_paused (en_session ?e) ?h"
    and "is_ok (fst (reload_torrent ?W ?row ?e))"
    by code_simp+
  then obtain u e' where r: "reload_torrent ?W ?row ?e = (Inr u, e')" by (metis is_ok_iff prod.collapse)
  have ids: "inj_on h_id (handles ?W ?e)" by (simp only: handles) simp
  have saved: "en_files ?e (meta_path ?e (t_info_hash ?row)) = Some ''aa''" by code_simp
  have "identifies (wd_rq ?W) ''aa'' (t_info_hash ?row)"
    by (auto simp: identifies_def mem_add_def Let_def example_torrent_def mem_get_listed split: option.splits)
  from reload_keeps_the_torrent [OF _ _ ids h saved this r] memory_session_laws mem_add_laws
    \<open>mem_is_paused (en_session ?e) ?h\<close> r
  show ?thesis by (auto simp: Let_def example_torrent_def)
qed

end
