(* ===== verification/Config_Check.thy ===== *)
theory Config_Check
  imports Config Utils_Size "HOL-Library.AList"
begin

text \<open>
  \<open>tornas config check\<close>: the rules of \<open>config/check/file.rs\<close> that the server also applies when it starts,
  and the check of the systemd environment file, \<open>config/check/env.rs\<close>. Parsers of libraries are
  parameters: \<open>url_parse\<close>, the TOML parser and its deserialisation, the network parser, the
  Levenshtein distance of \<open>strsim\<close>, the table of variables that \<open>clap\<close> knows, and \<open>run\<close>, the child process
  that parses an environment and gives its exit and what it wrote to standard error.
\<close>

section \<open>The report\<close>

record report =
  re_errors :: "string list"
  re_warnings :: "string list"

definition empty_report :: report where
  "empty_report = \<lparr>re_errors = [], re_warnings = []\<rparr>"

definition report_err :: "string \<Rightarrow> report \<Rightarrow> report" where
  "report_err m r = r\<lparr>re_errors := re_errors r @ [m]\<rparr>"

definition report_warn :: "string \<Rightarrow> report \<Rightarrow> report" where
  "report_warn m r = r\<lparr>re_warnings := re_warnings r @ [m]\<rparr>"

definition report_extend :: "report \<Rightarrow> report \<Rightarrow> report" where
  "report_extend r other = \<lparr>re_errors = re_errors r @ re_errors other, re_warnings = re_warnings r @ re_warnings other\<rparr>"

lemma report_simps [simp]:
  "re_errors empty_report = []" "re_warnings empty_report = []"
  "re_errors (report_err m r) = re_errors r @ [m]" "re_warnings (report_err m r) = re_warnings r"
  "re_errors (report_warn m r) = re_errors r" "re_warnings (report_warn m r) = re_warnings r @ [m]"
  "re_errors (report_extend r s) = re_errors r @ re_errors s"
  by (simp_all add: empty_report_def report_err_def report_warn_def report_extend_def)

section \<open>The configuration file\<close>

definition scheme_rule :: "(string \<Rightarrow> string) \<Rightarrow> string \<Rightarrow> report \<Rightarrow> report" where
  "scheme_rule quote sch r =
     (let s = to_ascii_lowercase sch
      in if s \<in> {''https'', ''udp'', ''http''} then r
         else if s \<in> {''ws'', ''wss''}
         then report_warn (''trackers.schemes: '' @ sch
                @ '' trackers are WebTorrent-only and the torrent engine ignores them'') r
         else report_err (''trackers.schemes: unknown scheme '' @ quote s) r)"

definition feed_rules :: "(string \<Rightarrow> string) \<Rightarrow> trackers_config \<Rightarrow> report \<Rightarrow> report" where
  "feed_rules quote t r0 =
     (if \<not> tc_enabled t then r0
      else
        let r1 = (if tc_schemes t = []
                  then report_err (''trackers.schemes is empty, so every public tracker would be rejected; ''
                         @ ''set trackers.enabled = false to turn the feed off'') r0 else r0);
            r2 = fold (scheme_rule quote) (tc_schemes t) r1
        in if list_all (\<lambda>s. \<not> src_enabled s) (tc_sources t) \<and> sl_add (tc_static t) = []
           then report_warn (''the tracker feed is enabled but no source is enabled ''
                  @ ''and trackers.static.add is empty'') r2
           else r2)"

definition source_name_rule ::
  "(string \<Rightarrow> string) \<Rightarrow> string \<Rightarrow> source \<Rightarrow> string list \<times> report \<Rightarrow> string list \<times> report" where
  "source_name_rule quote label s nr =
     (let names = fst nr; r = snd nr; key = to_ascii_lowercase (src_name s)
      in if trim (src_name s) = [] then (names, report_err (label @ '': name is empty'') r)
         else if key \<in> set names
         then (names, report_err (label @ '': duplicate name '' @ quote (src_name s)) r)
         else (key # names, r))"

definition source_rules ::
  "(string \<Rightarrow> string) \<Rightarrow> (string \<Rightarrow> string + url) \<Rightarrow> nat \<times> source \<Rightarrow> string list \<times> report
   \<Rightarrow> string list \<times> report" where
  "source_rules quote url_parse x nr =
     (let (i, s) = x;
          label = ''trackers.sources['' @ show_nat i @ '']'';
          named = label @ '' '' @ quote (src_name s);
          (names, r1) = source_name_rule quote label s nr;
          r2 = (case url_parse (src_url s) of
                  Inr u \<Rightarrow> if u_scheme u \<in> {''http'', ''https''} then r1
                           else report_err (named @ '': url must be http or https, got '' @ u_scheme u) r1
                | Inl err \<Rightarrow> report_err (named @ '': invalid url: '' @ err) r1);
          r3 = (if src_schemes s = Some []
                then report_err (named @ '': schemes is empty, so this source contributes nothing'') r2 else r2);
          r4 = (if src_take s = Some 0 then report_warn (named @ '': take = 0 contributes nothing'') r3 else r3)
      in (names, r4))"

definition url_option :: "(string \<Rightarrow> string + url) \<Rightarrow> url_parser" where
  "url_option url_parse s = ok (url_parse s)"

definition static_rules ::
  "(string \<Rightarrow> string) \<Rightarrow> (string \<Rightarrow> string + url) \<Rightarrow> static_lists \<Rightarrow> report \<Rightarrow> report" where
  "static_rules quote url_parse sl r0 =
     (let r1 = fold (\<lambda>a r. if normalize (url_option url_parse) a = None
                          then report_err (''trackers.static.add: '' @ quote a @ '' is not a tracker URL'') r else r)
                 (sl_add sl) r0
      in if list_ex (\<lambda>b. trim b = []) (sl_block sl)
         then report_err ''trackers.static.block contains an empty entry'' r1 else r1)"

definition network_rules ::
  "'n ipnet \<Rightarrow> (string \<Rightarrow> string) \<Rightarrow> network_config \<Rightarrow> report \<Rightarrow> report" where
  "network_rules N quote net r0 =
     (let r1 = (if nc_allow_from net = []
                then report_err (''network.allow_from is empty, so nothing could reach the server; use ''
                       @ ''[\"0.0.0.0/0\", \"::/0\"] to allow every address'') r0 else r0)
      in case acl_new N quote (nc_allow_from net) (nc_trusted_proxies net) of
           Inl err \<Rightarrow> report_err (''network: '' @ error_text err) r1
         | Inr _ \<Rightarrow> r1)"

definition validate_file_config ::
  "'n ipnet \<Rightarrow> (string \<Rightarrow> string) \<Rightarrow> (string \<Rightarrow> string + url) \<Rightarrow> file_config \<Rightarrow> report" where
  "validate_file_config N quote url_parse fc =
     (let t = fc_trackers fc;
          r1 = feed_rules quote t empty_report;
          r2 = (if tc_max t = 0 then report_err ''trackers.max must be at least 1'' r1 else r1);
          r3 = (if d_less (tc_refresh t) (from_secs 60)
                then report_warn ''trackers.refresh is below 60s and will be raised to 60s'' r2 else r2);
          r4 = (if d_zero (tc_fetch_timeout t)
                then report_err ''trackers.fetch_timeout must be greater than zero'' r3 else r3);
          r5 = snd (fold (source_rules quote url_parse)
                 (zip [0..<length (tc_sources t)] (tc_sources t)) ([], r4))
      in network_rules N quote (fc_network fc) (static_rules quote url_parse (tc_static t) r5))"

definition yaml_hint :: "string \<Rightarrow> string" where
  "yaml_hint msg =
     (if contains msg ''invalid type: boolean'' \<and> contains msg ''expected a string''
      then '' (if this came from YAML or Ansible, quote values such as off, no, yes or on)'' else [])"

definition check_toml_text ::
  "'n ipnet \<Rightarrow> (string \<Rightarrow> string) \<Rightarrow> (string \<Rightarrow> string + url) \<Rightarrow> (string \<Rightarrow> string + 'v)
   \<Rightarrow> ('v \<Rightarrow> string list \<times> (string + file_config)) \<Rightarrow> string \<Rightarrow> report" where
  "check_toml_text N quote url_parse from_str deserialize text =
     (case from_str text of
        Inl err \<Rightarrow> report_err (''not valid TOML: '' @ trim err) empty_report
      | Inr value \<Rightarrow>
          (case deserialize value of
             (_, Inl err) \<Rightarrow>
               (let msg = map (\<lambda>c. if c = CHR 0x0A then CHR '' '' else c) (trim err)
                in report_err (msg @ yaml_hint msg) empty_report)
           | (unknown, Inr fc) \<Rightarrow>
               report_extend
                 (fold (\<lambda>p. report_err (''unknown setting `'' @ p
                           @ ''` (misspelled, or not supported by this version)'')) unknown empty_report)
                 (validate_file_config N quote url_parse fc)))"

section \<open>The environment file\<close>

record env_line =
  el_line :: nat
  el_key :: string
  el_value :: string

text \<open>A line that ends in a backslash goes on with the next one.\<close>

fun join_continued :: "string \<Rightarrow> (nat \<times> string) list \<Rightarrow> string \<times> (nat \<times> string) list" where
  "join_continued s [] = (if ends_with s [CHR 0x5C] then butlast s else s, [])"
| "join_continued s ((i, l) # ls) =
     (if ends_with s [CHR 0x5C] then join_continued (butlast s @ trim_start l) ls else (s, (i, l) # ls))"

lemma join_continued_length: "length (snd (join_continued s ls)) \<le> length ls"
  by (induction s ls rule: join_continued.induct) auto

lemma join_continued_rest: "(s, rest) = join_continued a ls \<Longrightarrow> length rest \<le> length ls"
  by (metis join_continued_length snd_conv)

function str_replace :: "string \<Rightarrow> string \<Rightarrow> string \<Rightarrow> string" where
  "str_replace pat to [] = []"
| "str_replace pat to (c # s) =
     (if pat \<noteq> [] \<and> starts_with (c # s) pat then to @ str_replace pat to (drop (length pat) (c # s))
      else c # str_replace pat to s)"
  by pat_completeness auto
termination
  by (relation "measure (\<lambda>(pat, to, s). length s)") (auto simp: neq_Nil_conv)

definition valid_key :: "string \<Rightarrow> bool" where
  "valid_key key \<longleftrightarrow>
     key \<noteq> [] \<and> (is_ascii_alphabetic (hd key) \<or> hd key = CHR ''_'')
     \<and> list_all (\<lambda>c. is_ascii_alphanumeric c \<or> c = CHR ''_'') key"

definition unquote :: "string \<Rightarrow> string" where
  "unquote v =
     (let q = [CHR 0x22]; a = [CHR 0x27]; b = [CHR 0x5C]
      in if 2 \<le> length v \<and> (starts_with v q \<and> ends_with v q \<or> starts_with v a \<and> ends_with v a)
         then (let inner = take (length v - 2) (drop 1 v)
               in if starts_with v q then str_replace (b @ b) b (str_replace (b @ q) q inner) else inner)
         else v)"

datatype env_item = Env_Skip | Env_Error string | Env_Entry env_line

definition parse_env_line :: "(string \<Rightarrow> string) \<Rightarrow> nat \<Rightarrow> string \<Rightarrow> env_item" where
  "parse_env_line quote lineno s =
     (let at_line = ''line '' @ show_nat lineno @ '': ''
      in if trim s = [] \<or> starts_with s ''#'' \<or> starts_with s '';'' then Env_Skip
         else if starts_with s ''export ''
         then Env_Error (at_line @ ''`export` is not supported in a systemd environment file'')
         else case split_once CHR ''='' s of
                None \<Rightarrow> Env_Error (at_line @ ''expected KEY=VALUE, got '' @ quote (trim s))
              | Some (k, v) \<Rightarrow>
                  (let key = trim k
                   in if \<not> valid_key key
                      then Env_Error (at_line @ quote key @ '' is not a valid variable name'')
                      else Env_Entry \<lparr>el_line = lineno, el_key = key, el_value = unquote (trim v)\<rparr>))"

function parse_env_lines ::
  "(string \<Rightarrow> string) \<Rightarrow> (nat \<times> string) list \<Rightarrow> report \<Rightarrow> env_line list \<times> report" where
  "parse_env_lines quote [] r = ([], r)"
| "parse_env_lines quote ((i, raw) # ls) r =
     (let (s, rest) = join_continued (trim_start raw) ls
      in case parse_env_line quote (i + 1) s of
           Env_Skip \<Rightarrow> parse_env_lines quote rest r
         | Env_Error m \<Rightarrow> parse_env_lines quote rest (report_err m r)
         | Env_Entry l \<Rightarrow> (let (out, r') = parse_env_lines quote rest r in (l # out, r')))"
  by pat_completeness auto
termination
  by (relation "measure (\<lambda>(quote, ls, r). length ls)") (auto simp: less_Suc_eq_le join_continued_rest)

definition parse_env_file :: "(string \<Rightarrow> string) \<Rightarrow> string \<Rightarrow> report \<Rightarrow> env_line list \<times> report" where
  "parse_env_file quote text r =
     parse_env_lines quote (zip [0..<length (str_lines text)] (str_lines text)) r"

definition suggest :: "(string \<Rightarrow> string \<Rightarrow> nat) \<Rightarrow> string \<Rightarrow> string list \<Rightarrow> string option" where
  "suggest levenshtein key candidates =
     map_option snd (min_by_key fst (filter (\<lambda>(d, c). d \<le> 3) (map (\<lambda>c. (levenshtein key c, c)) candidates)))"

text \<open>What follows the first occurrence of a text.\<close>

fun after_text :: "string \<Rightarrow> string \<Rightarrow> string option" where
  "after_text pat [] = (if pat = [] then Some [] else None)"
| "after_text pat (c # s) =
     (if starts_with (c # s) pat then Some (drop (length pat) (c # s)) else after_text pat s)"

definition flag_in :: "string \<Rightarrow> string option" where
  "flag_in msg =
     map_option (takeWhile (\<lambda>c. is_ascii_alphanumeric c \<or> c = CHR ''-'')) (after_text [CHR 0x27, CHR ''-'', CHR ''-''] msg)"

type_synonym env_vars = "(string \<times> env_line) list"
type_synonym known_vars = "(string \<times> string option) list"
type_synonym clap_run = "(string \<times> string) list \<Rightarrow> string + (bool \<times> string)"

definition long_to_env :: "known_vars \<Rightarrow> string \<Rightarrow> string option" where
  "long_to_env known = map_of (rev (List.map_filter (\<lambda>(e, l). map_option (\<lambda>x. (x, e)) l) known))"

fun strip_errors :: "nat \<Rightarrow> string \<Rightarrow> string" where
  "strip_errors 0 s = s"
| "strip_errors (Suc n) s = (case strip_prefix s ''error: '' of Some r \<Rightarrow> strip_errors n r | None \<Rightarrow> s)"

definition first_line :: "string \<Rightarrow> string" where
  "first_line msg =
     (let l = trim (case find (\<lambda>l. trim l \<noteq> []) (str_lines msg) of Some l \<Rightarrow> l | None \<Rightarrow> ''invalid value'')
      in strip_errors (length l) l)"

definition budget_var :: string where
  "budget_var = ''TORNAS_DISK_BUDGET''"

definition child_env :: "env_vars \<Rightarrow> (string \<times> string) list" where
  "child_env remaining =
     map (\<lambda>(k, l). (k, el_value l)) remaining
     @ (if budget_var \<in> fst ` set remaining then [] else [(budget_var, ''1G'')])"

definition blamed :: "known_vars \<Rightarrow> env_vars \<Rightarrow> string \<Rightarrow> string option" where
  "blamed known remaining msg =
     (case Option.bind (flag_in msg) (long_to_env known) of
        Some k \<Rightarrow> if k \<in> fst ` set remaining then Some k else None
      | None \<Rightarrow> None)"

definition bad_line :: "(string \<Rightarrow> string) \<Rightarrow> string \<Rightarrow> env_line \<Rightarrow> string \<Rightarrow> string" where
  "bad_line quote k l msg =
     ''line '' @ show_nat (el_line l) @ '': '' @ k @ ''='' @ quote (el_value l) @ '': '' @ first_line msg"

fun clap_rounds ::
  "(string \<Rightarrow> string) \<Rightarrow> clap_run \<Rightarrow> known_vars \<Rightarrow> nat \<Rightarrow> env_vars \<Rightarrow> report \<Rightarrow> report" where
  "clap_rounds quote run known 0 remaining r = r"
| "clap_rounds quote run known (Suc n) remaining r =
     (case run (child_env remaining) of
        Inl err \<Rightarrow> report_warn (''could not run value checks: '' @ err) r
      | Inr (True, msg) \<Rightarrow> r
      | Inr (False, msg) \<Rightarrow>
          (case blamed known remaining msg of
             Some k \<Rightarrow>
               clap_rounds quote run known n (AList.delete k remaining)
                 (report_err (bad_line quote k (the (map_of remaining k)) msg) r)
           | None \<Rightarrow> report_err (first_line msg) r))"

definition parse_with_clap ::
  "(string \<Rightarrow> string) \<Rightarrow> clap_run \<Rightarrow> known_vars \<Rightarrow> env_vars \<Rightarrow> report \<Rightarrow> report" where
  "parse_with_clap quote run known vars r = clap_rounds quote run known (length vars + 1) vars r"

definition env_rule ::
  "(string \<Rightarrow> string \<Rightarrow> nat) \<Rightarrow> known_vars \<Rightarrow> env_line \<Rightarrow> env_vars \<times> report \<Rightarrow> env_vars \<times> report" where
  "env_rule levenshtein known l st =
     (let at_line = ''line '' @ show_nat (el_line l) @ '': '';
          r1 = (case map_of (fst st) (el_key l) of
                  Some prev \<Rightarrow> report_warn (at_line @ el_key l @ '' is set again; line ''
                                 @ show_nat (el_line prev) @ '' is overridden'') (snd st)
                | None \<Rightarrow> snd st)
      in if el_key l \<in> fst ` set known then (AList.update (el_key l) l (fst st), r1)
         else if starts_with (el_key l) ''TORNAS_''
         then (fst st, report_err (at_line @ ''unknown setting '' @ el_key l
                @ (case suggest levenshtein (el_key l) (map fst known) of
                     Some k \<Rightarrow> '' (did you mean '' @ k @ ''?)'' | None \<Rightarrow> [])) r1)
         else if starts_with (el_key l) ''RQBIT_''
         then (fst st, report_warn (at_line @ el_key l @ '' is not read by tornas'') r1)
         else (fst st, r1))"

definition set_var :: "env_vars \<Rightarrow> string \<Rightarrow> env_line option" where
  "set_var last_vars k =
     (case map_of last_vars k of Some l \<Rightarrow> if trim (el_value l) = [] then None else Some l | None \<Rightarrow> None)"

definition acl_var_rule ::
  "'n ipnet \<Rightarrow> (string \<Rightarrow> string) \<Rightarrow> env_vars \<Rightarrow> string \<times> bool \<Rightarrow> report \<Rightarrow> report" where
  "acl_var_rule N quote last_vars x r =
     (case set_var last_vars (fst x) of
        None \<Rightarrow> r
      | Some l \<Rightarrow>
          (case (if snd x then acl_new N quote [el_value l] [] else acl_new N quote [''0.0.0.0/0''] [el_value l]) of
             Inl err \<Rightarrow> report_err (''line '' @ show_nat (el_line l) @ '': '' @ fst x @ '': '' @ error_text err) r
           | Inr _ \<Rightarrow> r))"

definition check_env_text ::
  "'n ipnet \<Rightarrow> (string \<Rightarrow> string) \<Rightarrow> (string \<Rightarrow> string \<Rightarrow> nat) \<Rightarrow> known_vars \<Rightarrow> string + clap_run
   \<Rightarrow> (string \<Rightarrow> bool) \<Rightarrow> string \<Rightarrow> report" where
  "check_env_text N quote levenshtein known exe is_file text =
     (let (ls, r0) = parse_env_file quote text empty_report;
          (last_vars, r1) = fold (env_rule levenshtein known) ls ([], r0);
          r2 = (case exe of
                  Inr run \<Rightarrow> parse_with_clap quote run known last_vars r1
                | Inl err \<Rightarrow> report_warn (''could not locate this executable, skipped value checks: '' @ err) r1);
          r3 = fold (acl_var_rule N quote last_vars)
                 [(''TORNAS_ALLOW_FROM'', True), (''TORNAS_TRUSTED_PROXIES'', False)] r2;
          r4 = (case set_var last_vars ''TORNAS_CONFIG'' of
                  Some l \<Rightarrow>
                    if is_file (el_value l) then r3
                    else report_err (''line '' @ show_nat (el_line l) @ '': TORNAS_CONFIG points at ''
                           @ quote (el_value l) @ '', which does not exist'') r3
                | None \<Rightarrow> r3)
      in case set_var last_vars budget_var of
           None \<Rightarrow> report_warn (''TORNAS_DISK_BUDGET is not set; the server will not start without it ''
                     @ ''unless it is passed as a flag'') r4
         | Some l \<Rightarrow>
             if parse_size quote (el_value l) = Inr 0
             then report_warn (''line '' @ show_nat (el_line l)
                    @ '': TORNAS_DISK_BUDGET is 0, so every movie would be refused'') r4
             else r4)"


section \<open>The rounds of the value check\<close>

text \<open>
  How \<open>clap\<close> answers an environment that is part of \<open>vars\<close>: it accepts one without a bad value, and
  otherwise names the flag of a bad one that is set.
\<close>

definition clap_names_bad :: "clap_run \<Rightarrow> known_vars \<Rightarrow> (string \<Rightarrow> bool) \<Rightarrow> env_vars \<Rightarrow> bool" where
  "clap_names_bad run known bad vars \<longleftrightarrow>
     (\<forall>remaining. set remaining \<subseteq> set vars \<longrightarrow>
        (if \<exists>k \<in> fst ` set remaining. bad k
         then \<exists>k msg. run (child_env remaining) = Inr (False, msg) \<and> blamed known remaining msg = Some k \<and> bad k
         else \<exists>msg. run (child_env remaining) = Inr (True, msg)))"

definition bad_keys :: "(string \<Rightarrow> bool) \<Rightarrow> env_vars \<Rightarrow> string set" where
  "bad_keys bad vars = {k \<in> fst ` set vars. bad k}"

lemma blamed_set: "blamed known remaining msg = Some k \<Longrightarrow> k \<in> fst ` set remaining"
  by (auto simp: blamed_def split: option.splits if_splits)

lemma delete_part:
  assumes "distinct (map fst vars)"
  shows "set (AList.delete k vars) \<subseteq> set vars" and "distinct (map fst (AList.delete k vars))"
    and "fst ` set (AList.delete k vars) = fst ` set vars - {k}"
  using assms by (auto simp: AList.delete_eq distinct_map intro: inj_on_subset)

lemma clap_rounds_all:
  assumes "clap_names_bad run known bad vars" and "distinct (map fst vars)"
  shows "set remaining \<subseteq> set vars \<Longrightarrow> distinct (map fst remaining) \<Longrightarrow> card (bad_keys bad remaining) < n \<Longrightarrow>
    \<exists>ks msgs. distinct ks \<and> set ks = bad_keys bad remaining \<and> length msgs = length ks
      \<and> clap_rounds quote run known n remaining r =
          r\<lparr>re_errors := re_errors r @ map2 (\<lambda>k m. bad_line quote k (the (map_of vars k)) m) ks msgs\<rparr>"
proof (induction n arbitrary: remaining r)
  case (Suc n)
  show ?case
  proof (cases "\<exists>k \<in> fst ` set remaining. bad k")
    case False
    then obtain msg where "run (child_env remaining) = Inr (True, msg)"
      using assms(1) Suc.prems(1) unfolding clap_names_bad_def by presburger
    moreover have "bad_keys bad remaining = {}" using False by (auto simp: bad_keys_def)
    ultimately show ?thesis by (intro exI [of _ "[]"]) simp
  next
    case True
    then obtain k msg where run: "run (child_env remaining) = Inr (False, msg)"
        and k: "blamed known remaining msg = Some k" "bad k"
      using assms(1) Suc.prems(1) unfolding clap_names_bad_def by meson
    let ?rest = "AList.delete k remaining"
    note del = delete_part [OF Suc.prems(2), of k]
    have mem: "k \<in> fst ` set remaining" using blamed_set [OF k(1)] .
    have bad: "bad_keys bad remaining = insert k (bad_keys bad ?rest)" "k \<notin> bad_keys bad ?rest"
      using del(3) mem k(2) by (auto simp: bad_keys_def)
    have "finite (bad_keys bad ?rest)" by (simp add: bad_keys_def)
    with bad Suc.prems(3) have "card (bad_keys bad ?rest) < n" by simp
    moreover have "set ?rest \<subseteq> set vars" using del(1) Suc.prems(1) by blast
    ultimately obtain ks msgs where IH: "distinct ks" "set ks = bad_keys bad ?rest" "length msgs = length ks"
        "clap_rounds quote run known n ?rest (report_err (bad_line quote k (the (map_of remaining k)) msg) r) =
          (report_err (bad_line quote k (the (map_of remaining k)) msg) r)\<lparr>re_errors := re_errors
            (report_err (bad_line quote k (the (map_of remaining k)) msg) r)
              @ map2 (\<lambda>k m. bad_line quote k (the (map_of vars k)) m) ks msgs\<rparr>"
      using Suc.IH [OF _ del(2)] by blast
    obtain l where l: "(k, l) \<in> set remaining" using mem by auto
    then have "map_of remaining k = Some l" "map_of vars k = Some l"
      using Suc.prems(1,2) assms(2) by auto
    then have "clap_rounds quote run known (Suc n) remaining r =
        r\<lparr>re_errors := re_errors r @ map2 (\<lambda>k m. bad_line quote k (the (map_of vars k)) m) (k # ks) (msg # msgs)\<rparr>"
      using run k(1) IH(4) by (simp add: report_err_def)
    moreover have "distinct (k # ks)" "set (k # ks) = bad_keys bad remaining" "length (msg # msgs) = length (k # ks)"
      using IH bad by auto
    ultimately show ?thesis by blast
  qed
qed simp


definition example_vars :: env_vars where
  "example_vars =
     [(''A'', \<lparr>el_line = 1, el_key = ''A'', el_value = ''x''\<rparr>), (''B'', \<lparr>el_line = 2, el_key = ''B'', el_value = ''y''\<rparr>)]"

definition example_run :: clap_run where
  "example_run env =
     (if ''A'' \<in> fst ` set env then Inr (False, CHR 0x27 # ''--a bad'') else Inr (True, []))"


end
