(* ===== verification/Engine_Start.thy ===== *)
theory Engine_Start
  imports Engine_Session Config_Check Mount
begin

text \<open>
  \<open>Engine::start\<close> of \<open>engine/session.rs\<close>: the directories, the configuration with the rules of the
  configuration check, the session options, reconciliation, and a pause that outlived the process.
  What the machine gives (directories, files, the stored catalog, the restored session) is the record
  parameter \<open>host\<close>.
\<close>

section \<open>Session options\<close>

record dht_options =
  dx_port :: "u16 option"
  dx_bootstrap :: "string list option"
  dx_config_filename :: string

record listen_options =
  lx_utp :: bool
  lx_addr :: "ip_addr \<times> u16"
  lx_upnp :: bool
  lx_announce_port :: "u16 option"
  lx_ipv4_only :: bool

record session_options =
  sx_dht :: "dht_options option"
  sx_persistence_folder :: string
  sx_fastresume :: bool
  sx_listen :: listen_options
  sx_bind_device :: "string option"
  sx_ipv4_only :: bool
  sx_disable_lsd :: bool
  sx_peer_limit :: u64
  sx_concurrent_init :: u64
  sx_download_bps :: "u32 option"
  sx_upload_bps :: "u32 option"

definition session_options_for :: "server_opts \<Rightarrow> bool \<Rightarrow> string \<Rightarrow> session_options" where
  "session_options_for o' ipv6 session_dir =
     (let port = (case so_listen_port o' of Some p \<Rightarrow> p | None \<Rightarrow> 0)
      in \<lparr>sx_dht =
            (if so_disable_dht o' then None
             else Some \<lparr>dx_port = so_dht_port o',
                        dx_bootstrap = (if so_dht_bootstrap o' = [] then None else Some (so_dht_bootstrap o')),
                        dx_config_filename = path_join session_dir ''dht.json''\<rparr>),
          sx_persistence_folder = session_dir,
          sx_fastresume = True,
          sx_listen =
            \<lparr>lx_utp = so_utp o', lx_addr = (if ipv6 then V6 0 else V4 0, port),
             lx_upnp = (\<not> so_disable_upnp_port_forward o' \<and> so_bind_device o' = None),
             lx_announce_port = so_announce_port o', lx_ipv4_only = (\<not> ipv6)\<rparr>,
          sx_bind_device = so_bind_device o',
          sx_ipv4_only = (\<not> ipv6),
          sx_disable_lsd = so_disable_lsd o',
          sx_peer_limit = ucast (so_peer_limit o'),
          sx_concurrent_init = ucast (so_concurrent_checks o'),
          sx_download_bps = nonzero (so_ratelimit_download o'),
          sx_upload_bps = nonzero (so_ratelimit_upload o')\<rparr>)"

section \<open>Starting\<close>

record ('s, 'n) host =
  ht_net :: "'n ipnet"
  ht_url_parse :: "string \<Rightarrow> string + url"
  ht_create_dir :: "string \<Rightarrow> unit result"
  ht_separate :: "bool result"
  ht_env :: "string \<Rightarrow> string option"
  ht_is_file :: "string \<Rightarrow> bool"
  ht_read_file :: "string \<Rightarrow> string result"
  ht_toml_parse :: "string \<Rightarrow> file_config result"
  ht_files :: "string \<Rightarrow> string option"
  ht_tracker_cache :: "tracker_state option"
  ht_open_catalog :: "catalog result"
  ht_open_session :: "session_options \<Rightarrow> 's result"

definition make_dirs :: "('s, 'n) host \<Rightarrow> 's world \<Rightarrow> server_opts \<Rightarrow> unit result" where
  "make_dirs H W o' =
     (let dir = so_data_dir o'; torrents = path_join dir ''torrents''
      in case with_context (''creating '' @ wd_quote W dir) (ht_create_dir H dir) of
           Inl e \<Rightarrow> Inl e
         | Inr _ \<Rightarrow>
             (case check_mount (wd_quote W) dir (so_require_mount o') (ht_separate H) of
                Inl e \<Rightarrow> Inl e
              | Inr _ \<Rightarrow>
                  (case with_context (''creating '' @ wd_quote W torrents) (ht_create_dir H torrents) of
                     Inl e \<Rightarrow> Inl e
                   | Inr _ \<Rightarrow>
                       (case ht_create_dir H (path_join dir ''session'') of
                          Inl e \<Rightarrow> Inl e | Inr _ \<Rightarrow> ht_create_dir H (path_join dir ''meta'')))))"

definition invalid_config_text :: "report \<Rightarrow> string" where
  "invalid_config_text r =
     ''invalid configuration (run `tornas config check` for details):'' @ [CHR 0x0A] @ ''  ''
       @ join_with ([CHR 0x0A] @ ''  '') (re_errors r)"

text \<open>The configuration in force and the access list, or why the server refuses to start with it.\<close>

definition start_config ::
  "('s, 'n) host \<Rightarrow> 's world \<Rightarrow> server_opts \<Rightarrow> (file_config \<times> 'n acl) result" where
  "start_config H W o' =
     (case resolve_file_config (wd_quote W) (ht_env H) (ht_is_file H) (ht_read_file H) (ht_toml_parse H) o' of
        Inl e \<Rightarrow> Inl e
      | Inr fc \<Rightarrow>
          (let r = validate_file_config (ht_net H) (wd_quote W) (ht_url_parse H) fc
           in if re_errors r \<noteq> [] then Inl (bail (invalid_config_text r))
              else map_sum id (Pair fc)
                     (acl_new (ht_net H) (wd_quote W) (nc_allow_from (fc_network fc))
                        (nc_trusted_proxies (fc_network fc)))))"

definition fresh_engine ::
  "('s, 'n) host \<Rightarrow> 's world \<Rightarrow> server_opts \<Rightarrow> file_config \<Rightarrow> catalog \<Rightarrow> 's \<Rightarrow> 's engine" where
  "fresh_engine H W o' fc c s =
     \<lparr>en_session = s,
      en_library = \<lparr>mc_store = c, mc_budget = so_disk_budget o', mc_min_free = so_min_free o',
                    mc_stream_grace = d_secs (so_stream_grace o')\<rparr>,
      en_opts = o', en_file_config = fc,
      en_trackers = tracker_feed_new (fc_trackers fc) (ht_tracker_cache H),
      en_pause = load_pause W (ht_files H (path_join (so_data_dir o') ''pause.json'')),
      en_disk_missing = False, en_progress_seen = Map.empty, en_files = ht_files H,
      en_counters = (\<lambda>_. 0)\<rparr>"

definition start :: "('s, 'n) host \<Rightarrow> 's world \<Rightarrow> server_opts \<Rightarrow> ('s engine \<times> 'n acl) result" where
  "start H W o' =
     (case make_dirs H W o' of
        Inl e \<Rightarrow> Inl e
      | Inr _ \<Rightarrow>
          (case start_config H W o' of
             Inl e \<Rightarrow> Inl e
           | Inr (fc, acl) \<Rightarrow>
               (case ht_open_catalog H of
                  Inl e \<Rightarrow> Inl e
                | Inr c \<Rightarrow>
                    (case with_context ''starting torrent session''
                            (ht_open_session H
                              (session_options_for o' (nc_ipv6 (fc_network fc)) (path_join (so_data_dir o') ''session''))) of
                       Inl e \<Rightarrow> Inl e
                     | Inr s \<Rightarrow>
                         (let e1 = reconcile W (fresh_engine H W o' fc c s);
                              e2 = (if is_paused e1 then snd (apply_pause W e1) else e1)
                          in Inr (log_event W ''start'' ''server started'' e2, acl))))))"

section \<open>A checked file starts the server\<close>

lemma report_fold_mono:
  "(\<And>x r. set (re_errors r) \<subseteq> set (re_errors (f x r))) \<Longrightarrow> set (re_errors r) \<subseteq> set (re_errors (fold f xs r))"
  by (induction xs arbitrary: r) (simp, metis fold_simps(2) subset_trans)

lemma valid_network:
  assumes "re_errors (validate_file_config N quote url_parse fc) = []"
  shows "\<exists>acl. acl_new N quote (nc_allow_from (fc_network fc)) (nc_trusted_proxies (fc_network fc)) = Inr acl"
  using assms by (auto simp: validate_file_config_def Let_def network_rules_def split: sum.splits if_splits)

lemma no_flags:
  assumes "\<not> so_ipv4_only o'" "so_allow_from o' = []" "so_trusted_proxies o' = []" "\<not> so_disable_trackers o'"
    "so_tracker_schemes o' = None" "so_tracker_sources o' = []" "so_extra_trackers o' = []"
  shows "apply_overrides o' fc = fc"
  using assms by (simp add: apply_overrides_def Let_def)

text \<open>C31: A file that \<open>tornas config check\<close> passes starts the server. When the check of a configuration file
  reports no error, the server reading that file, with no flag that overrides it, gets through its own
  configuration step with exactly the settings of the file; and when that step refuses the file for its
  content, the check reports an error too.\<close>

theorem checked_file_starts:
  assumes "so_config o' = Some path" and "ht_read_file H path = Inr text"
    and "\<not> so_ipv4_only o'" "so_allow_from o' = []" "so_trusted_proxies o' = []" "\<not> so_disable_trackers o'"
      "so_tracker_schemes o' = None" "so_tracker_sources o' = []" "so_extra_trackers o' = []"
    and same_toml: "\<And>fc. ht_toml_parse H text = Inr fc \<longleftrightarrow>
      (\<exists>v unknown. from_str text = Inr v \<and> deserialize v = (unknown, Inr fc))"
  shows "let r = check_toml_text (ht_net H) (wd_quote W) (ht_url_parse H) from_str deserialize text
    in (re_errors r = [] \<longrightarrow>
          (\<exists>fc acl. ht_toml_parse H text = Inr fc \<and> start_config H W o' = Inr (fc, acl)
             \<and> acl_new (ht_net H) (wd_quote W) (nc_allow_from (fc_network fc)) (nc_trusted_proxies (fc_network fc)) = Inr acl))
       \<and> (\<not> is_ok (start_config H W o') \<longrightarrow> re_errors r \<noteq> [])"
proof -
  define r where "r = check_toml_text (ht_net H) (wd_quote W) (ht_url_parse H) from_str deserialize text"
  have resolve: "resolve_file_config (wd_quote W) (ht_env H) (ht_is_file H) (ht_read_file H) (ht_toml_parse H) o'
      = with_context (''parsing config '' @ wd_quote W path) (ht_toml_parse H text)"
    using assms(1,2) no_flags [OF assms(3-9)]
    by (simp add: resolve_file_config_def config_load_def split: sum.splits)
  have started: "\<exists>fc acl. ht_toml_parse H text = Inr fc \<and> start_config H W o' = Inr (fc, acl)
      \<and> acl_new (ht_net H) (wd_quote W) (nc_allow_from (fc_network fc)) (nc_trusted_proxies (fc_network fc)) = Inr acl"
    if none: "re_errors r = []"
  proof -
    obtain v unknown fc where v: "from_str text = Inr v" "deserialize v = (unknown, Inr fc)"
      using none by (auto simp: r_def check_toml_text_def Let_def split: sum.splits prod.splits)
    with same_toml have fc: "ht_toml_parse H text = Inr fc" by blast
    have valid: "re_errors (validate_file_config (ht_net H) (wd_quote W) (ht_url_parse H) fc) = []"
      using none v by (simp add: r_def check_toml_text_def)
    obtain acl where "acl_new (ht_net H) (wd_quote W) (nc_allow_from (fc_network fc))
        (nc_trusted_proxies (fc_network fc)) = Inr acl"
      using valid_network [OF valid] by blast
    with fc valid resolve show ?thesis by (simp add: start_config_def)
  qed
  then have "\<not> is_ok (start_config H W o') \<Longrightarrow> re_errors r \<noteq> []" by (metis is_ok.simps(2))
  with started show ?thesis unfolding r_def [symmetric] Let_def by blast
qed

definition example_url :: "string \<Rightarrow> string + url" where
  "example_url s = (case example_url_parse s of Some u \<Rightarrow> Inr u | None \<Rightarrow> Inl ''relative URL without a base'')"

definition quiet_config :: file_config where
  "quiet_config = default_file_config
     \<lparr>fc_trackers := default_trackers_config\<lparr>tc_sources := []\<rparr>,
      fc_network := default_network_config\<lparr>nc_allow_from := [''192.168.1.10'']\<rparr>\<rparr>"

definition example_host :: "(memory_session, cidr) host" where
  "example_host =
     \<lparr>ht_net = cidr_net, ht_url_parse = example_url, ht_create_dir = (\<lambda>_. Inr ()), ht_separate = Inr True,
      ht_env = (\<lambda>_. None), ht_is_file = (\<lambda>_. True), ht_read_file = (\<lambda>_. Inr []),
      ht_toml_parse = (\<lambda>_. Inr quiet_config),
      ht_files = [''/var/lib/tornas/pause.json'' \<mapsto>
        wd_encode_pause (example_world 300) \<lparr>ps_since = 200, ps_until = None, ps_reason = Manual\<rparr>],
      ht_tracker_cache = None, ht_open_catalog = Inr (store example_engine),
      ht_open_session = (\<lambda>_. Inr example_session)\<rparr>"

definition example_opts :: server_opts where
  "example_opts = (default_server_opts 100)\<lparr>so_config := Some ''/etc/tornas/config.toml''\<rparr>"

lemma quiet_config_checks:
  "re_errors (check_toml_text cidr_net (wd_quote (example_world 300)) example_url Inr
     (\<lambda>v. ([], Inr quiet_config)) []) = []"
  by code_simp

theorem checked_file_starts_witness:
  "\<exists>acl. start_config example_host (example_world 300) example_opts = Inr (quiet_config, acl)"
proof -
  have opts: "so_config example_opts = Some ''/etc/tornas/config.toml''"
    "\<not> so_ipv4_only example_opts" "so_allow_from example_opts = []" "so_trusted_proxies example_opts = []"
    "\<not> so_disable_trackers example_opts" "so_tracker_schemes example_opts = None"
    "so_tracker_sources example_opts = []" "so_extra_trackers example_opts = []"
    by (simp_all add: example_opts_def default_server_opts_def)
  have body: "ht_read_file example_host ''/etc/tornas/config.toml'' = Inr []" by (simp add: example_host_def)
  have toml: "ht_toml_parse example_host [] = Inr fc \<longleftrightarrow>
      (\<exists>v unknown. (Inr [] :: string + string) = Inr v \<and> ([], Inr quiet_config) = (unknown, Inr fc :: string + file_config))"
    for fc :: file_config
    by (auto simp: example_host_def)
  have "ht_net example_host = cidr_net" "ht_url_parse example_host = example_url"
    by (simp_all add: example_host_def)
  with checked_file_starts [OF opts(1) body opts(2-8), of Inr "\<lambda>v. ([], Inr quiet_config)", OF toml, of "example_world 300"]
    quiet_config_checks
  show ?thesis by (auto simp: Let_def example_host_def)
qed

section \<open>A pause outlives the process\<close>

lemma reconcile_frame [simp]:
  "en_library (reconcile W e) = en_library e" "en_opts (reconcile W e) = en_opts e"
  "en_pause (reconcile W e) = en_pause e" "en_disk_missing (reconcile W e) = en_disk_missing e"
  "en_files (reconcile W e) = en_files e"
  by (simp_all add: reconcile_def Let_def)

lemma start_ok:
  assumes "start H W o' = Inr (e, acl)"
  obtains fc c s where "make_dirs H W o' = Inr ()" and "start_config H W o' = Inr (fc, acl)"
    and "ht_open_catalog H = Inr c"
    and "e = log_event W ''start'' ''server started''
      (if is_paused (reconcile W (fresh_engine H W o' fc c s))
       then snd (apply_pause W (reconcile W (fresh_engine H W o' fc c s)))
       else reconcile W (fresh_engine H W o' fc c s))"
  using assms by (auto simp: start_def Let_def split: sum.splits prod.splits)

lemma started_engine:
  assumes "session_laws (wd_rq W)" and "obliging (wd_rq W)" and "start H W o' = Inr (e, acl)"
    and "ht_open_catalog H = Inr c"
  shows "en_opts e = o' \<and> \<not> en_disk_missing e \<and> en_files e = ht_files H
    \<and> en_pause e = load_pause W (ht_files H (path_join (so_data_dir o') ''pause.json''))
    \<and> (is_paused e \<longrightarrow> all_paused W e)
    \<and> store e = add_event (wd_now W) ''start'' ''server started'' c
    \<and> mc_budget (en_library e) = so_disk_budget o' \<and> mc_min_free (en_library e) = so_min_free o'
    \<and> (so_require_mount o' \<longrightarrow> ht_separate H = Inr True)"
  using assms(3)
proof (cases rule: start_ok)
  case (1 fc c' s)
  define e1 where "e1 = reconcile W (fresh_engine H W o' fc c' s)"
  have e: "e = log_event W ''start'' ''server started'' (if is_paused e1 then snd (apply_pause W e1) else e1)"
    using 1(4) by (simp add: e1_def)
  have pause: "en_pause e = en_pause e1" by (simp add: e)
  have "all_paused W e" if "is_paused e"
  proof -
    have "is_paused e1" using that pause by (simp add: is_paused_def)
    with apply_pause_all [OF assms(1,2), of e1] show ?thesis by (simp add: e all_paused_def)
  qed
  moreover have "so_require_mount o' \<Longrightarrow> ht_separate H = Inr True"
    using 1(1) by (auto simp: make_dirs_def check_mount_def Let_def split: sum.splits if_splits bool.splits)
  moreover have "c' = c" using 1(3) assms(4) by simp
  moreover have "store e = add_event (wd_now W) ''start'' ''server started'' c'"
    by (simp add: e e1_def fresh_engine_def)
  ultimately show ?thesis by (simp add: pause e e1_def fresh_engine_def)
qed


lemma example_start:
  obtains e acl where "start example_host (example_world 300) example_opts = Inr (e, acl)"
proof -
  have "is_ok (start_config example_host (example_world 300) example_opts)" by code_simp
  then obtain fc acl where "start_config example_host (example_world 300) example_opts = Inr (fc, acl)"
    by (auto simp: is_ok_iff)
  moreover have "make_dirs example_host (example_world 300) example_opts = Inr ()"
    by (simp add: make_dirs_def example_host_def check_mount_def Let_def)
  ultimately show thesis using that by (simp add: start_def example_host_def Let_def)
qed


end
