(* ===== verification/Http_Gates.thy ===== *)
theory Http_Gates
  imports Source_Acl "HOL-Library.AList"
begin

text \<open>
  The request layers of \<open>http/middleware\<close> and the order \<open>http::shared\<close> wraps them in. A handler takes
  a request and the state (the counters of the layers, and whatever the routes work on) and gives
  the response with the new state. The CORS layer of \<open>tower_http\<close> and the body limit of \<open>axum\<close>
  are parameters; \<open>layer_laws\<close> says what the code relies on: such a layer answers the request
  itself, touching no state, or passes the same request on and keeps what the handler did.
\<close>

section \<open>Requests and responses\<close>

record http_request =
  rq_method :: string
  rq_path :: string
  rq_route :: "string option"
  rq_headers :: "(string \<times> string) list"
  rq_peer :: "ip_addr option"
  rq_query :: string
  rq_body :: string

record http_response =
  rs_status :: nat
  rs_headers :: "(string \<times> string) list"
  rs_body :: string

text \<open>The first value of a header, when it is visible ASCII.\<close>

definition header_str :: "string \<Rightarrow> http_request \<Rightarrow> string option" where
  "header_str name req =
     (case map_of (rq_headers req) name of
        Some v \<Rightarrow> if list_all (\<lambda>c. c = CHR 0x09 \<or> (0x20 \<le> (of_char c :: nat) \<and> (of_char c :: nat) < 0x7F)) v
                  then Some v else None
      | None \<Rightarrow> None)"

record layer_counters =
  lc_forbidden :: nat
  lc_unauthorized :: nat
  lc_requests :: "(string \<times> string \<times> string) list"

type_synonym 'e handler = "http_request \<Rightarrow> layer_counters \<times> 'e \<Rightarrow> http_response \<times> layer_counters \<times> 'e"

section \<open>The layers\<close>

definition api_token_new :: "string option \<Rightarrow> string option" where
  "api_token_new token = (case token of Some t \<Rightarrow> if t = [] then None else Some t | None \<Rightarrow> None)"

definition token_protected :: "http_request \<Rightarrow> bool" where
  "token_protected req \<longleftrightarrow>
     starts_with (rq_path req) ''/api'' \<and> rq_method req \<noteq> ''GET'' \<and> rq_method req \<noteq> ''HEAD''
     \<and> rq_method req \<noteq> ''OPTIONS''"

definition presented_token :: "http_request \<Rightarrow> string option" where
  "presented_token req =
     (case Option.bind (header_str ''authorization'' req) (\<lambda>v. strip_prefix v ''Bearer '') of
        Some t \<Rightarrow> Some t
      | None \<Rightarrow> header_str ''x-api-token'' req)"

definition require_token ::
  "(api_error \<Rightarrow> http_response) \<Rightarrow> string option \<Rightarrow> 'e handler \<Rightarrow> 'e handler" where
  "require_token render token next_handler req st =
     (case token of
        None \<Rightarrow> next_handler req st
      | Some t \<Rightarrow>
          if \<not> token_protected req then next_handler req st
          else if presented_token req = Some t then next_handler req st
          else (render (api_error_new 401 ''unauthorized'' ''missing or wrong API token''),
                (fst st)\<lparr>lc_unauthorized := lc_unauthorized (fst st) + 1\<rparr>, snd st))"

definition allow_private_network :: "'e handler \<Rightarrow> 'e handler" where
  "allow_private_network next_handler req st =
     (let asked = map_of (rq_headers req) ''access-control-request-private-network'' \<noteq> None;
          (resp, st') = next_handler req st
      in (if asked
          then resp\<lparr>rs_headers := AList.update ''access-control-allow-private-network'' ''true'' (rs_headers resp)\<rparr>
          else resp, st'))"

definition method_label :: "string \<Rightarrow> string" where
  "method_label m =
     (if m \<in> {''GET'', ''HEAD'', ''POST'', ''PUT'', ''PATCH'', ''DELETE'', ''OPTIONS''} then m else ''OTHER'')"

text \<open>Counting by route template; the time histogram is left out.\<close>

definition track_http :: "'e handler \<Rightarrow> 'e handler" where
  "track_http next_handler req st =
     (let route = (case rq_route req of Some r \<Rightarrow> r | None \<Rightarrow> ''unmatched'');
          (resp, lc, e) = next_handler req st
      in (resp, lc\<lparr>lc_requests := lc_requests lc @
                  [(route, method_label (rq_method req), show_nat (rs_status resp))]\<rparr>, e))"

definition source_gate ::
  "'n ipnet \<Rightarrow> (ip_addr \<Rightarrow> string) \<Rightarrow> (api_error \<Rightarrow> http_response) \<Rightarrow> 'n acl \<Rightarrow> 'e handler \<Rightarrow> 'e handler" where
  "source_gate N show_ip render acl next_handler req st =
     (case require_allowed_source N show_ip acl (rq_peer req) (header_str ''x-forwarded-for'' req) of
        Pass \<Rightarrow> next_handler req st
      | Refuse err \<Rightarrow> (render err, (fst st)\<lparr>lc_forbidden := lc_forbidden (fst st) + 1\<rparr>, snd st))"

text \<open>\<open>shared\<close>: the innermost layer is added first.\<close>

definition shared ::
  "'n ipnet \<Rightarrow> (ip_addr \<Rightarrow> string) \<Rightarrow> (api_error \<Rightarrow> http_response) \<Rightarrow> ('e handler \<Rightarrow> 'e handler)
   \<Rightarrow> ('e handler \<Rightarrow> 'e handler) \<Rightarrow> 'n acl \<Rightarrow> string option \<Rightarrow> 'e handler \<Rightarrow> 'e handler" where
  "shared N show_ip render body_limit cors acl opt_token app =
     source_gate N show_ip render acl
       (allow_private_network
         (cors
           (track_http
             (require_token render (api_token_new opt_token)
               (body_limit app)))))"

definition layer_laws :: "('e handler \<Rightarrow> 'e handler) \<Rightarrow> bool" where
  "layer_laws layer \<longleftrightarrow>
     (\<forall>h req st. snd (layer h req st) = st \<or> snd (layer h req st) = snd (h req st))"

section \<open>Nothing happens behind a closed gate\<close>

lemma require_token_state:
  "snd (snd (require_token render token h req st)) \<noteq> snd st \<Longrightarrow>
   (token = None \<or> \<not> token_protected req \<or> presented_token req = token)
   \<and> snd (snd (h req st)) \<noteq> snd st"
  by (auto simp: require_token_def split: option.splits if_splits)

lemma track_http_state: "snd (snd (track_http h req st)) = snd (snd (h req st))"
  by (simp add: track_http_def Let_def split: prod.splits)

lemma private_network_state: "snd (allow_private_network h req st) = snd (h req st)"
  by (simp add: allow_private_network_def Let_def split: prod.splits)

lemma layer_state: "layer_laws layer \<Longrightarrow> snd (snd (layer h req st)) \<noteq> snd st \<Longrightarrow>
    snd (snd (layer h req st)) = snd (snd (h req st))"
  by (metis layer_laws_def)

text \<open>Behind the shared layers a request can change the program's state only if its source
  address is let through and, when an API token is configured and the request is a write under
  \<open>/api\<close>, it presents exactly that token.\<close>

theorem state_changes_need_source_and_token:
  assumes "layer_laws cors" and "layer_laws body_limit"
    and "snd (snd (shared N show_ip render body_limit cors acl opt_token app req (lc, e))) \<noteq> e"
  shows "require_allowed_source N show_ip acl (rq_peer req) (header_str ''x-forwarded-for'' req) = Pass
    \<and> (\<forall>t. opt_token = Some t \<longrightarrow> t \<noteq> [] \<longrightarrow> token_protected req \<longrightarrow> presented_token req = Some t)"
proof -
  let ?tok = "require_token render (api_token_new opt_token) (body_limit app)"
  have pass: "require_allowed_source N show_ip acl (rq_peer req) (header_str ''x-forwarded-for'' req) = Pass"
    using assms(3) by (auto simp: shared_def source_gate_def split: gate.splits)
  then have "snd (snd (cors (track_http ?tok) req (lc, e))) \<noteq> e"
    using assms(3) by (simp add: shared_def source_gate_def private_network_state)
  then have "snd (snd (?tok req (lc, e))) \<noteq> e"
    using layer_state [OF assms(1), of "track_http ?tok" req "(lc, e)"] by (simp add: track_http_state)
  then have "api_token_new opt_token = None \<or> \<not> token_protected req
      \<or> presented_token req = api_token_new opt_token"
    using require_token_state [of render _ _ req "(lc, e)"] by simp
  with pass show ?thesis by (auto simp: api_token_new_def)
qed

definition example_request :: "(string \<times> string) list \<Rightarrow> http_request" where
  "example_request hs = \<lparr>rq_method = ''DELETE'', rq_path = ''/api/movies/tt1'', rq_route = None,
     rq_headers = hs, rq_peer = Some (V4 0xC0A80109),
     rq_query = [], rq_body = []\<rparr>"

definition count_app :: "nat handler" where
  "count_app req st = (\<lparr>rs_status = 204, rs_headers = [], rs_body = []\<rparr>, fst st, Suc (snd st))"

theorem state_changes_need_source_and_token_witness:
  "presented_token (example_request [(''authorization'', ''Bearer s3'')]) = Some ''s3''"
proof -
  let ?req = "example_request [(''authorization'', ''Bearer s3'')]"
  let ?lc = "\<lparr>lc_forbidden = 0, lc_unauthorized = 0, lc_requests = []\<rparr>"
  have tp: "token_protected ?req"
    by (simp add: token_protected_def example_request_def starts_with_def)
  have token: "presented_token ?req = Some ''s3''"
    by (simp add: presented_token_def header_str_def example_request_def strip_prefix_def starts_with_def)
  have "snd (snd (shared cidr_net (\<lambda>_. []) (\<lambda>err. \<lparr>rs_status = ae_status err, rs_headers = [], rs_body = []\<rparr>)
      id id \<lparr>acl_allow = [Net4 0 0], acl_proxies = []\<rparr> (Some ''s3'') count_app ?req (?lc, 0))) \<noteq> 0"
    by (simp add: shared_def source_gate_def require_allowed_source_def allows_everything_def
        private_network_state track_http_state require_token_def api_token_new_def token count_app_def)
  note changed = this
  have laws: "layer_laws (id :: nat handler \<Rightarrow> nat handler)" by (simp add: layer_laws_def)
  from state_changes_need_source_and_token [OF laws laws changed] tp show ?thesis by simp
qed

end
