(* ===== verification/Engine_Add.thy ===== *)
theory Engine_Add
  imports Engine_Session
begin

text \<open>
  \<open>engine/add.rs\<close>: adding a movie (the checks, the metadata, the source, the listing, the room, the
  real download, the record) and removing one. \<open>add_movie_inner\<close> is cut into one definition per
  numbered step of the code, composed in its order; every early return is a value.
\<close>

section \<open>Results in sequence\<close>

definition result_bind :: "'a result \<Rightarrow> ('a \<Rightarrow> 'b result) \<Rightarrow> 'b result" where
  "result_bind r f = (case r of Inl e \<Rightarrow> Inl e | Inr a \<Rightarrow> f a)"

lemma result_bind_Inr [simp]: "result_bind r f = Inr b \<longleftrightarrow> (\<exists>a. r = Inr a \<and> f a = Inr b)"
  by (cases r) (simp_all add: result_bind_def)

text \<open>\<open>format!("{e}")\<close>: the outermost message only.\<close>

definition display :: "anyhow \<Rightarrow> string" where
  "display e = (case e of [] \<Rightarrow> [] | c # _ \<Rightarrow> cause_text c)"

section \<open>The request\<close>

record add_movie_request =
  rq_imdb_id :: string
  rq_magnet :: "string option"
  rq_torrent_url :: "string option"
  rq_torrent_base64 :: "string option"
  rq_initial_peers :: "string list"

definition valid_imdb :: "string \<Rightarrow> bool" where
  "valid_imdb i \<longleftrightarrow> starts_with i ''tt'' \<and> 4 \<le> length i \<and> list_all is_ascii_digit (drop 2 i)"

definition source_count :: "add_movie_request \<Rightarrow> nat" where
  "source_count req =
     length (filter id [rq_magnet req \<noteq> None, rq_torrent_url req \<noteq> None, rq_torrent_base64 req \<noteq> None])"

text \<open>The checks in front of everything that touches the network; the result is the movie's id.\<close>

definition check_request :: "'s world \<Rightarrow> add_movie_request \<Rightarrow> 's engine \<Rightarrow> string result" where
  "check_request W req e =
     (let i = trim (rq_imdb_id req)
      in if is_paused e then Inl (fault Conflict ''tornas is paused; resume it before adding movies'')
         else if \<not> valid_imdb i then Inl (fault Invalid ''imdb_id must look like tt0111161'')
         else if source_count req \<noteq> 1
         then Inl (fault Invalid ''provide exactly one of magnet, torrent_url, torrent_base64'')
         else if (case rq_magnet req of Some m \<Rightarrow> \<not> starts_with m ''magnet:?'' | None \<Rightarrow> False)
         then Inl (fault Invalid ''magnet must be a magnet: link'')
         else if (case torrent_for_movie i (store e) of
                    Some t \<Rightarrow> handle_for W e (t_info_hash t) \<noteq> None | None \<Rightarrow> False)
         then Inl (fault Conflict (i @ '' is already in the library''))
         else Inr i)"

section \<open>The steps\<close>

text \<open>1. The movie and its raw metadata: by the id alone when no metadata service is configured.\<close>

definition movie_from_tmdb :: "string \<Rightarrow> i64 \<Rightarrow> tmdb_movie \<Rightarrow> movie" where
  "movie_from_tmdb i now m =
     \<lparr>imdb_id = i, tmdb_id = Some (tm_tmdb_id m), title = tm_title m, year = tm_year m,
      overview = tm_overview m, poster_url = tm_poster_url m, backdrop_url = tm_backdrop_url m,
      runtime_min = tm_runtime_min m, genres = tm_genres m, rating = tm_rating m,
      added_at = now, last_used_at = now\<rparr>"

definition bare_movie :: "string \<Rightarrow> i64 \<Rightarrow> movie" where
  "bare_movie i now =
     \<lparr>imdb_id = i, tmdb_id = None, title = i, year = None, overview = None, poster_url = None,
      backdrop_url = None, runtime_min = None, genres = [], rating = None, added_at = now,
      last_used_at = now\<rparr>"

definition find_movie :: "'s world \<Rightarrow> string \<Rightarrow> (movie \<times> string option) result" where
  "find_movie W i =
     (case wd_tmdb W of
        None \<Rightarrow> Inr (bare_movie i (wd_now W), None)
      | Some find_by_imdb \<Rightarrow>
          (case find_by_imdb i of
             Inl err \<Rightarrow> Inl err
           | Inr m \<Rightarrow> Inr (movie_from_tmdb i (wd_now W) m, Some (tm_raw m))))"

text \<open>2. The torrent file, when the request names one.\<close>

definition torrent_file :: "'s world \<Rightarrow> add_movie_request \<Rightarrow> string option result" where
  "torrent_file W req =
     (case rq_torrent_url req of
        Some u \<Rightarrow>
          (case wd_http_get W u of
             Inl err \<Rightarrow> Inl (fault Upstream (''fetching torrent file: '' @ display err))
           | Inr resp \<Rightarrow>
               if \<not> ha_success resp
               then Inl (fault Upstream (''torrent file URL returned '' @ ha_status resp))
               else (case ha_body resp of
                       Inl err \<Rightarrow> Inl (fault Upstream (display err)) | Inr b \<Rightarrow> Inr (Some b)))
      | None \<Rightarrow>
          (case rq_torrent_base64 req of
             Some b \<Rightarrow>
               (case wd_base64 W (trim b) of
                  Inl err \<Rightarrow> Inl (fault Invalid (''torrent_base64: '' @ display err))
                | Inr bytes \<Rightarrow> Inr (Some bytes))
           | None \<Rightarrow> Inr None))"

definition make_source :: "string option \<Rightarrow> add_movie_request \<Rightarrow> add_source" where
  "make_source file req =
     (case file of
        Some b \<Rightarrow> From_Bytes b
      | None \<Rightarrow> From_Url (case rq_magnet req of Some m \<Rightarrow> m | None \<Rightarrow> []))"

text \<open>3. The metadata of the torrent, without downloading anything.\<close>

fun resolve_peers :: "'s world \<Rightarrow> string list \<Rightarrow> string list result" where
  "resolve_peers W [] = Inr []"
| "resolve_peers W (p # ps) =
     (case with_context (''resolving peer '' @ p) (wd_lookup_host W p) of
        Inl err \<Rightarrow> Inl err
      | Inr addrs \<Rightarrow> (case resolve_peers W ps of Inl err \<Rightarrow> Inl err | Inr rest \<Rightarrow> Inr (addrs @ rest)))"

definition some_peers :: "string list \<Rightarrow> string list option" where
  "some_peers ps = (if ps = [] then None else Some ps)"

definition private_magnet_text :: string where
  "private_magnet_text = ''this torrent is private; add it from its .torrent file '' @
     ''(torrent_url or torrent_base64), not a magnet''"

definition check_listing :: "string option \<Rightarrow> add_response \<Rightarrow> listing result" where
  "check_listing file resp =
     (case resp of
        List_Only l \<Rightarrow>
          if li_private l \<and> file = None then Inl (fault Invalid private_magnet_text) else Inr l
      | Already_Managed h \<Rightarrow> Inl (fault Conflict (''torrent '' @ h_hash h @ '' is already managed''))
      | Added h \<Rightarrow> Inl (bail ''unexpected: list_only add started a download''))"

definition list_torrent ::
  "'s world \<Rightarrow> add_source \<Rightarrow> string list option \<Rightarrow> string option \<Rightarrow> 's engine
   \<Rightarrow> listing result \<times> 's engine" where
  "list_torrent W src peers file e =
     (let (r, s) = rq_add (wd_rq W) src
                     (default_add_options\<lparr>ao_list_only := True, ao_initial_peers := peers\<rparr>) (en_session e)
      in (result_bind (with_context ''resolving torrent metadata'' r) (check_listing file), set_session s e))"

text \<open>The largest video file, or the largest file when none is a video.\<close>

definition numbered_files :: "(string \<times> u64) list \<Rightarrow> (u64 \<times> string \<times> u64) list" where
  "numbered_files fs = map (\<lambda>(i, name, len). (of_nat i, name, len)) (enumerate 0 fs)"

definition choose_video :: "(string \<times> u64) list \<Rightarrow> (u64 \<times> string \<times> u64) result" where
  "choose_video fs =
     (let files = numbered_files fs; len = (\<lambda>(i, name, len). len)
      in case max_by_key len (filter (\<lambda>(i, name, len). is_video name) files) of
           Some f \<Rightarrow> Inr f
         | None \<Rightarrow>
             (case max_by_key len files of
                Some f \<Rightarrow> Inr f | None \<Rightarrow> Inl (bail ''torrent has no files'')))"

text \<open>4. The real download of just the video file.\<close>

definition download_options ::
  "'s world \<Rightarrow> listing \<Rightarrow> u64 \<Rightarrow> string list option \<Rightarrow> string list \<Rightarrow> 's engine \<Rightarrow> add_options" where
  "download_options W l idx peers public_trackers e =
     default_add_options
       \<lparr>ao_overwrite := True, ao_only_files := Some [idx], ao_initial_peers := peers,
        ao_trackers := (if public_trackers = [] then None else Some public_trackers),
        ao_paused := (is_paused e \<or> queue_is_full W e)\<rparr>"

definition start_download ::
  "'s world \<Rightarrow> add_source \<Rightarrow> add_options \<Rightarrow> 's engine \<Rightarrow> handle result \<times> 's engine" where
  "start_download W src opts e =
     (let (r, s) = rq_add (wd_rq W) src opts (en_session e)
      in (result_bind (with_context ''adding torrent'' r) (\<lambda>resp.
            (case resp of
               Added h \<Rightarrow> Inr h
             | Already_Managed h \<Rightarrow> Inr h
             | List_Only l \<Rightarrow> Inl (bail ''unexpected list-only response''))), set_session s e))"

text \<open>5. The record of the movie.\<close>

definition added_row ::
  "'s world \<Rightarrow> string \<Rightarrow> listing \<Rightarrow> string \<Rightarrow> u64 \<times> string \<times> u64 \<Rightarrow> torrent_row" where
  "added_row W i l stored_source video =
     (case video of (idx, name, len) \<Rightarrow>
        \<lparr>t_info_hash = li_info_hash l, t_imdb_id = i, t_magnet = stored_source, t_size_bytes = len,
         t_video_file_idx = idx, t_video_file_name = name, t_added_at = wd_now W,
         t_private = li_private l, t_download_limit = None, t_upload_limit = None,
         t_peer_limit = None, t_completed_at = None\<rparr>)"

definition added_text :: "movie \<Rightarrow> u64 \<Rightarrow> bool \<Rightarrow> nat \<Rightarrow> string" where
  "added_text m len private evicted =
     ''added '' @ title m @ '' ('' @ imdb_id m @ '') '' @ human_bytes len
       @ (if private then '' [private]'' else [])
       @ (if evicted = 0 then [] else '', evicted '' @ show_nat evicted)"

definition record_movie ::
  "'s world \<Rightarrow> movie \<Rightarrow> string option \<Rightarrow> torrent_row \<Rightarrow> nat \<Rightarrow> handle \<Rightarrow> 's engine
   \<Rightarrow> movie_view result \<times> 's engine" where
  "record_movie W m raw row evicted h e =
     (let c1 = upsert_movie m raw (store e); e1 = set_store c1 e
      in case insert_torrent row c1 of
           Inl err \<Rightarrow> (Inl err, e1)
         | Inr c2 \<Rightarrow>
             (let e2 = log_event W ''add''
                         (added_text m (t_size_bytes row) (t_private row) evicted) (set_store c2 e1)
              in (Inr (view_movie W e2 m (Some h)), e2)))"

section \<open>Adding a movie\<close>

text \<open>Everything after the listing.\<close>

definition add_listed ::
  "'s world \<Rightarrow> add_movie_request \<Rightarrow> movie \<Rightarrow> string option \<Rightarrow> string option \<Rightarrow> string list option \<Rightarrow> listing
   \<Rightarrow> 's engine \<Rightarrow> movie_view result \<times> 's engine" where
  "add_listed W req m raw file peers l e =
     (let public_trackers = (if li_private l then [] else current_trackers W e);
          meta = meta_path e (li_info_hash l);
          bytes = (case file of Some b \<Rightarrow> b | None \<Rightarrow> li_torrent_bytes l);
          stored_source = (case file of Some _ \<Rightarrow> ''file://'' @ meta
                           | None \<Rightarrow> (case rq_magnet req of Some g \<Rightarrow> g | None \<Rightarrow> []))
      in case write_file W meta bytes e of
           (Inl err, e1) \<Rightarrow> (with_context (''saving '' @ wd_quote W meta) (Inl err), e1)
         | (Inr _, e1) \<Rightarrow>
             (case choose_video (li_files l) of
                Inl err \<Rightarrow> (Inl err, e1)
              | Inr (idx, name, len) \<Rightarrow>
                  (case ensure_space W len e1 of
                     (Inl err, e2) \<Rightarrow> (Inl err, e2)
                   | (Inr evicted, e2) \<Rightarrow>
                       (case start_download W (make_source file req)
                               (download_options W l idx peers public_trackers e2) e2 of
                          (Inl err, e3) \<Rightarrow> (Inl err, e3)
                        | (Inr h, e3) \<Rightarrow>
                            record_movie W m raw (added_row W (imdb_id m) l stored_source (idx, name, len))
                              (length evicted) h e3))))"

definition add_movie_inner ::
  "'s world \<Rightarrow> add_movie_request \<Rightarrow> 's engine \<Rightarrow> movie_view result \<times> 's engine" where
  "add_movie_inner W req e =
     (case check_request W req e of
        Inl err \<Rightarrow> (Inl err, e)
      | Inr i \<Rightarrow>
          (case find_movie W i of
             Inl err \<Rightarrow> (Inl err, count Tmdb_Errors 1 e)
           | Inr (m, raw) \<Rightarrow>
               (case torrent_file W req of
                  Inl err \<Rightarrow> (Inl err, e)
                | Inr file \<Rightarrow>
                    (case resolve_peers W (rq_initial_peers req) of
                       Inl err \<Rightarrow> (Inl err, e)
                     | Inr ps \<Rightarrow>
                         (case list_torrent W (make_source file req) (some_peers ps) file e of
                            (Inl err, e1) \<Rightarrow> (Inl err, e1)
                          | (Inr l, e1) \<Rightarrow> add_listed W req m raw file (some_peers ps) l e1)))))"

definition refusal_text :: "string \<Rightarrow> bool" where
  "refusal_text msg \<longleftrightarrow> contains msg ''evictable space'' \<or> contains msg ''larger than the whole budget''"

definition add_movie ::
  "'s world \<Rightarrow> add_movie_request \<Rightarrow> 's engine \<Rightarrow> movie_view result \<times> 's engine" where
  "add_movie W req e =
     (case add_movie_inner W req e of
        (Inr v, e1) \<Rightarrow> (Inr v, count (Adds ''ok'') 1 e1)
      | (Inl err, e1) \<Rightarrow>
          (Inl err, count (Adds (if refusal_text (error_text err) then ''refused'' else ''error'')) 1 e1))"

section \<open>Removing a movie\<close>

definition remove_movie :: "'s world \<Rightarrow> string \<Rightarrow> 's engine \<Rightarrow> bool result \<times> 's engine" where
  "remove_movie W i e =
     (case torrent_for_movie i (store e) of
        None \<Rightarrow> (let (gone, c) = delete_movie i (store e) in (Inr gone, set_store c e))
      | Some t \<Rightarrow>
          (case (case handle_for W e (t_info_hash t) of
                   None \<Rightarrow> (Inr (), e)
                 | Some h \<Rightarrow> (let (r, s) = rq_delete (wd_rq W) (h_id h) True (en_session e)
                             in (r, set_session s e))) of
             (Inl err, e1) \<Rightarrow> (Inl err, e1)
           | (Inr _, e1) \<Rightarrow>
               (Inr True, count Removals 1 (log_event W ''remove'' (''removed '' @ i)
                 (set_store (snd (delete_movie i (store e1))) e1)))))"

section \<open>Facts on the steps\<close>

lemma list_torrent_frame [simp]:
  "en_library (snd (list_torrent W src peers file e)) = en_library e"
  "en_opts (snd (list_torrent W src peers file e)) = en_opts e"
  "en_pause (snd (list_torrent W src peers file e)) = en_pause e"
  "en_disk_missing (snd (list_torrent W src peers file e)) = en_disk_missing e"
  "en_files (snd (list_torrent W src peers file e)) = en_files e"
  by (simp_all add: list_torrent_def Let_def case_prod_beta)

lemma start_download_frame [simp]:
  "en_library (snd (start_download W src opts e)) = en_library e"
  "en_opts (snd (start_download W src opts e)) = en_opts e"
  "en_pause (snd (start_download W src opts e)) = en_pause e"
  "en_disk_missing (snd (start_download W src opts e)) = en_disk_missing e"
  "en_files (snd (start_download W src opts e)) = en_files e"
  by (simp_all add: start_download_def Let_def case_prod_beta)

lemma find_movie_id: "find_movie W i = Inr (m, raw) \<Longrightarrow> imdb_id m = i \<and> added_at m = wd_now W \<and> last_used_at m = wd_now W"
  by (auto simp: find_movie_def bare_movie_def movie_from_tmdb_def split: option.splits sum.splits)

lemma upsert_has_movie: "imdb_id m \<in> movie_key ` set (ct_movies (upsert_movie m raw c))"
proof -
  have "get_movie (imdb_id m) (upsert_movie m raw c) \<noteq> None"
    by (auto simp: get_movie_def upsert_movie_def tbl_get_upsert split: option.splits)
  then show ?thesis using tbl_get_None [of movie_key "imdb_id m"] by (auto simp: get_movie_def)
qed

text \<open>Once the download has started the record cannot fail.\<close>

lemma record_movie_ok:
  assumes "t_imdb_id row = imdb_id m"
  shows "record_movie W m raw row n h e =
    (let e2 = log_event W ''add'' (added_text m (t_size_bytes row) (t_private row) n)
                (set_store (put_torrent (torrent_insert row) (upsert_movie m raw (store e))) e)
     in (Inr (view_movie W e2 m (Some h)), e2))"
proof -
  have "insert_torrent row (upsert_movie m raw (store e)) =
      Inr (put_torrent (torrent_insert row) (upsert_movie m raw (store e)))"
    using upsert_has_movie [of m raw "store e"] assms by (simp add: insert_torrent_def torrent_insert_def)
  then show ?thesis by (simp add: record_movie_def Let_def set_store_def)
qed

lemma added_row_imdb [simp]: "t_imdb_id (added_row W i l src video) = i"
  and added_row_hash [simp]: "t_info_hash (added_row W i l src video) = li_info_hash l"
  and added_row_private [simp]: "t_private (added_row W i l src video) = li_private l"
  and added_row_size [simp]: "t_size_bytes (added_row W i l src video) = snd (snd video)"
  by (simp_all add: added_row_def split: prod.splits)

text \<open>An addition that fails stopped before its movie was recorded; all it can have changed in the
  tables are the evictions made for it.\<close>

lemma add_listed_cases:
  assumes "add_listed W req m raw file peers l e = (r, e')"
  obtains (early) err where "r = Inl err" "en_library e' = en_library e"
  | (evicting) e1 len ev e2 where "is_ok r \<Longrightarrow> False" "en_library e1 = en_library e"
      "ensure_space W len e1 = (ev, e2)" "en_library e' = en_library e2"
  | (added) e1 idx name len ev e2 opts h e3 src where
      "choose_video (li_files l) = Inr (idx, name, len)" "en_library e1 = en_library e"
      "en_session e1 = en_session e" "en_opts e1 = en_opts e" "en_pause e1 = en_pause e"
      "ensure_space W len e1 = (Inr ev, e2)"
      "opts = download_options W l idx peers (if li_private l then [] else current_trackers W e) e2"
      "start_download W (make_source file req) opts e2 = (Inr h, e3)"
      "(r, e') = record_movie W m raw (added_row W (imdb_id m) l src (idx, name, len)) (length ev) h e3"
proof -
  define meta where "meta = meta_path e (li_info_hash l)"
  define src where "src = (case file of Some _ \<Rightarrow> ''file://'' @ meta
    | None \<Rightarrow> (case rq_magnet req of Some g \<Rightarrow> g | None \<Rightarrow> []))"
  define trackers where "trackers = (if li_private l then [] else current_trackers W e)"
  obtain w e1 where w: "write_file W meta (case file of Some b \<Rightarrow> b | None \<Rightarrow> li_torrent_bytes l) e = (w, e1)"
    by fastforce
  have e1: "en_library e1 = en_library e" "en_session e1 = en_session e" "en_opts e1 = en_opts e"
      "en_pause e1 = en_pause e"
    using w by (auto simp: write_file_def split: option.splits)
  note step = assms [unfolded add_listed_def Let_def, folded meta_def, folded src_def trackers_def, unfolded w]
  show thesis
  proof (cases w)
    case (Inl err)
    with step e1 show thesis by (intro early) auto
  next
    case (Inr u)
    show thesis
    proof (cases "choose_video (li_files l)")
      case (Inl err)
      with step e1 Inr show thesis by (intro early) auto
    next
      case video: (Inr f)
      obtain idx name len where f: "f = (idx, name, len)" by (cases f)
      obtain ev e2 where s: "ensure_space W len e1 = (ev, e2)" by fastforce
      show thesis
      proof (cases ev)
        case (Inl err)
        with step e1 \<open>w = Inr u\<close> video f s show thesis by (intro evicting [of e1 len ev e2]) auto
      next
        case ev: (Inr evs)
        let ?opts = "download_options W l idx peers trackers e2"
        obtain d e3 where d: "start_download W (make_source file req) ?opts e2 = (d, e3)" by fastforce
        then have lib: "en_library e3 = en_library e2"
          using start_download_frame(1) [of W "make_source file req" ?opts e2] by simp
        show thesis
        proof (cases d)
          case (Inl err)
          with step e1 \<open>w = Inr u\<close> video f s ev d lib show thesis by (intro evicting [of e1 len ev e2]) auto
        next
          case (Inr h)
          with step \<open>w = Inr u\<close> video f s ev d
          have "(r, e') = record_movie W m raw (added_row W (imdb_id m) l src (idx, name, len)) (length evs) h e3"
            by simp
          with e1 video f s ev d Inr show thesis
            by (intro added [of idx name len e1 evs e2 ?opts h e3 src]) (simp_all add: trackers_def)
        qed
      qed
    qed
  qed
qed

lemma add_movie_inner_cases:
  assumes "add_movie_inner W req e = (r, e')"
  obtains (early) err where "r = Inl err" "en_library e' = en_library e"
  | (listed) i m raw bytes peers l e1 where "check_request W req e = Inr i" "find_movie W i = Inr (m, raw)"
      "torrent_file W req = Inr bytes"
      "list_torrent W (make_source bytes req) peers bytes e = (Inr l, e1)"
      "add_listed W req m raw bytes peers l e1 = (r, e')"
proof (cases "check_request W req e")
  case (Inl err)
  with assms show thesis by (intro early) (auto simp: add_movie_inner_def)
next
  case i: (Inr i)
  show thesis
  proof (cases "find_movie W i")
    case (Inl err)
    with assms i show thesis by (intro early) (auto simp: add_movie_inner_def)
  next
    case m: (Inr mr)
    obtain mv raw where mr: "mr = (mv, raw)" by fastforce
    show thesis
    proof (cases "torrent_file W req")
      case (Inl err)
      with assms i m mr show thesis by (intro early) (auto simp: add_movie_inner_def)
    next
      case f: (Inr bytes)
      show thesis
      proof (cases "resolve_peers W (rq_initial_peers req)")
        case (Inl err)
        with assms i m mr f show thesis by (intro early) (auto simp: add_movie_inner_def)
      next
        case p: (Inr ps)
        obtain lr e1 where l: "list_torrent W (make_source bytes req) (some_peers ps) bytes e = (lr, e1)"
          by fastforce
        then have lib: "en_library e1 = en_library e"
          using list_torrent_frame(1) [of W "make_source bytes req" "some_peers ps" bytes e] by simp
        show thesis
        proof (cases lr)
          case (Inl err)
          with assms i m mr f p l lib show thesis by (intro early) (auto simp: add_movie_inner_def)
        next
          case (Inr li)
          with assms i m mr f p l show thesis
            by (intro listed [of i mv raw bytes "some_peers ps" li e1]) (simp_all add: add_movie_inner_def)
        qed
      qed
    qed
  qed
qed

section \<open>Properties\<close>

lemma add_movie_inner_of:
  assumes "add_movie W req e = (r, e')"
  obtains k e1 where "add_movie_inner W req e = (r, e1)" and "e' = count k 1 e1"
  using assms that by (auto simp: add_movie_def split: prod.splits sum.splits)

lemma torrent_bytes_put:
  "torrent_bytes (put_torrent (torrent_insert row) c) \<le> torrent_bytes c + unat (t_size_bytes row)"
proof -
  have "(\<Sum>x\<leftarrow>filter P xs. f x) \<le> (\<Sum>x\<leftarrow>xs. f x)" for P xs and f :: "torrent_record \<Rightarrow> nat"
    by (induction xs) auto
  then show ?thesis
    by (simp add: torrent_bytes_def list_torrents_def put_torrent_def tbl_replace_def tbl_del_def
        o_def torrent_from_record_def torrent_insert_def)
qed

lemma torrent_bytes_upsert [simp]: "torrent_bytes (upsert_movie m raw c) = torrent_bytes c"
  and torrent_bytes_event [simp]: "torrent_bytes (add_event now k msg c) = torrent_bytes c"
  by (simp_all add: torrent_bytes_def list_torrents_def upsert_movie_def)

text \<open>What a successful addition did.\<close>

lemma add_movie_ok:
  assumes "add_movie W req e = (Inr v, e')"
  obtains (recorded) i m raw bytes peers l e0 e1 idx len ev e2 opts h e3 row where
    "check_request W req e = Inr i" and "find_movie W i = Inr (m, raw)" and "torrent_file W req = Inr bytes"
    and "list_torrent W (make_source bytes req) peers bytes e = (Inr l, e0)"
    and "en_library e1 = en_library e" and "en_session e1 = en_session e0" and "en_pause e1 = en_pause e"
    and "ensure_space W len e1 = (Inr ev, e2)"
    and "opts = download_options W l idx peers (if li_private l then [] else current_trackers W e0) e2"
    and "start_download W (make_source bytes req) opts e2 = (Inr h, e3)"
    and "t_info_hash row = li_info_hash l" and "t_imdb_id row = imdb_id m" and "t_size_bytes row = len"
    and "store e' = add_event (wd_now W) ''add'' (added_text m len (t_private row) (length ev))
           (put_torrent (torrent_insert row) (upsert_movie m raw (store e2)))"
    and "en_session e' = en_session e3" and "mv_movie v = m" and "t_private row = li_private l"
proof -
  obtain k e4 where inner: "add_movie_inner W req e = (Inr v, e4)" and e': "e' = count k 1 e4"
    using add_movie_inner_of [OF assms] .
  show thesis
    using inner
  proof (cases rule: add_movie_inner_cases)
    case early
    then show thesis by simp
  next
    case (listed i m raw bytes peers l e0)
    have e0: "en_library e0 = en_library e" "en_pause e0 = en_pause e"
      using list_torrent_frame(1,3) [of W "make_source bytes req" peers bytes e] listed(4) by simp_all
    show thesis
      using listed(5)
    proof (cases rule: add_listed_cases)
      case early
      then show thesis by simp
    next
      case (evicting e1 len ev e2)
      then show thesis by simp
    next
      case (added e1 idx name len ev e2 opts h e3 src)
      define row where "row = added_row W (imdb_id m) l src (idx, name, len)"
      have row: "t_imdb_id row = imdb_id m" "t_info_hash row = li_info_hash l" "t_size_bytes row = len"
          "t_private row = li_private l"
        by (simp_all add: row_def)
      have e3: "en_library e3 = en_library e2"
        using start_download_frame(1) [of W "make_source bytes req" opts e2] added(8) by simp
      note r = added(9) [folded row_def, unfolded record_movie_ok [OF row(1)] Let_def]
      have v: "mv_movie v = m" using r by (simp add: view_movie_def Let_def split: option.splits)
      show thesis
        by (rule recorded [OF listed(1-4) _ added(3) _ added(6,7,8) row(2,1,3) _ _ v row(4)])
          (use r e0 e3 row added(2,5) in \<open>simp_all add: e'\<close>)
    qed
  qed
qed

text \<open>What a successful addition leaves in the catalog.\<close>

lemma added_movie_fits:
  assumes "catalog_wf (store e)" and "add_movie W req e = (Inr v, e')"
    and "torrent_bytes (store e) + unat (mc_budget (en_library e)) < 2 ^ 64"
    and "unat (mc_budget (en_library e)) + unat (mc_min_free (en_library e)) < 2 ^ 64"
  shows "torrent_bytes (store e') \<le> unat (mc_budget (en_library e)) \<and> catalog_wf (store e')"
  using assms(2)
proof (cases rule: add_movie_ok)
  case (recorded i m raw bytes peers l e0 e1 idx len ev e2 opts h e3 row)
  note e1 = recorded(5) and s = recorded(8) and row = recorded(12,13) and e' = recorded(14)
  have "unat len \<le> unat (mc_budget (en_library e))"
    using ensure_space_incoming [OF s] e1 by (simp add: word_le_nat_alt)
  then have room: "catalog_wf (store e2) \<and> torrent_bytes (store e2) + unat len \<le> unat (mc_budget (en_library e))"
    using ensure_space_room [OF _ s] assms(1,3,4) e1 by simp
  moreover have "torrent_bytes (store e') \<le> torrent_bytes (store e2) + unat len"
    using torrent_bytes_put [of row "upsert_movie m raw (store e2)"] by (simp add: e' row)
  moreover have "catalog_wf (store e')"
    unfolding e' using room row(1) upsert_has_movie [of m raw "store e2"]
    by (intro add_event_wf put_torrent_wf upsert_movie_wf) (auto simp: torrent_insert_def)
  ultimately show ?thesis by simp
qed

text \<open>The disk budget is an invariant of adding: whatever was on the disk before, after every
  successful addition the torrents of the catalog together fit the budget and the catalog is intact,
  as long as the sums stay below 2^64.\<close>

theorem add_respects_the_budget:
  assumes "catalog_wf (store e)" and "add_movie W req e = (Inr v, e')"
    and "torrent_bytes (store e) + unat (mc_budget (en_library e)) < 2 ^ 64"
    and "unat (mc_budget (en_library e)) + unat (mc_min_free (en_library e)) < 2 ^ 64"
  shows "torrent_bytes (store e') \<le> unat (mc_budget (en_library e)) \<and> catalog_wf (store e')"
  using added_movie_fits [OF assms] .

text \<open>A source stands for the same torrent when it is listed and when it is added.\<close>

definition faithful_sources :: "'s librqbit \<Rightarrow> bool" where
  "faithful_sources rq \<longleftrightarrow>
     (\<forall>src ao ao' s s' l h. ao_list_only ao \<and> fst (rq_add rq src ao s) = Inr (List_Only l) \<and> \<not> ao_list_only ao'
        \<and> (fst (rq_add rq src ao' s') = Inr (Added h) \<or> fst (rq_add rq src ao' s') = Inr (Already_Managed h))
        \<longrightarrow> h_hash h = li_info_hash l)"

lemma faithfulD:
  "faithful_sources rq \<Longrightarrow> fst (rq_add rq src ao s) = Inr (List_Only l) \<Longrightarrow> ao_list_only ao \<Longrightarrow>
   \<not> ao_list_only ao' \<Longrightarrow>
   fst (rq_add rq src ao' s') = Inr (Added h) \<or> fst (rq_add rq src ao' s') = Inr (Already_Managed h) \<Longrightarrow>
   h_hash h = li_info_hash l"
  unfolding faithful_sources_def by blast

lemma list_torrent_ok:
  assumes "list_torrent W src peers bytes e = (Inr l, e0)"
  shows "fst (rq_add (wd_rq W) src (default_add_options\<lparr>ao_list_only := True, ao_initial_peers := peers\<rparr>)
      (en_session e)) = Inr (List_Only l)" and "li_private l \<Longrightarrow> bytes \<noteq> None"
proof -
  obtain r s where r: "rq_add (wd_rq W) src
      (default_add_options\<lparr>ao_list_only := True, ao_initial_peers := peers\<rparr>) (en_session e) = (r, s)"
    by fastforce
  with assms obtain a where a: "r = Inr a" "check_listing bytes a = Inr l"
    by (auto simp: list_torrent_def)
  then show "fst (rq_add (wd_rq W) src (default_add_options\<lparr>ao_list_only := True, ao_initial_peers := peers\<rparr>)
      (en_session e)) = Inr (List_Only l)" and "li_private l \<Longrightarrow> bytes \<noteq> None"
    using r by (cases a; simp add: check_listing_def split: if_splits)+
qed

lemma start_download_ok:
  assumes "session_laws (wd_rq W)" and "add_laws (wd_rq W)" and "\<not> ao_list_only opts"
    and "start_download W src opts e = (Inr h, e')"
  shows "rq_get (wd_rq W) (en_session e') (h_hash h) = Some h"
    and "fst (rq_add (wd_rq W) src opts (en_session e)) = Inr (Added h)
       \<or> fst (rq_add (wd_rq W) src opts (en_session e)) = Inr (Already_Managed h)"
proof -
  let ?a = "rq_add (wd_rq W) src opts (en_session e)"
  have e': "en_session e' = snd ?a" using assms(4) by (auto simp: start_download_def case_prod_beta)
  obtain resp where "fst ?a = Inr resp" "(case resp of Added h \<Rightarrow> Inr h | Already_Managed h \<Rightarrow> Inr h
      | List_Only l \<Rightarrow> Inl (bail ''unexpected list-only response'')) = Inr h"
    using assms(4) by (auto simp: start_download_def case_prod_beta)
  then have r: "fst ?a = Inr (Added h) \<or> fst ?a = Inr (Already_Managed h)"
    by (cases resp) simp_all
  have "h \<in> set (rq_handles (wd_rq W) (snd ?a))"
    using r
  proof
    assume "fst ?a = Inr (Added h)"
    then show ?thesis using add_added(3) [OF assms(2) _ assms(3)] by blast
  next
    assume m: "fst ?a = Inr (Already_Managed h)"
    then have "unchanged (wd_rq W) (en_session e) (snd ?a)" by (intro add_refused [OF assms(2)]) simp
    then show ?thesis using add_managed [OF assms(2) m] by (simp add: unchanged_def same_torrents_def)
  qed
  then show "rq_get (wd_rq W) (en_session e') (h_hash h) = Some h"
    using session_listed_get [OF assms(1)] by (simp add: e')
  show "fst ?a = Inr (Added h) \<or> fst ?a = Inr (Already_Managed h)" by (rule r)
qed

lemma one_source:
  assumes "check_request W req e = Inr i" and "torrent_file W req = Inr bytes" and "bytes \<noteq> None"
  shows "rq_magnet req = None"
proof -
  have "source_count req = 1"
    using assms(1) by (auto simp: check_request_def Let_def split: if_splits)
  moreover have "rq_torrent_url req \<noteq> None \<or> rq_torrent_base64 req \<noteq> None"
    using assms(2,3) by (auto simp: torrent_file_def split: option.splits)
  ultimately show ?thesis by (auto simp: source_count_def split: if_splits)
qed

text \<open>C11: A movie that was added is there: after a successful addition the catalog holds the movie
  with the title shown, and a torrent of it whose info hash the session has loaded; nothing was
  paused, the id has the shape asked for, and a private torrent never came from a magnet link.\<close>

theorem added_movie_is_loaded:
  assumes "session_laws (wd_rq W)" and "add_laws (wd_rq W)" and "faithful_sources (wd_rq W)"
    and "add_movie W req e = (Inr v, e')"
  shows "\<exists>i m t h. i = trim (rq_imdb_id req) \<and> valid_imdb i \<and> \<not> is_paused e
    \<and> get_movie i (store e') = Some m \<and> title m = title (mv_movie v) \<and> last_used_at m = wd_now W
    \<and> torrent_by_hash (t_info_hash t) (store e') = Some t \<and> t_imdb_id t = i
    \<and> handle_for W e' (t_info_hash t) = Some h \<and> (t_private t \<longrightarrow> rq_magnet req = None)"
  using assms(4)
proof (cases rule: add_movie_ok)
  case (recorded i m raw bytes peers l e0 e1 idx len ev e2 opts h e3 row)
  have i: "i = trim (rq_imdb_id req)" "valid_imdb i" "\<not> is_paused e"
    using recorded(1) by (auto simp: check_request_def Let_def split: if_splits)
  have m: "imdb_id m = i" "last_used_at m = wd_now W" using find_movie_id [OF recorded(2)] by simp_all
  have real: "\<not> ao_list_only opts" by (simp add: recorded(9) download_options_def default_add_options_def)
  note dl = start_download_ok [OF assms(1,2) real recorded(10)]
  have hash: "h_hash h = t_info_hash row"
    unfolding recorded(11) by (rule faithfulD [OF assms(3) list_torrent_ok(1) [OF recorded(4)] _ real dl(2)]) simp
  have loaded: "handle_for W e' (t_info_hash row) = Some h"
    using dl(1) by (simp add: handle_for_def recorded(15) hash)
  have t: "torrent_by_hash (t_info_hash row) (store e') = Some (row\<lparr>t_completed_at := None\<rparr>)"
    by (simp add: recorded(14) torrent_by_hash_def put_torrent_def tbl_get_replace add_event_def Let_def
        flip: torrent_roundtrip) (simp add: torrent_insert_def)
  have "\<exists>m'. get_movie i (store e') = Some m' \<and> title m' = title m \<and> last_used_at m' = wd_now W"
    using m by (auto simp: recorded(14) get_movie_def add_event_def Let_def put_torrent_def upsert_movie_def
        tbl_get_upsert merge_movie_def split: option.splits)
  then obtain m' where m': "get_movie i (store e') = Some m'" "title m' = title m" "last_used_at m' = wd_now W"
    by blast
  have "t_private row \<longrightarrow> rq_magnet req = None"
    using one_source [OF recorded(1,3)] list_torrent_ok(2) [OF recorded(4)] recorded(17) by simp
  then show ?thesis
    using i m m' t loaded recorded(12,16)
    by (intro exI [of _ i] exI [of _ m'] exI [of _ "row\<lparr>t_completed_at := None\<rparr>"] exI [of _ h]) simp
qed


section \<open>Witnesses\<close>

lemma memory_session_faithful: "faithful_sources mem_session"
  by (auto simp: faithful_sources_def mem_add_def Let_def mem_get_listed split: option.splits if_splits)

definition example_request :: add_movie_request where
  "example_request =
     \<lparr>rq_imdb_id = '' tt0003 '', rq_magnet = Some ''magnet:?x'', rq_torrent_url = None,
      rq_torrent_base64 = None, rq_initial_peers = []\<rparr>"

lemma example_addition:
  obtains v where "add_movie (example_world 300) example_request example_engine
    = (Inr v, snd (add_movie (example_world 300) example_request example_engine))"
proof -
  let ?W = "example_world 300" and ?e = example_engine
  let ?l = "\<lparr>li_info_hash = ''magnet:?x'', li_private = False, li_files = [(''magnet:?x.mp4'', 10)],
    li_torrent_bytes = ''magnet:?x''\<rparr>"
  let ?m = "bare_movie ''tt0003'' 300"
  have check: "check_request ?W example_request ?e = Inr ''tt0003''" by code_simp
  have found: "find_movie ?W ''tt0003'' = Inr (?m, None)" by (simp add: find_movie_def example_world_def)
  have bytes: "torrent_file ?W example_request = Inr None" by (simp add: torrent_file_def example_request_def)
  have peers: "resolve_peers ?W (rq_initial_peers example_request) = Inr []" by (simp add: example_request_def)
  have list: "list_torrent ?W (make_source None example_request) (some_peers []) None ?e = (Inr ?l, ?e)"
    by (simp add: list_torrent_def make_source_def example_request_def mem_add_def Let_def check_listing_def
        default_add_options_def set_session_def result_bind_def)
  define path where "path = meta_path ?e ''magnet:?x''"
  define e1 where "e1 = ?e\<lparr>en_files := (en_files ?e)(path \<mapsto> ''magnet:?x'')\<rparr>"
  have saved: "write_file ?W path ''magnet:?x'' ?e = (Inr (), e1)"
    by (simp add: write_file_def example_world_def e1_def)
  have video: "choose_video [(''magnet:?x.mp4'', 10)] = Inr (0, ''magnet:?x.mp4'', 10)" by code_simp
  have "is_ok (media_plan (en_library ?e) (fst (candidates 300 (en_library ?e)))
      (snd (candidates 300 (en_library ?e))) 1000 10)" and
    "p_evict (projr (media_plan (en_library ?e) (fst (candidates 300 (en_library ?e)))
      (snd (candidates 300 (en_library ?e))) 1000 10)) = []"
    by code_simp+
  then obtain p :: eviction_plan where p: "media_plan (en_library ?e) (fst (candidates 300 (en_library ?e)))
      (snd (candidates 300 (en_library ?e))) 1000 10 = Inr p" "p_evict p = []"
    by (auto simp: is_ok_iff)
  have space: "ensure_space ?W 10 e1 = (Inr [], e1)"
    using p by (simp add: ensure_space_def case_prod_beta e1_def)
  have "mem_get example_session ''magnet:?x'' = None" by code_simp
  then have "mem_get (en_session e1) ''magnet:?x'' = None" by (simp add: e1_def example_engine_def)
  then obtain h e3 where start: "start_download ?W (make_source None example_request)
      (download_options ?W ?l 0 (some_peers []) (current_trackers ?W ?e) e1) e1 = (Inr h, e3)"
    by (simp add: start_download_def make_source_def example_request_def mem_add_def Let_def
        download_options_def default_add_options_def result_bind_def split: option.splits)
  have "\<exists>v e4. add_movie_inner ?W example_request ?e = (Inr v, e4)"
    by (simp add: add_movie_inner_def check found bytes peers list add_listed_def Let_def saved video space start
        record_movie_ok bare_movie_def flip: path_def)
  then show thesis using that by (auto simp: add_movie_def)
qed

theorem add_respects_the_budget_witness:
  "torrent_bytes (store (snd (add_movie (example_world 300) example_request example_engine))) \<le> 100"
proof -
  obtain v where v: "add_movie (example_world 300) example_request example_engine
    = (Inr v, snd (add_movie (example_world 300) example_request example_engine))"
    by (rule example_addition)
  have vals: "torrent_bytes (store example_engine) = 90"
      "unat (mc_min_free (en_library example_engine)) = 5"
      "unat (mc_budget (en_library example_engine)) = 100"
    by code_simp+
  have "torrent_bytes (store example_engine) + unat (mc_budget (en_library example_engine)) < 2 ^ 64"
    and "unat (mc_budget (en_library example_engine)) + unat (mc_min_free (en_library example_engine)) < 2 ^ 64"
    unfolding vals by simp_all
  from add_respects_the_budget [OF example_engine_wf v this] show ?thesis by (simp add: vals)
qed

theorem added_movie_is_loaded_witness:
  "\<exists>(t::torrent_row) h. t_imdb_id t = ''tt0003'' \<and> handle_for (example_world 300)
     (snd (add_movie (example_world 300) example_request example_engine)) (t_info_hash t) = Some h"
proof -
  obtain v where v: "add_movie (example_world 300) example_request example_engine
    = (Inr v, snd (add_movie (example_world 300) example_request example_engine))"
    by (rule example_addition)
  have i: "trim (rq_imdb_id example_request) = ''tt0003''" by code_simp
  have "session_laws (wd_rq (example_world 300))" "add_laws (wd_rq (example_world 300))"
      "faithful_sources (wd_rq (example_world 300))"
    by (simp_all add: memory_session_laws mem_add_laws memory_session_faithful)
  from added_movie_is_loaded [OF this v, unfolded i] show ?thesis by blast
qed

lemma add_paused:
  assumes "is_paused e" obtains err where "fst (add_movie W req e) = Inl err"
proof -
  have "add_movie_inner W req e =
      (Inl (fault Conflict ''tornas is paused; resume it before adding movies''), e)"
    using assms by (simp add: add_movie_inner_def check_request_def Let_def)
  then show thesis using that by (simp add: add_movie_def)
qed


end
