(* ===== verification/Stremio.thy ===== *)
theory Stremio
  imports Wire
begin

text \<open>
  The \<open>stremio\<close> crate: the addon protocol over HTTP. Its wire types and their JSON form, the extras in
  the path, the reply with its caching policy, and the routes that hand a request to the handler.
  Percent-decoding is the parameter \<open>dec\<close> (see theory \<open>Wire\<close>). The router of \<open>axum\<close> gives the
  still-encoded path parameters; the \<open>Host\<close> header is already parsed.
\<close>

section \<open>Wire types\<close>

datatype content_type = Movie_Content

definition content_type_text :: "content_type \<Rightarrow> string" where
  "content_type_text t = (case t of Movie_Content \<Rightarrow> ''movie'')"

definition content_type_parse :: "string \<Rightarrow> content_type option" where
  "content_type_parse s = (if s = ''movie'' then Some Movie_Content else None)"

datatype resource = Catalog_Res | Meta_Res | Stream_Res

definition resource_text :: "resource \<Rightarrow> string" where
  "resource_text r = (case r of Catalog_Res \<Rightarrow> ''catalog'' | Meta_Res \<Rightarrow> ''meta'' | Stream_Res \<Rightarrow> ''stream'')"

definition resource_parse :: "string \<Rightarrow> resource option" where
  "resource_parse s =
     (if s = ''catalog'' then Some Catalog_Res else if s = ''meta'' then Some Meta_Res
      else if s = ''stream'' then Some Stream_Res else None)"

datatype resource_entry = Res_Name resource | Res_Detailed resource "content_type list" "string list"

fun resource_entry_name :: "resource_entry \<Rightarrow> resource" where
  "resource_entry_name (Res_Name r) = r"
| "resource_entry_name (Res_Detailed r types prefixes) = r"

record extra_def =
  xd_name :: string
  xd_is_required :: bool
  xd_options :: "string list"
  xd_options_limit :: "u32 option"

definition extra_optional :: "string \<Rightarrow> extra_def" where
  "extra_optional name = \<lparr>xd_name = name, xd_is_required = False, xd_options = [], xd_options_limit = None\<rparr>"

definition extra_required :: "string \<Rightarrow> extra_def" where
  "extra_required name = (extra_optional name)\<lparr>xd_is_required := True\<rparr>"

definition extra_options :: "string list \<Rightarrow> extra_def \<Rightarrow> extra_def" where
  "extra_options os d = d\<lparr>xd_options := os\<rparr>"

record catalog_def =
  cd_content_type :: content_type
  cd_id :: string
  cd_name :: string
  cd_extra :: "extra_def list"

definition catalog_def_new :: "content_type \<Rightarrow> string \<Rightarrow> string \<Rightarrow> catalog_def" where
  "catalog_def_new t i name = \<lparr>cd_content_type = t, cd_id = i, cd_name = name, cd_extra = []\<rparr>"

definition catalog_def_extra :: "extra_def \<Rightarrow> catalog_def \<Rightarrow> catalog_def" where
  "catalog_def_extra x d = d\<lparr>cd_extra := cd_extra d @ [x]\<rparr>"

record manifest =
  mf_id :: string
  mf_name :: string
  mf_description :: string
  mf_version :: string
  mf_resources :: "resource_entry list"
  mf_types :: "content_type list"
  mf_catalogs :: "catalog_def list"
  mf_id_prefixes :: "string list"
  mf_logo :: "string option"

datatype poster_shape = Square | Poster | Landscape

record link =
  lk_name :: string
  lk_category :: string
  lk_url :: string

record meta_preview =
  mp_id :: string
  mp_content_type :: "content_type option"
  mp_name :: string
  mp_poster :: "string option"
  mp_poster_shape :: "poster_shape option"
  mp_genres :: "string list"
  mp_imdb_rating :: "string option"
  mp_release_info :: "string option"
  mp_description :: "string option"
  mp_links :: "link list"

datatype stream_source = Source_Url string

record stream_hints =
  sh_not_web_ready :: bool
  sh_binge_group :: "string option"
  sh_filename :: "string option"
  sh_video_size :: "u64 option"

definition default_stream_hints :: stream_hints where
  "default_stream_hints =
     \<lparr>sh_not_web_ready = False, sh_binge_group = None, sh_filename = None, sh_video_size = None\<rparr>"

definition stream_hints_empty :: "stream_hints \<Rightarrow> bool" where
  "stream_hints_empty h \<longleftrightarrow>
     \<not> sh_not_web_ready h \<and> sh_binge_group h = None \<and> sh_filename h = None \<and> sh_video_size h = None"

record stremio_stream =
  sm_source :: stream_source
  sm_name :: "string option"
  sm_description :: "string option"
  sm_behavior_hints :: stream_hints

definition stream_new :: "stream_source \<Rightarrow> stremio_stream" where
  "stream_new src =
     \<lparr>sm_source = src, sm_name = None, sm_description = None, sm_behavior_hints = default_stream_hints\<rparr>"

record stremio_video =
  vd_id :: string
  vd_title :: string
  vd_released :: string
  vd_thumbnail :: "string option"
  vd_streams :: "stremio_stream list"
  vd_episode :: "u32 option"
  vd_season :: "u32 option"
  vd_overview :: "string option"

definition default_video :: stremio_video where
  "default_video =
     \<lparr>vd_id = [], vd_title = [], vd_released = [], vd_thumbnail = None, vd_streams = [],
      vd_episode = None, vd_season = None, vd_overview = None\<rparr>"

record meta_hints =
  mh_default_video_id :: "string option"
  mh_is_live :: bool
  mh_has_scheduled_videos :: bool

definition default_meta_hints :: meta_hints where
  "default_meta_hints = \<lparr>mh_default_video_id = None, mh_is_live = False, mh_has_scheduled_videos = False\<rparr>"

definition meta_hints_empty :: "meta_hints \<Rightarrow> bool" where
  "meta_hints_empty h \<longleftrightarrow>
     mh_default_video_id h = None \<and> \<not> mh_is_live h \<and> \<not> mh_has_scheduled_videos h"

record meta =
  mt_id :: string
  mt_content_type :: "content_type option"
  mt_name :: string
  mt_genres :: "string list"
  mt_poster :: "string option"
  mt_poster_shape :: "poster_shape option"
  mt_background :: "string option"
  mt_logo :: "string option"
  mt_description :: "string option"
  mt_release_info :: "string option"
  mt_imdb_rating :: "string option"
  mt_released :: "string option"
  mt_links :: "link list"
  mt_videos :: "stremio_video list"
  mt_runtime :: "string option"
  mt_language :: "string option"
  mt_country :: "string option"
  mt_website :: "string option"
  mt_behavior_hints :: meta_hints

definition default_meta :: meta where
  "default_meta =
     \<lparr>mt_id = [], mt_content_type = None, mt_name = [], mt_genres = [], mt_poster = None,
      mt_poster_shape = None, mt_background = None, mt_logo = None, mt_description = None,
      mt_release_info = None, mt_imdb_rating = None, mt_released = None, mt_links = [],
      mt_videos = [], mt_runtime = None, mt_language = None, mt_country = None, mt_website = None,
      mt_behavior_hints = default_meta_hints\<rparr>"

record catalog_response =
  cr_metas :: "meta_preview list"
  cr_metas_detailed :: "meta list"

record meta_response = mr_meta :: "meta option"

record stream_response = sr_streams :: "stremio_stream list"

section \<open>The JSON form\<close>

definition json_type :: "content_type \<Rightarrow> json" where
  "json_type t = JString (content_type_text t)"

definition json_resource_entry :: "resource_entry \<Rightarrow> json" where
  "json_resource_entry r =
     (case r of
        Res_Name n \<Rightarrow> JString (resource_text n)
      | Res_Detailed n types prefixes \<Rightarrow>
          JObject ([(''name'', JString (resource_text n)), (''types'', JArray (map json_type types))]
            @ field_list ''idPrefixes'' JString prefixes))"

definition json_extra_def :: "extra_def \<Rightarrow> json" where
  "json_extra_def x =
     JObject ([(''name'', JString (xd_name x))] @ field_true ''isRequired'' (xd_is_required x)
       @ field_list ''options'' JString (xd_options x)
       @ field_some ''optionsLimit'' (\<lambda>n. JNumber (Pos_Int (ucast n))) (xd_options_limit x))"

definition json_catalog_def :: "catalog_def \<Rightarrow> json" where
  "json_catalog_def c =
     JObject ([(''type'', json_type (cd_content_type c)), (''id'', JString (cd_id c)),
               (''name'', JString (cd_name c))] @ field_list ''extra'' json_extra_def (cd_extra c))"

definition json_manifest :: "manifest \<Rightarrow> json" where
  "json_manifest m =
     JObject ([(''id'', JString (mf_id m)), (''name'', JString (mf_name m)),
               (''description'', JString (mf_description m)), (''version'', JString (mf_version m)),
               (''resources'', JArray (map json_resource_entry (mf_resources m))),
               (''types'', JArray (map json_type (mf_types m))),
               (''catalogs'', JArray (map json_catalog_def (mf_catalogs m)))]
       @ field_list ''idPrefixes'' JString (mf_id_prefixes m) @ field_some ''logo'' JString (mf_logo m))"

definition json_poster_shape :: "poster_shape \<Rightarrow> json" where
  "json_poster_shape p =
     JString (case p of Square \<Rightarrow> ''square'' | Poster \<Rightarrow> ''poster'' | Landscape \<Rightarrow> ''landscape'')"

definition json_link :: "link \<Rightarrow> json" where
  "json_link l = JObject [(''name'', JString (lk_name l)), (''category'', JString (lk_category l)),
                          (''url'', JString (lk_url l))]"

definition json_meta_preview :: "meta_preview \<Rightarrow> json" where
  "json_meta_preview m =
     JObject ([(''id'', JString (mp_id m)), (''type'', json_option json_type (mp_content_type m)),
               (''name'', JString (mp_name m))]
       @ field_some ''poster'' JString (mp_poster m)
       @ field_some ''posterShape'' json_poster_shape (mp_poster_shape m)
       @ field_list ''genres'' JString (mp_genres m)
       @ field_some ''imdbRating'' JString (mp_imdb_rating m)
       @ field_some ''releaseInfo'' JString (mp_release_info m)
       @ field_some ''description'' JString (mp_description m)
       @ field_list ''links'' json_link (mp_links m))"

definition json_stream_hints :: "stream_hints \<Rightarrow> json" where
  "json_stream_hints h =
     JObject (field_true ''notWebReady'' (sh_not_web_ready h)
       @ field_some ''bingeGroup'' JString (sh_binge_group h)
       @ field_some ''filename'' JString (sh_filename h)
       @ field_some ''videoSize'' (\<lambda>n. JNumber (Pos_Int n)) (sh_video_size h))"

text \<open>The source is flattened into the stream.\<close>

definition json_stream :: "stremio_stream \<Rightarrow> json" where
  "json_stream s =
     JObject ([(''url'', JString (case sm_source s of Source_Url u \<Rightarrow> u))]
       @ field_some ''name'' JString (sm_name s)
       @ field_some ''description'' JString (sm_description s)
       @ (if stream_hints_empty (sm_behavior_hints s) then []
          else [(''behaviorHints'', json_stream_hints (sm_behavior_hints s))]))"

definition json_video :: "stremio_video \<Rightarrow> json" where
  "json_video v =
     JObject ([(''id'', JString (vd_id v)), (''title'', JString (vd_title v)),
               (''released'', JString (vd_released v))]
       @ field_some ''thumbnail'' JString (vd_thumbnail v)
       @ field_list ''streams'' json_stream (vd_streams v)
       @ field_some ''episode'' (\<lambda>n. JNumber (Pos_Int (ucast n))) (vd_episode v)
       @ field_some ''season'' (\<lambda>n. JNumber (Pos_Int (ucast n))) (vd_season v)
       @ field_some ''overview'' JString (vd_overview v))"

definition json_meta_hints :: "meta_hints \<Rightarrow> json" where
  "json_meta_hints h =
     JObject (field_some ''defaultVideoId'' JString (mh_default_video_id h)
       @ field_true ''isLive'' (mh_is_live h)
       @ field_true ''hasScheduledVideos'' (mh_has_scheduled_videos h))"

definition json_meta :: "meta \<Rightarrow> json" where
  "json_meta m =
     JObject ([(''id'', JString (mt_id m)), (''type'', json_option json_type (mt_content_type m)),
               (''name'', JString (mt_name m))]
       @ field_list ''genres'' JString (mt_genres m)
       @ field_some ''poster'' JString (mt_poster m)
       @ field_some ''posterShape'' json_poster_shape (mt_poster_shape m)
       @ field_some ''background'' JString (mt_background m)
       @ field_some ''logo'' JString (mt_logo m)
       @ field_some ''description'' JString (mt_description m)
       @ field_some ''releaseInfo'' JString (mt_release_info m)
       @ field_some ''imdbRating'' JString (mt_imdb_rating m)
       @ field_some ''released'' JString (mt_released m)
       @ field_list ''links'' json_link (mt_links m)
       @ field_list ''videos'' json_video (mt_videos m)
       @ field_some ''runtime'' JString (mt_runtime m)
       @ field_some ''language'' JString (mt_language m)
       @ field_some ''country'' JString (mt_country m)
       @ field_some ''website'' JString (mt_website m)
       @ (if meta_hints_empty (mt_behavior_hints m) then []
          else [(''behaviorHints'', json_meta_hints (mt_behavior_hints m))]))"

definition json_catalog_response :: "catalog_response \<Rightarrow> json" where
  "json_catalog_response r =
     JObject ([(''metas'', JArray (map json_meta_preview (cr_metas r)))]
       @ field_list ''metasDetailed'' json_meta (cr_metas_detailed r))"

definition json_meta_response :: "meta_response \<Rightarrow> json" where
  "json_meta_response r = JObject [(''meta'', json_option json_meta (mr_meta r))]"

definition json_stream_response :: "stream_response \<Rightarrow> json" where
  "json_stream_response r = JObject [(''streams'', JArray (map json_stream (sr_streams r)))]"

section \<open>Extras\<close>

type_synonym extra = "(string \<times> string) list"

definition strip_json :: "string \<Rightarrow> string" where
  "strip_json s = (case strip_suffix s ''.json'' of Some r \<Rightarrow> r | None \<Rightarrow> s)"

definition extra_pair :: "string \<Rightarrow> string \<times> string" where
  "extra_pair p = (case split_once CHR ''='' p of Some kv \<Rightarrow> kv | None \<Rightarrow> (p, []))"

definition extra_parse :: "(string \<Rightarrow> string) \<Rightarrow> string \<Rightarrow> extra" where
  "extra_parse dec raw =
     map (map_prod dec dec)
       (map extra_pair (filter (\<lambda>p. p \<noteq> []) (split_char CHR ''&'' (strip_json raw))))"

definition extra_get :: "string \<Rightarrow> extra \<Rightarrow> string option" where
  "extra_get k x = map_option snd (find (\<lambda>(k', v). k' = k) x)"

definition extra_search :: "extra \<Rightarrow> string option" where
  "extra_search x = (case extra_get ''search'' x of Some s \<Rightarrow> if s = [] then None else Some s | None \<Rightarrow> None)"

definition extra_genre :: "extra \<Rightarrow> string option" where
  "extra_genre x = (case extra_get ''genre'' x of Some s \<Rightarrow> if s = [] then None else Some s | None \<Rightarrow> None)"

definition extra_skip :: "extra \<Rightarrow> nat option" where
  "extra_skip x = Option.bind (extra_get ''skip'' x) (parse_unsigned 64)"

section \<open>Replies\<close>

datatype stremio_error = Stremio_Not_Found | Stremio_Internal string

record 'a reply =
  rp_body :: 'a
  rp_cache_max_age :: "u32 option"
  rp_stale_revalidate :: "u32 option"
  rp_stale_error :: "u32 option"

definition reply_new :: "'a \<Rightarrow> 'a reply" where
  "reply_new b = \<lparr>rp_body = b, rp_cache_max_age = None, rp_stale_revalidate = None, rp_stale_error = None\<rparr>"

definition with_max_age :: "u32 \<Rightarrow> 'a reply \<Rightarrow> 'a reply" where
  "with_max_age n r = r\<lparr>rp_cache_max_age := Some n\<rparr>"

definition with_stale_revalidate :: "u32 \<Rightarrow> 'a reply \<Rightarrow> 'a reply" where
  "with_stale_revalidate n r = r\<lparr>rp_stale_revalidate := Some n\<rparr>"

definition with_stale_error :: "u32 \<Rightarrow> 'a reply \<Rightarrow> 'a reply" where
  "with_stale_error n r = r\<lparr>rp_stale_error := Some n\<rparr>"

definition cache_control :: "'a reply \<Rightarrow> string option" where
  "cache_control r =
     (let part = (\<lambda>name v. case v of Some s \<Rightarrow> [name @ show_nat (unat (s :: u32))] | None \<Rightarrow> []);
          parts = part ''max-age='' (rp_cache_max_age r)
                  @ part ''stale-while-revalidate='' (rp_stale_revalidate r)
                  @ part ''stale-if-error='' (rp_stale_error r)
      in if parts = [] then None else Some (join_with '', '' (parts @ [''public''])))"

section \<open>Requests\<close>

record catalog_request =
  cq_base_url :: string
  cq_content_type :: content_type
  cq_id :: string
  cq_extra :: extra

record item_request =
  iq_base_url :: string
  iq_content_type :: content_type
  iq_id :: string

record stremio_handler =
  sl_catalog :: "catalog_request \<Rightarrow> stremio_error + catalog_response reply"
  sl_meta :: "item_request \<Rightarrow> stremio_error + meta_response reply"
  sl_stream :: "item_request \<Rightarrow> stremio_error + stream_response reply"

datatype scheme = Http_Scheme | Https_Scheme

definition scheme_text :: "scheme \<Rightarrow> string" where
  "scheme_text s = (case s of Http_Scheme \<Rightarrow> ''http'' | Https_Scheme \<Rightarrow> ''https'')"

text \<open>\<open>HeaderValue::to_str\<close> accepts visible ASCII characters and tabs.\<close>

definition visible_ascii :: "char \<Rightarrow> bool" where
  "visible_ascii c \<longleftrightarrow> 32 \<le> (of_char c :: nat) \<and> (of_char c :: nat) < 127 \<or> (of_char c :: nat) = 9"

definition forwarded_proto :: "string list \<Rightarrow> scheme option" where
  "forwarded_proto values =
     (case values of
        [] \<Rightarrow> None
      | v # vs \<Rightarrow>
          if list_all visible_ascii v then
            (let first = trim (hd (split_char CHR '','' v))
             in if eq_ignore_ascii_case first ''https'' then Some Https_Scheme
                else if eq_ignore_ascii_case first ''http'' then Some Http_Scheme else None)
          else None)"

definition base_url :: "string option \<Rightarrow> string option \<Rightarrow> scheme option \<Rightarrow> string" where
  "base_url public_url host proto =
     (case public_url of
        Some u \<Rightarrow> trim_end_char CHR ''/'' u
      | None \<Rightarrow>
          (case proto of Some p \<Rightarrow> scheme_text p | None \<Rightarrow> ''http'') @ ''://''
          @ (case host of Some h \<Rightarrow> h | None \<Rightarrow> ''localhost''))"

section \<open>Routes\<close>

record stremio_http =
  xh_params :: "(string \<times> string) list"
  xh_host :: "string option"
  xh_proto :: "string list"

record stremio_answer =
  xa_status :: nat
  xa_cache_control :: "string option"
  xa_body :: json

definition raw_param :: "(string \<times> string) list \<Rightarrow> string \<Rightarrow> string option" where
  "raw_param params name = map_option snd (find (\<lambda>(k, v). k = name) params)"

definition content_type_and_id ::
  "(string \<Rightarrow> string) \<Rightarrow> (string \<times> string) list \<Rightarrow> (content_type \<times> string) option" where
  "content_type_and_id dec params =
     (case raw_param params ''content_type'' of
        None \<Rightarrow> None
      | Some t \<Rightarrow>
          (case content_type_parse (dec t) of
             None \<Rightarrow> None
           | Some ct \<Rightarrow>
               (case raw_param params ''id'' of
                  None \<Rightarrow> None | Some i \<Rightarrow> Some (ct, strip_json (dec i)))))"

definition json_answer :: "json \<Rightarrow> string option \<Rightarrow> stremio_answer" where
  "json_answer body cache =
     \<lparr>xa_status = 200,
      xa_cache_control = (case cache of Some c \<Rightarrow> if list_all visible_ascii c then Some c else None | None \<Rightarrow> None),
      xa_body = body\<rparr>"

definition protocol_error :: "nat \<Rightarrow> string \<Rightarrow> stremio_answer" where
  "protocol_error status msg = (json_answer (JObject [(''err'', JString msg)]) None)\<lparr>xa_status := status\<rparr>"

definition reply_answer :: "('a \<Rightarrow> json) \<Rightarrow> stremio_error + 'a reply \<Rightarrow> stremio_answer" where
  "reply_answer to_json r =
     (case r of
        Inr rp \<Rightarrow> json_answer (to_json (rp_body rp)) (cache_control rp)
      | Inl Stremio_Not_Found \<Rightarrow> protocol_error 404 ''not found''
      | Inl (Stremio_Internal e) \<Rightarrow> protocol_error 500 ''handler error'')"

definition manifest_route :: "manifest \<Rightarrow> stremio_answer" where
  "manifest_route m = json_answer (json_manifest m) None"

definition request_base :: "string option \<Rightarrow> stremio_http \<Rightarrow> string" where
  "request_base public_url q = base_url public_url (xh_host q) (forwarded_proto (xh_proto q))"

definition catalog_route ::
  "(string \<Rightarrow> string) \<Rightarrow> stremio_handler \<Rightarrow> string option \<Rightarrow> stremio_http \<Rightarrow> stremio_answer" where
  "catalog_route dec H public_url q =
     (case content_type_and_id dec (xh_params q) of
        None \<Rightarrow> protocol_error 404 ''not found''
      | Some (ct, i) \<Rightarrow>
          reply_answer json_catalog_response (sl_catalog H
            \<lparr>cq_base_url = request_base public_url q, cq_content_type = ct, cq_id = i,
             cq_extra = (case raw_param (xh_params q) ''extra'' of
                           Some x \<Rightarrow> extra_parse dec x | None \<Rightarrow> [])\<rparr>))"

definition meta_route ::
  "(string \<Rightarrow> string) \<Rightarrow> stremio_handler \<Rightarrow> string option \<Rightarrow> stremio_http \<Rightarrow> stremio_answer" where
  "meta_route dec H public_url q =
     (case content_type_and_id dec (xh_params q) of
        None \<Rightarrow> protocol_error 404 ''not found''
      | Some (ct, i) \<Rightarrow>
          reply_answer json_meta_response (sl_meta H
            \<lparr>iq_base_url = request_base public_url q, iq_content_type = ct, iq_id = i\<rparr>))"

definition stream_route ::
  "(string \<Rightarrow> string) \<Rightarrow> stremio_handler \<Rightarrow> string option \<Rightarrow> stremio_http \<Rightarrow> stremio_answer" where
  "stream_route dec H public_url q =
     (case content_type_and_id dec (xh_params q) of
        None \<Rightarrow> protocol_error 404 ''not found''
      | Some (ct, i) \<Rightarrow>
          reply_answer json_stream_response (sl_stream H
            \<lparr>iq_base_url = request_base public_url q, iq_content_type = ct, iq_id = i\<rparr>))"

definition stremio_router ::
  "(string \<Rightarrow> string) \<Rightarrow> manifest \<Rightarrow> stremio_handler \<Rightarrow> string option \<Rightarrow> string \<Rightarrow> stremio_http
   \<Rightarrow> stremio_answer option" where
  "stremio_router dec m H public_url path q =
     (case path_segments path of
        None \<Rightarrow> None
      | Some ss \<Rightarrow>
          (let at = (\<lambda>ps f. map_option (\<lambda>params. f (q\<lparr>xh_params := params\<rparr>)) (match_route ps ss));
               routes =
                 [at [Lit ''manifest.json''] (\<lambda>q. manifest_route m),
                  at [Lit ''catalog'', Par ''content_type'', Par ''id''] (catalog_route dec H public_url),
                  at [Lit ''catalog'', Par ''content_type'', Par ''id'', Par ''extra'']
                    (catalog_route dec H public_url),
                  at [Lit ''meta'', Par ''content_type'', Par ''id''] (meta_route dec H public_url),
                  at [Lit ''stream'', Par ''content_type'', Par ''id''] (stream_route dec H public_url)]
           in Option.bind (find (\<lambda>r. r \<noteq> None) routes) id))"

section \<open>Facts\<close>

lemma strip_json_suffix [simp]: "strip_json (s @ ''.json'') = s"
proof -
  have "strip_suffix (s @ ''.json'') ''.json'' = Some s" by (simp only: strip_suffix_Some)
  then show ?thesis by (simp add: strip_json_def)
qed

text \<open>What a client sends for a list of extras: keys and values encoded before they are joined.\<close>

definition send_extra :: "(string \<Rightarrow> string) \<Rightarrow> extra \<Rightarrow> string" where
  "send_extra enc x = join_with ''&'' (map (\<lambda>(k, v). enc k @ ''='' @ enc v) x)"

lemma extra_parse_send:
  assumes no: "\<And>s. CHR ''&'' \<notin> set (enc s)" "\<And>s. CHR ''='' \<notin> set (enc s)"
    and undo: "\<And>k v. (k, v) \<in> set x \<Longrightarrow> dec (enc k) = k \<and> dec (enc v) = v"
  shows "extra_parse dec (send_extra enc x @ ''.json'') = x"
proof -
  let ?f = "\<lambda>(k, v). enc k @ ''='' @ enc v"
  have pieces: "split_char CHR ''&'' (send_extra enc x) = (if x = [] then [[]] else map ?f x)"
  proof (cases "x = []")
    case False
    then have "map ?f x \<noteq> []" by simp
    moreover have "CHR ''&'' \<notin> set p" if "p \<in> set (map ?f x)" for p
      using that no by auto
    ultimately have "split_char CHR ''&'' (join_with ''&'' (map ?f x)) = map ?f x" by (rule split_join)
    with False show ?thesis by (simp add: send_extra_def)
  qed (simp add: send_extra_def join_with_def)
  have kept: "filter (\<lambda>p. p \<noteq> []) (if x = [] then [[]] else map ?f x) = map ?f x"
    by (auto simp: filter_id_conv)
  have pair: "extra_pair (enc k @ ''='' @ enc v) = (enc k, enc v)" for k v
  proof -
    have "split_once CHR ''='' (enc k @ ''='' @ enc v) = Some (enc k, enc v)"
      using no(2) by (simp add: split_once_Some)
    then show ?thesis by (simp add: extra_pair_def)
  qed
  have "extra_parse dec (send_extra enc x @ ''.json'')
      = map (\<lambda>p. map_prod dec dec (extra_pair (?f p))) x"
    unfolding extra_parse_def strip_json_suffix pieces kept by (simp add: o_def)
  also have "\<dots> = x"
    using undo by (intro map_idI) (auto simp: pair [simplified])
  finally show ?thesis .
qed

text \<open>C24: Catalogue arguments survive the path. Whatever keys and values a client sends, percent-encoded
  one by one, joined as a query string and closed with the suffix, the addon reads exactly those pairs in
  that order, also when a value contains an ampersand, an equals sign or the suffix itself.\<close>

theorem extras_round_trip:
  assumes codec: "codec_laws enc dec"
    and escaped: "p (CHR ''&'')" "p (CHR ''='')" "p (CHR ''%'')"
    and utf8: "\<forall>(k, v) \<in> set x. is_utf8 k \<and> is_utf8 v"
  shows "extra_parse dec (send_extra (enc p) x @ ''.json'') = x"
proof (rule extra_parse_send)
  show "CHR ''&'' \<notin> set (enc p s)" "CHR ''='' \<notin> set (enc p s)" for s
    using codecD(3) [OF codec] escaped by (auto simp: is_hex_digit_def is_ascii_digit_def)
  show "dec (enc p k) = k \<and> dec (enc p v) = v" if "(k, v) \<in> set x" for k v
    using codecD(1) [OF codec] escaped(3) utf8 that by auto
qed

theorem extras_round_trip_witness:
  "let x = [(''search'', ''Tom & Jerry=1.json''), (''skip'', ''100'')];
       p = (\<lambda>c. \<not> is_ascii_alphanumeric c)
   in extra_parse pct_decode (send_extra (pct_encode p) x @ ''.json'') = x \<and> extra_skip x = Some 100"
proof -
  let ?x = "[(''search'', ''Tom & Jerry=1.json''), (''skip'', ''100'')]"
  let ?p = "\<lambda>c. \<not> is_ascii_alphanumeric c"
  have "?p (CHR ''&'')" "?p (CHR ''='')" "?p (CHR ''%'')"
    by (simp_all add: is_ascii_alphanumeric_def is_ascii_alphabetic_def is_ascii_upper_def
        is_ascii_lower_def is_ascii_digit_def)
  moreover have "is_utf8 ''search''" "is_utf8 ''Tom & Jerry=1.json''" "is_utf8 ''skip''" "is_utf8 ''100''"
    by (rule is_utf8_ascii, simp)+
  then have "\<forall>(k, v) \<in> set ?x. is_utf8 k \<and> is_utf8 v" by (simp del: is_utf8.simps)
  ultimately have "extra_parse pct_decode (send_extra (pct_encode ?p) ?x @ ''.json'') = ?x"
    by (rule extras_round_trip [OF pct_laws])
  moreover have "extra_skip ?x = Some 100"
    by (simp add: extra_skip_def extra_get_def parse_unsigned_def strip_prefix_def starts_with_def
        is_ascii_digit_def digits_val_def digit_val_def)
  ultimately show ?thesis by (simp add: Let_def)
qed

end
