(* ===== verification/Playback.thy ===== *)
theory Playback
  imports Stremio Engine_Views
begin

text \<open>
  The adapters (\<open>adapters.rs\<close>, \<open>adapters/stremio.rs\<close>, \<open>adapters/dlna.rs\<close>) and the \<open>dlna\<close> crate: the
  library as a Stremio addon and as a folder a TV can browse, and the byte routes both hand out. The
  parameters are percent-encoding (\<open>enc\<close>, \<open>dec\<close>), \<open>str::to_lowercase\<close> (\<open>lower\<close>), which needs the Unicode
  tables, and the guess of a MIME type from a file name (\<open>mime\<close>). Serving the bytes of an opened
  stream, with ranges, is the work of \<open>axum-range\<close>.
\<close>

section \<open>Stream counters\<close>

record stream_counters =
  sc_range :: u64
  sc_full :: u64
  sc_bytes :: u64

datatype stream_kind = Range_Stream | Full_Stream

definition count_stream :: "stream_kind \<Rightarrow> u64 \<Rightarrow> stream_counters \<Rightarrow> stream_counters" where
  "count_stream kind bytes c =
     (case kind of
        Range_Stream \<Rightarrow> c\<lparr>sc_range := sc_range c + 1, sc_bytes := sc_bytes c + bytes\<rparr>
      | Full_Stream \<Rightarrow> c\<lparr>sc_full := sc_full c + 1, sc_bytes := sc_bytes c + bytes\<rparr>)"

definition track_stream :: "nat \<Rightarrow> string option \<Rightarrow> stream_counters \<Rightarrow> stream_counters" where
  "track_stream code content_length c =
     (let kind = (if code = 206 then Some Range_Stream else if code = 200 then Some Full_Stream else None);
          served = (case content_length of
                      None \<Rightarrow> 0
                    | Some s \<Rightarrow> if list_all visible_ascii s
                                then (case parse_unsigned 64 s of Some n \<Rightarrow> of_nat n | None \<Rightarrow> 0) else 0)
      in case kind of None \<Rightarrow> c | Some k \<Rightarrow> count_stream k served c)"

section \<open>The Stremio addon\<close>

definition catalog_id :: string where
  "catalog_id = ''local''"

definition addon_manifest :: "string \<Rightarrow> string \<Rightarrow> manifest" where
  "addon_manifest version name =
     (let movie = [Movie_Content]; tt = [''tt'']
      in \<lparr>mf_id = ''org.mridang.tornas'', mf_name = name,
          mf_description = ''Movies downloaded to this home media center'', mf_version = version,
          mf_resources = [Res_Name Catalog_Res, Res_Detailed Meta_Res movie tt,
                          Res_Detailed Stream_Res movie tt],
          mf_types = movie,
          mf_catalogs =
            [catalog_def_extra (extra_optional ''genre'')
              (catalog_def_extra (extra_optional ''skip'')
                (catalog_def_extra (extra_optional ''search'')
                  (catalog_def_new Movie_Content catalog_id ''Local Library'')))],
          mf_id_prefixes = tt,
          mf_logo = Some (''https://raw.githubusercontent.com/Stremio/stremio-art/main/''
                          @ ''originals/Stremio-logo-white.png'')\<rparr>)"

definition page_size :: nat where
  "page_size = 100"

text \<open>\<open>format!("{r:.1}")\<close>: the exact value of the float, rounded to tenths, ties to even.\<close>

definition show_tenths :: "rat \<Rightarrow> string" where
  "show_tenths r =
     (let (p, q) = quotient_of r; t = round_div (10 * nat \<bar>p\<bar>) (nat q)
      in (if r < 0 then ''-'' else []) @ show_nat (t div 10) @ ''.'' @ show_nat (t mod 10))"

definition show_year :: "32 word \<Rightarrow> string" where
  "show_year y = show_int (sint y)"

definition preview :: "media_entry \<Rightarrow> meta_preview" where
  "preview e =
     \<lparr>mp_id = me_id e, mp_content_type = Some Movie_Content, mp_name = me_title e,
      mp_poster = me_poster e, mp_poster_shape = Some Poster, mp_genres = me_genres e,
      mp_imdb_rating = map_option show_tenths (me_rating e),
      mp_release_info = map_option show_year (me_year e), mp_description = me_overview e, mp_links = []\<rparr>"

definition first_of_january :: "32 word \<Rightarrow> string" where
  "first_of_january y = show_year y @ ''-01-01T00:00:00.000Z''"

definition full_meta :: "media_entry \<Rightarrow> meta" where
  "full_meta e =
     default_meta\<lparr>mt_id := me_id e, mt_content_type := Some Movie_Content, mt_name := me_title e,
       mt_genres := me_genres e, mt_poster := me_poster e, mt_poster_shape := Some Poster,
       mt_background := me_backdrop e, mt_description := me_overview e,
       mt_release_info := map_option show_year (me_year e),
       mt_imdb_rating := map_option show_tenths (me_rating e),
       mt_released := map_option first_of_january (me_year e),
       mt_runtime := map_option (\<lambda>r. show_i64 r @ '' min'') (me_runtime_min e),
       mt_videos := [default_video\<lparr>vd_id := me_id e, vd_title := me_title e,
         vd_released := (case me_year e of Some y \<Rightarrow> first_of_january y | None \<Rightarrow> [])\<rparr>]\<rparr>"

definition stream_for ::
  "((char \<Rightarrow> bool) \<Rightarrow> string \<Rightarrow> string) \<Rightarrow> media_entry \<Rightarrow> string \<Rightarrow> stremio_stream" where
  "stream_for enc e base =
     (let mp4 = ends_with (to_ascii_lowercase (me_file_name e)) ''.mp4''
      in (stream_new (Source_Url (base @ video_path enc ''/video'' e)))
           \<lparr>sm_name := Some ''Tornas'',
            sm_description := Some (me_file_name e @ [CHR 0x0A] @ human_bytes (me_file_size e)),
            sm_behavior_hints :=
              \<lparr>sh_not_web_ready = (\<not> mp4), sh_binge_group = Some ''tornas'',
               sh_filename = Some (me_file_name e), sh_video_size = Some (me_file_size e)\<rparr>\<rparr>)"

definition matching_entries :: "(string \<Rightarrow> string) \<Rightarrow> media_catalog \<Rightarrow> extra \<Rightarrow> media_entry list" where
  "matching_entries lower mc x =
     (let es0 = library_entries mc;
          es1 = (case extra_search x of
                   Some q \<Rightarrow> filter (\<lambda>e. contains (lower (me_title e)) (lower q)) es0 | None \<Rightarrow> es0)
      in case extra_genre x of
           Some g \<Rightarrow> filter (\<lambda>e. list_ex (\<lambda>y. eq_ignore_ascii_case y g) (me_genres e)) es1
         | None \<Rightarrow> es1)"

definition addon_catalog ::
  "(string \<Rightarrow> string) \<Rightarrow> media_catalog \<Rightarrow> catalog_request \<Rightarrow> stremio_error + catalog_response reply" where
  "addon_catalog lower mc q =
     (if cq_id q \<noteq> catalog_id then Inl Stremio_Not_Found
      else
        let skip = (case extra_skip (cq_extra q) of Some n \<Rightarrow> n | None \<Rightarrow> 0);
            metas = map preview (take page_size (drop skip (matching_entries lower mc (cq_extra q))))
        in Inr (with_max_age 30 (reply_new \<lparr>cr_metas = metas, cr_metas_detailed = []\<rparr>)))"

definition addon_meta :: "media_catalog \<Rightarrow> item_request \<Rightarrow> stremio_error + meta_response reply" where
  "addon_meta mc q =
     Inr (with_max_age 30 (reply_new \<lparr>mr_meta = map_option full_meta (library_entry mc (iq_id q))\<rparr>))"

definition addon_stream ::
  "((char \<Rightarrow> bool) \<Rightarrow> string \<Rightarrow> string) \<Rightarrow> media_catalog \<Rightarrow> item_request
   \<Rightarrow> stremio_error + stream_response reply" where
  "addon_stream enc mc q =
     Inr (reply_new
       \<lparr>sr_streams = (case library_entry mc (iq_id q) of
                        Some e \<Rightarrow> [stream_for enc e (iq_base_url q)] | None \<Rightarrow> [])\<rparr>)"

definition library_handler ::
  "(string \<Rightarrow> string) \<Rightarrow> ((char \<Rightarrow> bool) \<Rightarrow> string \<Rightarrow> string) \<Rightarrow> media_catalog \<Rightarrow> stremio_handler" where
  "library_handler lower enc mc =
     \<lparr>sl_catalog = addon_catalog lower mc, sl_meta = addon_meta mc, sl_stream = addon_stream enc mc\<rparr>"

section \<open>The byte routes\<close>

definition video_id :: "(string \<Rightarrow> string) \<Rightarrow> string list \<Rightarrow> string \<Rightarrow> string option" where
  "video_id dec prefix path =
     Option.bind (path_segments path) (\<lambda>ss.
       let ps = map Lit prefix @ [Par ''imdb_id'']
       in map_option (\<lambda>params. dec (snd (hd params)))
            (case match_route (ps @ [Par ''filename'']) ss of
               Some params \<Rightarrow> Some params | None \<Rightarrow> match_route ps ss))"

record video_answer =
  va_len :: u64
  va_content_type :: "string option"
  va_headers :: "(string \<times> string) list"

definition stremio_video_route ::
  "(string \<Rightarrow> string option) \<Rightarrow> (string \<Rightarrow> string) \<Rightarrow> 's world \<Rightarrow> 's swarm \<Rightarrow> string \<Rightarrow> 's engine
   \<Rightarrow> (video_answer result \<times> 's engine) option" where
  "stremio_video_route mime dec W S path e =
     map_option (\<lambda>i.
       case open_stream W S i e of
         (Inl err, e1) \<Rightarrow> (Inl err, e1)
       | (Inr (len, name), e1) \<Rightarrow>
           (Inr \<lparr>va_len = len, va_content_type = mime name, va_headers = []\<rparr>, e1))
       (video_id dec [''video''] path)"

definition dlna_video_route ::
  "(string \<Rightarrow> string option) \<Rightarrow> (string \<Rightarrow> string) \<Rightarrow> 's world \<Rightarrow> 's swarm \<Rightarrow> string
   \<Rightarrow> (string \<Rightarrow> string option) \<Rightarrow> 's engine \<Rightarrow> (video_answer result \<times> 's engine) option" where
  "dlna_video_route mime dec W S path header e =
     map_option (\<lambda>i.
       case open_stream W S i e of
         (Inl err, e1) \<Rightarrow> (Inl err, e1)
       | (Inr (len, name), e1) \<Rightarrow>
           (Inr \<lparr>va_len = len, va_content_type = mime name,
                 va_headers =
                   (if header ''getcontentFeatures.dlna.org'' = Some ''1''
                    then [(''contentFeatures.dlna.org'', ''DLNA.ORG_OP=01'')] else [])
                   @ (if header ''transferMode.dlna.org'' \<noteq> None
                      then [(''transferMode.dlna.org'', ''Streaming'')] else [])\<rparr>, e1))
       (video_id dec [''dlna'', ''video''] path)"

section \<open>The DLNA folder\<close>

record media_item =
  mi_id :: string
  mi_title :: string
  mi_path :: string
  mi_size_bytes :: u64
  mi_mime :: "string option"

definition dlna_items ::
  "(string \<Rightarrow> string option) \<Rightarrow> ((char \<Rightarrow> bool) \<Rightarrow> string \<Rightarrow> string) \<Rightarrow> media_catalog \<Rightarrow> media_item list" where
  "dlna_items mime enc mc =
     map (\<lambda>e. \<lparr>mi_id = me_id e, mi_title = display_title e, mi_path = video_path enc ''/dlna/video'' e,
               mi_size_bytes = me_file_size e, mi_mime = mime (me_file_name e)\<rparr>) (library_entries mc)"

record folder_item =
  fi_id :: nat
  fi_parent_id :: nat
  fi_title :: string
  fi_mime_type :: "string option"
  fi_url :: string
  fi_size :: u64

datatype dlna_object =
    Folder nat "nat option" nat string
  | File_Item folder_item

definition root_id :: nat where
  "root_id = 0"

definition root_folder :: "string \<Rightarrow> media_item list \<Rightarrow> dlna_object" where
  "root_folder name items = Folder root_id None (length items) name"

definition folder_entries :: "string \<Rightarrow> media_item list \<Rightarrow> (nat \<times> dlna_object) list" where
  "folder_entries http_host items =
     map (\<lambda>(i, m). (i + 1, File_Item \<lparr>fi_id = i + 1, fi_parent_id = root_id, fi_title = mi_title m,
             fi_mime_type = mi_mime m, fi_url = ''http://'' @ http_host @ mi_path m,
             fi_size = mi_size_bytes m\<rparr>))
       (zip [0..<length items] items)"

definition browse_direct_children :: "string \<Rightarrow> media_item list \<Rightarrow> nat \<Rightarrow> dlna_object list" where
  "browse_direct_children http_host items parent =
     (if parent \<noteq> root_id then [] else map snd (folder_entries http_host items))"

definition browse_metadata :: "string \<Rightarrow> string \<Rightarrow> media_item list \<Rightarrow> nat \<Rightarrow> dlna_object list" where
  "browse_metadata name http_host items object =
     (if object = root_id then [root_folder name items]
      else map snd (filter (\<lambda>(i, x). i = object) (folder_entries http_host items)))"

section \<open>Pages\<close>

definition page_metas :: "stremio_error + catalog_response reply \<Rightarrow> meta_preview list" where
  "page_metas r = (case r of Inr rp \<Rightarrow> cr_metas (rp_body rp) | Inl e \<Rightarrow> [])"

lemma addon_catalog_skip:
  assumes "cq_id q = catalog_id" and "extra_skip (cq_extra q) = Some n"
  shows "page_metas (addon_catalog lower mc q)
    = map preview (take page_size (drop n (matching_entries lower mc (cq_extra q))))"
  using assms by (simp add: addon_catalog_def page_metas_def Let_def with_max_age_def reply_new_def)

lemma concat_pages:
  "0 < k \<Longrightarrow> length xs \<le> k * n \<Longrightarrow> concat (map (\<lambda>i. take k (drop (i * k) xs)) [0..<n]) = xs"
proof (induction n arbitrary: xs)
  case (Suc n)
  have "concat (map (\<lambda>i. take k (drop (i * k) (drop k xs))) [0..<n]) = drop k xs"
    using Suc.prems by (intro Suc.IH) auto
  moreover have "[0..<Suc n] = 0 # map Suc [0..<n]" by (simp add: map_Suc_upt upt_conv_Cons)
  ultimately have "concat (map (\<lambda>i. take k (drop (i * k) xs)) [0..<Suc n]) = take k xs @ drop k xs"
    by (simp add: o_def add.commute del: upt_Suc append_take_drop_id)
  then show ?case by simp
qed simp

lemma extra_get_other [simp]:
  "k \<noteq> ''skip'' \<Longrightarrow> extra_get k ((''skip'', v) # x) = extra_get k x"
  by (auto simp: extra_get_def)

lemma matching_ignores_skip: "matching_entries lower mc ((''skip'', v) # x) = matching_entries lower mc x"
  by (simp add: matching_entries_def extra_search_def extra_genre_def)

lemma extra_skip_shown: "n < 2 ^ 64 \<Longrightarrow> extra_skip ((''skip'', show_nat n) # x) = Some n"
  by (simp add: extra_skip_def extra_get_def parse_show_nat)

text \<open>C23: Paging through the catalogue shows everything once. Asking for skip 0, 100, 200 and so on, with any
  search and genre, gives pages that put together are exactly the matching finished movies in the order of
  their titles; a page is full until the last one, so a page shorter than a hundred is the end.\<close>

theorem pages_cover_catalogue:
  assumes "length (matching_entries lower mc x) \<le> page_size * n" and "page_size * n < 2 ^ 64"
  shows "let request = (\<lambda>i. \<lparr>cq_base_url = base, cq_content_type = Movie_Content, cq_id = catalog_id,
                           cq_extra = (''skip'', show_nat (i * page_size)) # x\<rparr>);
             page = (\<lambda>i. page_metas (addon_catalog lower mc (request i)))
         in concat (map page [0..<n]) = map preview (matching_entries lower mc x)
            \<and> (\<forall>i < n. length (page i) < page_size \<longrightarrow>
                 length (matching_entries lower mc x) \<le> i * page_size + length (page i))"
proof -
  let ?all = "matching_entries lower mc x"
  define page where "page i = page_metas (addon_catalog lower mc
    \<lparr>cq_base_url = base, cq_content_type = Movie_Content, cq_id = catalog_id,
     cq_extra = (''skip'', show_nat (i * page_size)) # x\<rparr>)" for i
  have page: "page i = map preview (take page_size (drop (i * page_size) ?all))" if "i < n" for i
  proof -
    have "i * page_size \<le> page_size * n" using that by simp
    then have "i * page_size < 2 ^ 64" using assms(2) by linarith
    then show ?thesis
      unfolding page_def by (subst addon_catalog_skip) (simp_all add: extra_skip_shown matching_ignores_skip)
  qed
  have "concat (map page [0..<n]) = concat (map (\<lambda>i. map preview (take page_size (drop (i * page_size) ?all))) [0..<n])"
    using page by (intro arg_cong [where f = concat] map_cong) auto
  also have "\<dots> = map preview (concat (map (\<lambda>i. take page_size (drop (i * page_size) ?all)) [0..<n]))"
    by (simp add: map_concat o_def)
  also have "\<dots> = map preview ?all"
    using concat_pages [of page_size ?all n] assms(1) by (simp add: page_size_def)
  finally have "concat (map page [0..<n]) = map preview ?all" .
  moreover have "\<forall>i < n. length (page i) < page_size \<longrightarrow> length ?all \<le> i * page_size + length (page i)"
    by (auto simp: page)
  ultimately show ?thesis unfolding page_def by (simp add: Let_def)
qed

theorem pages_cover_catalogue_witness:
  "map mp_id (page_metas (addon_catalog id example_library
     \<lparr>cq_base_url = [], cq_content_type = Movie_Content, cq_id = catalog_id,
      cq_extra = [(''skip'', ''0''), (''search'', ''tt'')]\<rparr>)) = [''tt1'']"
proof -
  let ?x = "[(''search'', ''tt'')]"
  have found: "map me_id (matching_entries id example_library ?x) = [''tt1'']" by code_simp
  then have "length (matching_entries id example_library ?x) \<le> page_size * 1"
    by (metis One_nat_def length_map list.size(3,4) mult_1_right one_le_numeral page_size_def plus_1_eq_Suc add.commute)
  from pages_cover_catalogue [OF this, of "[]"]
  have "page_metas (addon_catalog id example_library
     \<lparr>cq_base_url = [], cq_content_type = Movie_Content, cq_id = catalog_id,
      cq_extra = (''skip'', show_nat 0) # ?x\<rparr>) = map preview (matching_entries id example_library ?x)"
    by (simp add: Let_def page_size_def)
  moreover have "mp_id (preview m) = me_id m" for m by (simp add: preview_def)
  moreover have "show_nat 0 = ''0''" by code_simp
  ultimately show ?thesis using found by (simp add: o_def)
qed

section \<open>Links that play\<close>

lemma alphanumeric_not:
  assumes "list_all is_ascii_alphanumeric i" and "\<not> is_ascii_alphanumeric c" shows "c \<notin> set i"
  using assms by (auto simp: list_all_iff)

lemma ascii_alphanumeric_char: "is_ascii_alphanumeric c \<Longrightarrow> (of_char c :: nat) < 0x80"
  by (auto simp: is_ascii_alphanumeric_def is_ascii_alphabetic_def is_ascii_upper_def is_ascii_lower_def
      is_ascii_digit_def)

lemma alphanumeric_utf8: "list_all is_ascii_alphanumeric i \<Longrightarrow> is_utf8 i"
  by (rule is_utf8_ascii) (auto simp: list_all_iff ascii_alphanumeric_char)

lemma special_chars [simp]:
  "\<not> is_ascii_alphanumeric CHR ''/''" "\<not> is_ascii_alphanumeric CHR ''%''"
  "\<not> is_ascii_alphanumeric CHR ''&''" "\<not> is_ascii_alphanumeric CHR ''=''"
  "segment_escaped CHR ''/''" "segment_escaped CHR ''%''"
  by (simp_all add: is_ascii_alphanumeric_def is_ascii_alphabetic_def is_ascii_upper_def is_ascii_lower_def
      is_ascii_digit_def segment_escaped_def)

lemma video_id_path:
  assumes codec: "codec_laws enc dec" and i: "i \<noteq> []" "list_all is_ascii_alphanumeric i"
    and e: "me_id e = i" "me_file_name e \<noteq> []"
  shows "video_id dec [''video''] (video_path enc ''/video'' e) = Some i"
    and "video_id dec [''dlna'', ''video''] (video_path enc ''/dlna/video'' e) = Some i"
proof -
  let ?f = "enc segment_escaped (me_file_name e)"
  have slash: "CHR ''/'' \<notin> set i" "CHR ''%'' \<notin> set i" using alphanumeric_not [OF i(2)] by simp_all
  have dec_i: "dec i = i" using codecD(2) [OF codec] alphanumeric_utf8 [OF i(2)] slash by blast
  have f: "CHR ''/'' \<notin> set ?f" "?f \<noteq> []"
    using codecD(4) [OF codec] codecD(5) [OF codec] e by simp_all
  have split: "split_char CHR ''/'' (i @ CHR ''/'' # ?f) = [i, ?f]"
    using f slash by (simp add: split_char_append split_char_whole)
  show "video_id dec [''video''] (video_path enc ''/video'' e) = Some i"
    using i e f dec_i split
    by (simp add: video_id_def video_path_def path_segments_def strip_prefix_def starts_with_def)
  show "video_id dec [''dlna'', ''video''] (video_path enc ''/dlna/video'' e) = Some i"
    using i e f dec_i split
    by (simp add: video_id_def video_path_def path_segments_def strip_prefix_def starts_with_def)
qed

lemma stream_request_answer:
  assumes codec: "codec_laws enc dec" and i: "list_all is_ascii_alphanumeric i"
    and entry: "library_entry (en_library e) i = Some m"
  shows "stremio_router dec mf (library_handler lower enc (en_library e)) public_url
      (''/stream/movie/'' @ i @ ''.json'') q
    = Some (json_answer (json_stream_response
        \<lparr>sr_streams = [stream_for enc m (request_base public_url q)]\<rparr>) None)"
proof -
  let ?x = "i @ ''.json''"
  have "list_all (\<lambda>c. (of_char c :: nat) < 0x80) ?x"
    using i by (auto simp: list_all_iff ascii_alphanumeric_char)
  then have "is_utf8 ?x" by (rule is_utf8_ascii)
  moreover have x: "CHR ''%'' \<notin> set ?x" "CHR ''/'' \<notin> set ?x" using alphanumeric_not [OF i] by simp_all
  ultimately have dec_x: "dec ?x = ?x" using codecD(2) [OF codec] by blast
  have "is_utf8 ''movie''" by (rule is_utf8_ascii) simp
  then have dec_movie: "dec ''movie'' = ''movie''" by (rule codecD(2) [OF codec]) simp
  have segs: "path_segments (''/stream/movie/'' @ ?x) = Some [''stream'', ''movie'', ?x]"
    using split_char_whole [OF x(2)]
    by (simp add: path_segments_def strip_prefix_def starts_with_def)
  have params: "content_type_and_id dec [(''content_type'', ''movie''), (''id'', ?x)] = Some (Movie_Content, i)"
    using dec_x dec_movie strip_json_suffix [of i]
    by (simp add: content_type_and_id_def raw_param_def content_type_parse_def)
  have "stremio_router dec mf (library_handler lower enc (en_library e)) public_url
      (''/stream/movie/'' @ ?x) q
    = Some (stream_route dec (library_handler lower enc (en_library e)) public_url
        (q\<lparr>xh_params := [(''content_type'', ''movie''), (''id'', ?x)]\<rparr>))"
    unfolding stremio_router_def segs by (simp add: Let_def)
  also have "\<dots> = Some (json_answer (json_stream_response
        \<lparr>sr_streams = [stream_for enc m (request_base public_url q)]\<rparr>) None)"
    using params entry
    by (simp add: stream_route_def reply_answer_def library_handler_def addon_stream_def reply_new_def
        cache_control_def request_base_def)
  finally show ?thesis .
qed

lemma video_route_opens:
  assumes "video_id dec [''video''] path = Some i" and "torrent_for_movie i (store e) = Some t"
    and "handle_for W e (t_info_hash t) = Some h"
    and "sw_stream_len S (en_session e) h (t_video_file_idx t) = Inr len"
  shows "stremio_video_route mime dec W S path e =
    Some (Inr \<lparr>va_len = len, va_content_type = mime (t_video_file_name t), va_headers = []\<rparr>,
          touch_movie W i e)"
  using assms
  by (simp add: stremio_video_route_def open_stream_def stream_target_def touch_movie_def)

text \<open>C22: What Stremio is offered plays. For every finished movie, the stream request for its id answers one
  stream, whose address is the base address followed by a path that the byte route of the program
  takes back to this movie, whatever characters the file name has; when the torrent is loaded and its
  file opens, the route serves that very file and marks the movie as used.\<close>

theorem offered_streams_play:
  assumes "codec_laws enc dec" and "i \<noteq> []" and "list_all is_ascii_alphanumeric i"
    and "library_entry (en_library e) i = Some m" and "me_file_name m \<noteq> []"
  shows "\<exists>s path t. stremio_router dec mf (library_handler lower enc (en_library e)) public_url
      (''/stream/movie/'' @ i @ ''.json'') q
        = Some (json_answer (json_stream_response \<lparr>sr_streams = [s]\<rparr>) None)
    \<and> sm_source s = Source_Url (request_base public_url q @ path)
    \<and> torrent_for_movie i (store e) = Some t \<and> t_completed_at t \<noteq> None
    \<and> sh_filename (sm_behavior_hints s) = Some (t_video_file_name t)
    \<and> (\<forall>h len. handle_for W e (t_info_hash t) = Some h \<longrightarrow>
         sw_stream_len S (en_session e) h (t_video_file_idx t) = Inr len \<longrightarrow>
         stremio_video_route mime dec W S path e =
           Some (Inr \<lparr>va_len = len, va_content_type = mime (t_video_file_name t), va_headers = []\<rparr>,
                 touch_movie W i e))"
proof -
  obtain t mv where t: "torrent_for_movie i (store e) = Some t" "t_completed_at t \<noteq> None"
      "get_movie i (store e) = Some mv" and m: "m = media_entry_new mv t"
    using assms(4) by (auto simp: library_entry_Some)
  have id: "me_id m = i" using m get_movie_id [OF t(3)] by simp
  note answer = stream_request_answer [OF assms(1,3,4), of mf lower public_url q]
  note path = video_id_path(1) [OF assms(1,2,3) id assms(5)]
  let ?s = "stream_for enc m (request_base public_url q)"
  have "sm_source ?s = Source_Url (request_base public_url q @ video_path enc ''/video'' m)"
    and "sh_filename (sm_behavior_hints ?s) = Some (t_video_file_name t)"
    by (simp_all add: stream_for_def stream_new_def Let_def m media_entry_new_def)
  with answer t(1,2) video_route_opens [OF path t(1)] show ?thesis by blast
qed

lemma example_stream:
  obtains m t h where "library_entry (en_library example_engine) ''tt1'' = Some m"
    "me_file_name m \<noteq> []" "torrent_for_movie ''tt1'' (store example_engine) = Some t"
    "handle_for (example_world 500) example_engine (t_info_hash t) = Some h"
proof -
  have "map_option (\<lambda>m. me_file_name m \<noteq> []) (library_entry (en_library example_engine) ''tt1'') = Some True"
    and "is_ok (fst (stream_target (example_world 500) ''tt1'' example_engine))"
    by code_simp+
  then show thesis using that by (auto simp: stream_target_def split: option.splits)
qed

theorem offered_streams_play_witness:
  "\<exists>s path. stremio_router pct_decode (addon_manifest ''1'' ''T'')
      (library_handler id pct_encode (en_library example_engine)) (Some ''http://box/'')
      (''/stream/movie/tt1.json'') \<lparr>xh_params = [], xh_host = None, xh_proto = []\<rparr>
        = Some (json_answer (json_stream_response \<lparr>sr_streams = [s]\<rparr>) None)
    \<and> sm_source s = Source_Url (''http://box'' @ path)
    \<and> map_option (\<lambda>r. is_ok (fst r)) (stremio_video_route (\<lambda>n. None) pct_decode (example_world 500)
         example_swarm path example_engine) = Some True"
proof -
  obtain m t h where ex: "library_entry (en_library example_engine) ''tt1'' = Some m"
    "me_file_name m \<noteq> []" "torrent_for_movie ''tt1'' (store example_engine) = Some t"
    "handle_for (example_world 500) example_engine (t_info_hash t) = Some h"
    by (rule example_stream)
  have alnum: "list_all is_ascii_alphanumeric ''tt1''" by code_simp
  have base: "request_base (Some ''http://box/'') \<lparr>xh_params = [], xh_host = None, xh_proto = []\<rparr> = ''http://box''"
    by (simp add: request_base_def base_url_def trim_end_char_def)
  have len: "sw_stream_len example_swarm s h i = Inr 10" for s i by (simp add: example_swarm_def)
  obtain s path t' where "stremio_router pct_decode (addon_manifest ''1'' ''T'')
      (library_handler id pct_encode (en_library example_engine)) (Some ''http://box/'')
      (''/stream/movie/'' @ ''tt1'' @ ''.json'') \<lparr>xh_params = [], xh_host = None, xh_proto = []\<rparr>
        = Some (json_answer (json_stream_response \<lparr>sr_streams = [s]\<rparr>) None)"
    and "sm_source s = Source_Url (''http://box'' @ path)" and "torrent_for_movie ''tt1'' (store example_engine) = Some t'"
    and "\<forall>h len. handle_for (example_world 500) example_engine (t_info_hash t') = Some h \<longrightarrow>
         sw_stream_len example_swarm (en_session example_engine) h (t_video_file_idx t') = Inr len \<longrightarrow>
         stremio_video_route (\<lambda>n. None) pct_decode (example_world 500) example_swarm path example_engine =
           Some (Inr \<lparr>va_len = len, va_content_type = None, va_headers = []\<rparr>,
                 touch_movie (example_world 500) ''tt1'' example_engine)"
    using offered_streams_play [OF pct_laws _ alnum ex(1,2), of "addon_manifest ''1'' ''T''" id "Some ''http://box/''"
        "\<lparr>xh_params = [], xh_host = None, xh_proto = []\<rparr>" "example_world 500" example_swarm "\<lambda>n. None"]
    unfolding base by blast
  with ex(3,4) len show ?thesis by fastforce
qed

section \<open>What a TV browses\<close>

lemma filter_distinct_key:
  "distinct (map fst ps) \<Longrightarrow> p \<in> set ps \<Longrightarrow> filter (\<lambda>q. fst q = fst p) ps = [p]"
proof (induction ps)
  case (Cons q ps)
  show ?case
  proof (cases "p = q")
    case True
    with Cons.prems have "\<forall>r \<in> set ps. fst r \<noteq> fst p" by (auto simp: image_iff)
    then have "filter (\<lambda>r. fst r = fst p) ps = []" by (simp add: filter_empty_conv)
    with True show ?thesis by simp
  next
    case False
    with Cons.prems have "p \<in> set ps" and "fst q \<noteq> fst p" by auto
    with Cons show ?thesis by simp
  qed
qed simp

lemma folder_entries_ids: "map fst (folder_entries host items) = map Suc [0..<length items]"
  by (rule nth_equalityI) (simp_all add: folder_entries_def case_prod_beta')

lemma folder_entry_nth:
  assumes "n < length items"
  shows "folder_entries host items ! n = (Suc n, File_Item \<lparr>fi_id = Suc n, fi_parent_id = root_id,
    fi_title = mi_title (items ! n), fi_mime_type = mi_mime (items ! n),
    fi_url = ''http://'' @ host @ mi_path (items ! n), fi_size = mi_size_bytes (items ! n)\<rparr>)"
  using assms by (simp add: folder_entries_def)

text \<open>C25: A television sees the same library. The root folder counts its children; the child at each position
  has the position plus one as its id, and asking for that id returns exactly that child; its address
  leads, through the byte route, to the movie at that position of the library; no other id answers.\<close>

theorem browsing_agrees:
  assumes "codec_laws enc dec" and "items = dlna_items mime enc mc"
    and "n < length (library_entries mc)" and "m = library_entries mc ! n"
    and "me_id m \<noteq> []" and "list_all is_ascii_alphanumeric (me_id m)" and "me_file_name m \<noteq> []"
  shows "\<exists>x path. browse_direct_children host items root_id ! n = File_Item x
    \<and> browse_metadata name host items (n + 1) = [File_Item x] \<and> fi_id x = n + 1
    \<and> fi_title x = display_title m \<and> fi_url x = ''http://'' @ host @ path
    \<and> video_id dec [''dlna'', ''video''] path = Some (me_id m)
    \<and> browse_metadata name host items root_id = [Folder root_id None (length (library_entries mc)) name]
    \<and> (\<forall>k > length (library_entries mc). browse_metadata name host items k = [])"
proof -
  let ?es = "folder_entries host items"
  have n: "n < length items" and item: "items ! n = \<lparr>mi_id = me_id m, mi_title = display_title m,
      mi_path = video_path enc ''/dlna/video'' m, mi_size_bytes = me_file_size m, mi_mime = mime (me_file_name m)\<rparr>"
    using assms(2,3,4) by (simp_all add: dlna_items_def)
  have len: "length ?es = length items" by (simp add: folder_entries_def)
  have "distinct (map fst ?es)" by (simp only: folder_entries_ids) (simp add: distinct_map)
  then have "filter (\<lambda>q. fst q = fst (?es ! n)) ?es = [?es ! n]"
    by (rule filter_distinct_key) (simp add: len n)
  then have found: "filter (\<lambda>(i, x). i = n + 1) ?es = [?es ! n]"
    by (simp add: folder_entry_nth [OF n] case_prod_beta')
  have none: "filter (\<lambda>(i, x). i = k) ?es = []" if "length items < k" for k
  proof -
    have "fst ` set ?es = set (map Suc [0..<length items])" by (metis folder_entries_ids list.set_map)
    then have "k \<notin> fst ` set ?es" using that by auto
    then show ?thesis by (force simp: filter_empty_conv)
  qed
  have "video_id dec [''dlna'', ''video''] (video_path enc ''/dlna/video'' m) = Some (me_id m)"
    by (rule video_id_path(2) [OF assms(1,5,6) refl assms(7)])
  moreover have "length items = length (library_entries mc)" by (simp add: assms(2) dlna_items_def)
  ultimately show ?thesis
    using found none len n item
    by (simp add: browse_direct_children_def browse_metadata_def root_id_def root_folder_def folder_entry_nth)
qed

theorem browsing_agrees_witness:
  "\<exists>x. browse_metadata ''Movies'' ''box'' (dlna_items (\<lambda>n. None) pct_encode example_library) 1 = [File_Item x]
     \<and> fi_title x = display_title (library_entries example_library ! 0)"
proof -
  let ?m = "library_entries example_library ! 0"
  have "0 < length (library_entries example_library)" and "me_id ?m \<noteq> []"
    and "list_all is_ascii_alphanumeric (me_id ?m)" and "me_file_name ?m \<noteq> []"
    by code_simp+
  from browsing_agrees [OF pct_laws refl this(1) refl this(2-4), of "''box''" "\<lambda>n. None" "''Movies''"]
  show ?thesis by auto
qed

end
