(* ===== verification/Http_Api.thy ===== *)
theory Http_Api
  imports Http_Gates Engine_Add Playback
begin

text \<open>
  The JSON API, \<open>http/api.rs\<close> and the route table of \<open>http.rs\<close>: what each handler checks, which
  operation of the engine it calls, and with which status it answers. Decoding bodies and queries is
  the work of \<open>serde\<close> and \<open>axum\<close>, and of \<open>humantime\<close> for durations; they are the record parameter
  \<open>codec\<close>. A reply is the value that is serialised. A handler that panics answers \<open>None\<close>.
\<close>

section \<open>Requests and replies\<close>

record pause_request =
  pq_duration :: "json option"
  pq_indefinite :: bool

type_synonym patch = "(string \<times> json) list"

record codec =
  ac_pause :: "string \<Rightarrow> string + pause_request"
  ac_add :: "http_request \<Rightarrow> json_rejection + add_movie_request"
  ac_patch :: "http_request \<Rightarrow> json_rejection + patch"
  ac_limit :: "string \<Rightarrow> string + nat option"
  ac_state :: "string \<Rightarrow> string + string option"
  ac_duration :: "string \<Rightarrow> string + duration"
  ac_metrics :: "string result"
  ac_decode :: "string \<Rightarrow> string"

record config_view =
  cv_config_file :: "string option"
  cv_trackers :: trackers_config
  cv_network :: network_config
  cv_disk_budget :: u64
  cv_min_free :: u64
  cv_stream_grace_secs :: u64
  cv_keep_seeding :: bool
  cv_http_listen :: "ip_addr \<times> u16"
  cv_public_url :: "string option"
  cv_dlna :: bool
  cv_dht :: bool
  cv_tmdb :: bool
  cv_ratelimit_download :: "u32 option"
  cv_ratelimit_upload :: "u32 option"
  cv_max_active_downloads :: "u32 option"
  cv_require_mount :: bool
  cv_utp :: bool
  cv_bind_device :: "string option"
  cv_announce_port :: "u16 option"
  cv_dht_port :: "u16 option"
  cv_dht_bootstrap :: "string list"
  cv_local_discovery :: bool
  cv_peer_limit :: u32
  cv_concurrent_checks :: u32

datatype api_reply =
    Page string
  | Healthy
  | Unhealthy string
  | Metrics_Text string
  | Api_Root
  | Pause_Reply pause_report
  | Resumed_Reply pause_report nat
  | Trackers_Reply bool "string list" tracker_state
  | Refreshed_Reply bool nat nat
  | Config_Reply config_view
  | Status_Reply status_view
  | Budget_Reply budget_view
  | Session_Reply session_report
  | Events_Reply "event list"
  | Movies_Reply "movie_view list"
  | Movie_Reply movie_view
  | Created_Reply string movie_view
  | No_Content
  | Bad_Query string

type_synonym 's api_outcome = "(api_error + api_reply) option \<times> 's engine"

definition answer :: "api_error + api_reply \<Rightarrow> 's engine \<Rightarrow> 's api_outcome" where
  "answer r e = (Some r, e)"

text \<open>The \<open>?\<close> operator on an engine result: the error turned into an API error.\<close>

definition lift_fault :: "('a \<Rightarrow> api_reply) \<Rightarrow> 'a result \<Rightarrow> api_error + api_reply" where
  "lift_fault f r = (case r of Inr a \<Rightarrow> Inr (f a) | Inl err \<Rightarrow> Inl (api_error_from err))"

definition invalid :: "string \<Rightarrow> api_error" where
  "invalid msg = api_error_new 422 ''invalid'' msg"

section \<open>Handlers that read\<close>

definition healthz :: "'s world \<Rightarrow> 's engine \<Rightarrow> api_reply" where
  "healthz W e = (case probe W e of Inr _ \<Rightarrow> Healthy | Inl err \<Rightarrow> Unhealthy (''unhealthy: '' @ error_text err))"

definition prometheus :: "codec \<Rightarrow> api_error + api_reply" where
  "prometheus C = lift_fault Metrics_Text (ac_metrics C)"

definition api_pause_get :: "'s world \<Rightarrow> 's engine \<Rightarrow> api_reply" where
  "api_pause_get W e = Pause_Reply (pause_view W e)"

definition api_trackers :: "'s world \<Rightarrow> 's engine \<Rightarrow> api_reply" where
  "api_trackers W e =
     Trackers_Reply (tc_enabled (tf_config (en_trackers e))) (current_trackers W e) (tf_state (en_trackers e))"

definition api_config :: "'s world \<Rightarrow> 's engine \<Rightarrow> api_reply" where
  "api_config W e =
     (let o' = en_opts e
      in Config_Reply
        \<lparr>cv_config_file = so_config o', cv_trackers = tf_config (en_trackers e),
         cv_network = fc_network (en_file_config e), cv_disk_budget = so_disk_budget o',
         cv_min_free = so_min_free o', cv_stream_grace_secs = d_secs (so_stream_grace o'),
         cv_keep_seeding = so_keep_seeding o', cv_http_listen = so_http_listen o',
         cv_public_url = so_public_url o', cv_dlna = (\<not> so_disable_dlna o'), cv_dht = (\<not> so_disable_dht o'),
         cv_tmdb = (wd_tmdb W \<noteq> None), cv_ratelimit_download = so_ratelimit_download o',
         cv_ratelimit_upload = so_ratelimit_upload o', cv_max_active_downloads = so_max_active_downloads o',
         cv_require_mount = so_require_mount o', cv_utp = so_utp o', cv_bind_device = so_bind_device o',
         cv_announce_port = so_announce_port o', cv_dht_port = so_dht_port o',
         cv_dht_bootstrap = so_dht_bootstrap o', cv_local_discovery = (\<not> so_disable_lsd o'),
         cv_peer_limit = so_peer_limit o', cv_concurrent_checks = so_concurrent_checks o'\<rparr>)"

definition api_status :: "'s world \<Rightarrow> 's swarm \<Rightarrow> 's engine \<Rightarrow> api_error + api_reply" where
  "api_status W S e = lift_fault Status_Reply (status W S e)"

definition api_budget :: "'s world \<Rightarrow> 's swarm \<Rightarrow> 's engine \<Rightarrow> api_error + api_reply" where
  "api_budget W S e = lift_fault (\<lambda>v. Budget_Reply (vw_budget v)) (status W S e)"

definition api_session :: "'s world \<Rightarrow> 's swarm \<Rightarrow> 's engine \<Rightarrow> api_error + api_reply" where
  "api_session W S e = lift_fault (\<lambda>v. Session_Reply (vw_session v)) (status W S e)"

definition default_limit :: nat where
  "default_limit = 50"

definition api_events :: "codec \<Rightarrow> string \<Rightarrow> 's engine \<Rightarrow> api_reply" where
  "api_events C query e =
     (case ac_limit C query of
        Inl msg \<Rightarrow> Bad_Query msg
      | Inr l \<Rightarrow>
          (let wanted = (case l of Some n \<Rightarrow> n | None \<Rightarrow> default_limit)
           in Events_Reply (recent_events (min wanted 500) (store e))))"

definition api_list :: "codec \<Rightarrow> 's world \<Rightarrow> string \<Rightarrow> 's engine \<Rightarrow> api_reply" where
  "api_list C W query e =
     (case ac_state C query of
        Inl msg \<Rightarrow> Bad_Query msg
      | Inr st \<Rightarrow>
          (let movies = list_movie_views W e
           in Movies_Reply (case st of Some s \<Rightarrow> filter (\<lambda>m. mv_state m = s) movies | None \<Rightarrow> movies)))"

definition api_get :: "'s world \<Rightarrow> string \<Rightarrow> 's engine \<Rightarrow> api_error + api_reply" where
  "api_get W i e =
     (case get_movie_view W e i of Some v \<Rightarrow> Inr (Movie_Reply v) | None \<Rightarrow> Inl (api_not_found ''no such movie''))"

section \<open>Handlers that write\<close>

definition ascii_whitespace :: "char \<Rightarrow> bool" where
  "ascii_whitespace c \<longleftrightarrow> c \<in> {CHR 0x20, CHR 0x09, CHR 0x0A, CHR 0x0C, CHR 0x0D}"

definition pause_duration :: "codec \<Rightarrow> json option \<Rightarrow> api_error + duration option" where
  "pause_duration C d =
     (case d of
        None \<Rightarrow> Inr None
      | Some JNull \<Rightarrow> Inr None
      | Some (JNumber n) \<Rightarrow>
          (case as_u64 n of
             Some s \<Rightarrow> Inr (Some (from_secs s))
           | None \<Rightarrow> Inl (invalid ''duration must be a positive number of seconds''))
      | Some (JString s) \<Rightarrow>
          (case ac_duration C s of
             Inr dur \<Rightarrow> Inr (Some dur) | Inl err \<Rightarrow> Inl (invalid (''duration: '' @ err)))
      | Some _ \<Rightarrow> Inl (invalid (''duration must be seconds or a string like '' @ [CHR 0x22] @ ''3h'' @ [CHR 0x22])))"

definition api_pause_put :: "codec \<Rightarrow> 's world \<Rightarrow> string \<Rightarrow> 's engine \<Rightarrow> 's api_outcome" where
  "api_pause_put C W body e =
     (case (if list_all ascii_whitespace body then Inr \<lparr>pq_duration = None, pq_indefinite = False\<rparr>
            else ac_pause C body) of
        Inl err \<Rightarrow> answer (Inl (invalid err)) e
      | Inr req \<Rightarrow>
          (case pause_duration C (pq_duration req) of
             Inl err \<Rightarrow> answer (Inl err) e
           | Inr d \<Rightarrow>
               (let (r, e1) = pause_all W d (pq_indefinite req) e in answer (lift_fault Pause_Reply r) e1)))"

definition api_pause_delete :: "'s world \<Rightarrow> 's engine \<Rightarrow> 's api_outcome" where
  "api_pause_delete W e =
     (let (r, e1) = resume_all W ''manual'' e
      in answer (lift_fault (Resumed_Reply (pause_view W e1)) r) e1)"

definition api_trackers_refresh :: "'s world \<Rightarrow> 's engine \<Rightarrow> 's api_outcome" where
  "api_trackers_refresh W e =
     (let (changed, e1) = refresh_trackers W e;
          (r, e2) = (if changed \<and> tc_reannounce_active (tf_config (en_trackers e1)) then reannounce_active W e1
                     else (Inr 0, e1))
      in answer (lift_fault (Refreshed_Reply changed (length (ts_trackers (tf_state (en_trackers e2))))) r) e2)"

definition api_add :: "'s world \<Rightarrow> json_rejection + add_movie_request \<Rightarrow> 's engine \<Rightarrow> 's api_outcome" where
  "api_add W body e =
     (case app_json body of
        Inl err \<Rightarrow> answer (Inl err) e
      | Inr req \<Rightarrow>
          (let (r, e1) = add_movie W req e
           in answer (lift_fault (\<lambda>v. Created_Reply (''/api/movies/'' @ imdb_id (mv_movie v)) v) r) e1))"

definition api_delete :: "'s world \<Rightarrow> string \<Rightarrow> 's engine \<Rightarrow> 's api_outcome" where
  "api_delete W i e =
     (case remove_movie W i e of
        (Inl err, e1) \<Rightarrow> answer (Inl (api_error_from err)) e1
      | (Inr gone, e1) \<Rightarrow>
          answer (if gone then Inr No_Content else Inl (api_not_found ''no such movie'')) e1)"

subsection \<open>PATCH\<close>

definition patch_fields :: "string list" where
  "patch_fields = [''last_used_at'', ''download_limit'', ''upload_limit'', ''peer_limit'']"

definition patch_positive :: "u64 option \<Rightarrow> string \<Rightarrow> api_error + u32 option" where
  "patch_positive v err =
     (case v of
        Some n \<Rightarrow> if 0 < n \<and> unat n < 2 ^ 32 then Inr (Some (ucast n)) else Inl (invalid err)
      | None \<Rightarrow> Inl (invalid err))"

definition patch_rate :: "(string \<Rightarrow> string) \<Rightarrow> string \<Rightarrow> json \<Rightarrow> api_error + u32 option" where
  "patch_rate quote k v =
     (case v of
        JNull \<Rightarrow> Inr None
      | JNumber n \<Rightarrow> patch_positive (as_u64 n) (k @ '' must be between 1 and 4294967295 bytes/s'')
      | JString s \<Rightarrow> patch_positive (ok (parse_size quote s))
          (k @ '': '' @ quote s @ '' is not a size like '' @ [CHR 0x22] @ ''2M'' @ [CHR 0x22])
      | _ \<Rightarrow> Inl (invalid (k @ '' must be a number, a size or null'')))"

text \<open>\<open>Some None\<close> stands for now.\<close>

definition patch_last_used :: "patch \<Rightarrow> api_error + i64 option option" where
  "patch_last_used p =
     (let bad = invalid (''last_used_at must be unix seconds or '' @ [CHR 0x22] @ ''now'' @ [CHR 0x22])
      in case map_of p ''last_used_at'' of
           None \<Rightarrow> Inr None
         | Some (JString s) \<Rightarrow> if s = ''now'' then Inr (Some None) else Inl bad
         | Some (JNumber n) \<Rightarrow> (case as_i64 n of Some t \<Rightarrow> Inr (Some (Some t)) | None \<Rightarrow> Inl bad)
         | Some _ \<Rightarrow> Inl bad)"

definition patch_limit ::
  "(string \<Rightarrow> string) \<Rightarrow> patch \<Rightarrow> string \<Rightarrow> u32 option \<Rightarrow> api_error + u32 option" where
  "patch_limit quote p k old =
     (case map_of p k of Some v \<Rightarrow> patch_rate quote k v | None \<Rightarrow> Inr old)"

definition patch_peers :: "patch \<Rightarrow> u32 option \<Rightarrow> api_error + u32 option" where
  "patch_peers p old =
     (let bad = invalid ''peer_limit must be 1..10000 or null''
      in case map_of p ''peer_limit'' of
           None \<Rightarrow> Inr old
         | Some JNull \<Rightarrow> Inr None
         | Some (JNumber n) \<Rightarrow>
             (case as_u64 n of
                Some v \<Rightarrow> if 1 \<le> v \<and> v \<le> 10000 then Inr (Some (ucast v)) else Inl bad
              | None \<Rightarrow> Inl bad)
         | Some _ \<Rightarrow> Inl bad)"

definition patch_limits ::
  "'s world \<Rightarrow> string \<Rightarrow> patch \<Rightarrow> 's engine \<Rightarrow> (api_error + movie_view) \<times> 's engine" where
  "patch_limits W i p e =
     (case get_movie_view W e i of
        None \<Rightarrow> (Inl (api_not_found ''no such movie''), e)
      | Some view \<Rightarrow>
          (case mv_torrent view of
             None \<Rightarrow> (Inl (api_not_found ''movie has no torrent''), e)
           | Some row \<Rightarrow>
               (case patch_limit (wd_quote W) p ''download_limit'' (t_download_limit row) of
                  Inl err \<Rightarrow> (Inl err, e)
                | Inr download \<Rightarrow>
                    (case patch_limit (wd_quote W) p ''upload_limit'' (t_upload_limit row) of
                       Inl err \<Rightarrow> (Inl err, e)
                     | Inr upload \<Rightarrow>
                         (case patch_peers p (t_peer_limit row) of
                            Inl err \<Rightarrow> (Inl err, e)
                          | Inr peers \<Rightarrow>
                              (case set_movie_limits W i download upload peers e of
                                 (Inl err, e1) \<Rightarrow> (Inl (api_error_from err), e1)
                               | (Inr v, e1) \<Rightarrow> (Inr v, e1)))))))"

definition supported_text :: string where
  "supported_text = '': supported fields are '' @ join_with '', '' patch_fields"

definition limits_touched :: "patch \<Rightarrow> bool" where
  "limits_touched p \<longleftrightarrow>
     list_ex (\<lambda>k. k \<in> fst ` set p) [''download_limit'', ''upload_limit'', ''peer_limit'']"

definition api_patch :: "'s world \<Rightarrow> string \<Rightarrow> json_rejection + patch \<Rightarrow> 's engine \<Rightarrow> 's api_outcome" where
  "api_patch W i body e =
     (case app_json body of
        Inl err \<Rightarrow> answer (Inl err) e
      | Inr p \<Rightarrow>
          (case find (\<lambda>k. k \<notin> set patch_fields) (map fst p) of
             Some k \<Rightarrow> answer (Inl (invalid (''unknown field '' @ wd_quote W k @ supported_text))) e
           | None \<Rightarrow>
               if p = [] then answer (Inl (invalid (''nothing to update'' @ supported_text))) e
               else
                 (case patch_last_used p of
                    Inl err \<Rightarrow> answer (Inl err) e
                  | Inr last_used \<Rightarrow>
                      (case (if limits_touched p then map_prod (map_sum id Some) id (patch_limits W i p e)
                             else (Inr None, e)) of
                         (Inl err, e1) \<Rightarrow> answer (Inl err) e1
                       | (Inr view, e1) \<Rightarrow>
                           (case last_used of
                              Some ts \<Rightarrow>
                                (let (r, e2) = set_last_used W i ts e1 in answer (lift_fault Movie_Reply r) e2)
                            | None \<Rightarrow> (map_option (\<lambda>v. Inr (Movie_Reply v)) view, e1))))))"

section \<open>The route table\<close>

type_synonym 's endpoint = "http_request \<Rightarrow> (string \<times> string) list \<Rightarrow> 's engine \<Rightarrow> 's api_outcome"

definition reads :: "('s engine \<Rightarrow> api_error + api_reply) \<Rightarrow> 's endpoint" where
  "reads f = (\<lambda>req params e. answer (f e) e)"

definition path_imdb :: "codec \<Rightarrow> (string \<times> string) list \<Rightarrow> string" where
  "path_imdb C params = ac_decode C (case raw_param params ''imdb_id'' of Some i \<Rightarrow> i | None \<Rightarrow> [])"

definition api_routes ::
  "codec \<Rightarrow> 's world \<Rightarrow> 's swarm \<Rightarrow> (route_piece list \<times> (string \<times> 's endpoint) list) list" where
  "api_routes C W S =
     [([Lit []], [(''GET'', reads (\<lambda>e. Inr (Page ''ui.html'')))]),
      ([Lit ''healthz''], [(''GET'', reads (\<lambda>e. Inr (healthz W e)))]),
      ([Lit ''metrics''], [(''GET'', reads (\<lambda>e. prometheus C))]),
      ([Lit ''api''], [(''GET'', reads (\<lambda>e. Inr Api_Root))]),
      ([Lit ''api'', Lit ''openapi.json''], [(''GET'', reads (\<lambda>e. Inr (Page ''openapi.json'')))]),
      ([Lit ''api'', Lit ''status''], [(''GET'', reads (api_status W S))]),
      ([Lit ''api'', Lit ''budget''], [(''GET'', reads (api_budget W S))]),
      ([Lit ''api'', Lit ''session''], [(''GET'', reads (api_session W S))]),
      ([Lit ''api'', Lit ''events''],
        [(''GET'', \<lambda>req params e. answer (Inr (api_events C (rq_query req) e)) e)]),
      ([Lit ''api'', Lit ''trackers''],
        [(''GET'', reads (\<lambda>e. Inr (api_trackers W e))),
         (''POST'', \<lambda>req params. api_trackers_refresh W)]),
      ([Lit ''api'', Lit ''config''], [(''GET'', reads (\<lambda>e. Inr (api_config W e)))]),
      ([Lit ''api'', Lit ''pause''],
        [(''GET'', reads (\<lambda>e. Inr (api_pause_get W e))),
         (''PUT'', \<lambda>req params. api_pause_put C W (rq_body req)),
         (''DELETE'', \<lambda>req params. api_pause_delete W)]),
      ([Lit ''api'', Lit ''movies''],
        [(''GET'', \<lambda>req params e. answer (Inr (api_list C W (rq_query req) e)) e),
         (''POST'', \<lambda>req params. api_add W (ac_add C req))]),
      ([Lit ''api'', Lit ''movies'', Par ''imdb_id''],
        [(''GET'', \<lambda>req params e. answer (api_get W (path_imdb C params) e) e),
         (''PATCH'', \<lambda>req params. api_patch W (path_imdb C params) (ac_patch C req)),
         (''DELETE'', \<lambda>req params. api_delete W (path_imdb C params))])]"

fun first_match ::
  "string list \<Rightarrow> (route_piece list \<times> 'h) list \<Rightarrow> ((string \<times> string) list \<times> 'h) option" where
  "first_match ss [] = None"
| "first_match ss ((ps, h) # rs) =
     (case match_route ps ss of Some params \<Rightarrow> Some (params, h) | None \<Rightarrow> first_match ss rs)"

text \<open>A \<open>GET\<close> route answers \<open>HEAD\<close> too; a path with no handler for the method answers 405.\<close>

definition served_as :: "string \<Rightarrow> string" where
  "served_as meth = (if meth = ''HEAD'' then ''GET'' else meth)"

definition method_not_allowed :: api_error where
  "method_not_allowed = api_error_new 405 [] []"

definition api_dispatch ::
  "codec \<Rightarrow> 's world \<Rightarrow> 's swarm \<Rightarrow> http_request \<Rightarrow> 's engine \<Rightarrow> 's api_outcome option" where
  "api_dispatch C W S req e =
     Option.bind (path_segments (rq_path req)) (\<lambda>ss.
       map_option (\<lambda>(params, methods).
           case map_of methods (served_as (rq_method req)) of
             Some h \<Rightarrow> h req params e
           | None \<Rightarrow> answer (Inl method_not_allowed) e)
         (first_match ss (api_routes C W S)))"

section \<open>The whole application\<close>

datatype site_reply =
    Api_Out "(api_error + api_reply) option"
  | Addon_Out stremio_answer
  | Video_Out "api_error + video_answer"
  | No_Route

record media_codec =
  md_enc :: "(char \<Rightarrow> bool) \<Rightarrow> string \<Rightarrow> string"
  md_lower :: "string \<Rightarrow> string"
  md_mime :: "string \<Rightarrow> string option"

definition addon_request :: "http_request \<Rightarrow> stremio_http" where
  "addon_request req =
     \<lparr>xh_params = [], xh_host = header_str ''host'' req,
      xh_proto = map snd (filter (\<lambda>(k, v). k = ''x-forwarded-proto'') (rq_headers req))\<rparr>"

definition addon_name :: "'s engine \<Rightarrow> string" where
  "addon_name e = (case so_addon_name (en_opts e) of Some n \<Rightarrow> n | None \<Rightarrow> ''Tornas'')"

definition video_out :: "video_answer result \<Rightarrow> site_reply" where
  "video_out r = Video_Out (case r of Inr v \<Rightarrow> Inr v | Inl err \<Rightarrow> Inl (api_error_from err))"

definition site ::
  "codec \<Rightarrow> media_codec \<Rightarrow> 's world \<Rightarrow> 's swarm \<Rightarrow> http_request \<Rightarrow> 's engine \<Rightarrow> site_reply \<times> 's engine" where
  "site C M W S req e =
     (case api_dispatch C W S req e of
        Some (r, e1) \<Rightarrow> (Api_Out r, e1)
      | None \<Rightarrow>
          if served_as (rq_method req) \<noteq> ''GET'' then (No_Route, e)
          else
          (case stremio_router (ac_decode C) (addon_manifest (sw_version S) (addon_name e))
                  (library_handler (md_lower M) (md_enc M) (en_library e))
                  (so_public_url (en_opts e)) (rq_path req) (addon_request req) of
             Some a \<Rightarrow> (Addon_Out a, e)
           | None \<Rightarrow>
               (case stremio_video_route (md_mime M) (ac_decode C) W S (rq_path req) e of
                  Some (r, e1) \<Rightarrow> (video_out r, e1)
                | None \<Rightarrow>
                    (case dlna_video_route (md_mime M) (ac_decode C) W S (rq_path req)
                            (\<lambda>k. map_of (rq_headers req) k) e of
                       Some (r, e1) \<Rightarrow> (video_out r, e1)
                     | None \<Rightarrow> (No_Route, e)))))"

definition site_app ::
  "codec \<Rightarrow> media_codec \<Rightarrow> 's world \<Rightarrow> 's swarm \<Rightarrow> (site_reply \<Rightarrow> http_response) \<Rightarrow> 's engine handler" where
  "site_app C M W S render req st =
     (let (r, e1) = site C M W S req (snd st) in (render r, fst st, e1))"

section \<open>Facts\<close>

lemma first_match_Some:
  "first_match ss rs = Some (params, h) \<Longrightarrow> \<exists>ps. (ps, h) \<in> set rs \<and> match_route ps ss = Some params"
  by (induction rs) (auto split: option.splits)

lemma read_routes:
  "(ps, ms) \<in> set (api_routes C W S) \<Longrightarrow> map_of ms ''GET'' = Some h \<Longrightarrow> snd (h req params e) = e"
  unfolding api_routes_def by (auto simp: reads_def answer_def)

lemma write_routes:
  "(ps, ms) \<in> set (api_routes C W S) \<Longrightarrow> map_of ms m = Some h \<Longrightarrow> m \<noteq> ''GET'' \<Longrightarrow>
    \<exists>r. ps = Lit ''api'' # r"
  unfolding api_routes_def by (auto split: if_splits)

lemma write_methods:
  "(ps, ms) \<in> set (api_routes C W S) \<Longrightarrow> map_of ms m = Some h \<Longrightarrow>
    m \<in> {''GET'', ''POST'', ''PUT'', ''PATCH'', ''DELETE''}"
  unfolding api_routes_def by (auto split: if_splits)

lemma api_change_is_protected:
  assumes "api_dispatch C W S req e = Some (r, e')" and "e' \<noteq> e"
  shows "token_protected req"
proof -
  obtain ss params ms h where ss: "path_segments (rq_path req) = Some ss"
    and fm: "first_match ss (api_routes C W S) = Some (params, ms)"
    and h: "map_of ms (served_as (rq_method req)) = Some h" and e': "e' = snd (h req params e)"
    using assms by (auto simp: api_dispatch_def answer_def bind_eq_Some_conv split: option.splits)
  obtain ps where ps: "(ps, ms) \<in> set (api_routes C W S)" "match_route ps ss = Some params"
    using first_match_Some [OF fm] by blast
  have get: "served_as (rq_method req) \<noteq> ''GET''"
    using read_routes [OF ps(1)] h e' assms(2) by metis
  then obtain rest where "ps = Lit ''api'' # rest" using write_routes [OF ps(1) h] by blast
  with ps(2) obtain ss' where "ss = ''api'' # ss'" by (cases ss) (auto split: if_splits)
  with ss have path: "\<exists>t. rq_path req = ''/api'' @ t"
  proof -
    obtain t where t: "rq_path req = CHR ''/'' # t" "split_char CHR ''/'' t = ''api'' # ss'"
      using ss \<open>ss = ''api'' # ss'\<close>
      by (auto simp: path_segments_def strip_prefix_Some)
    have "t = join_with ''/'' (''api'' # ss')" using join_split_char [of "CHR ''/''" t] t(2) by simp
    with t(1) show ?thesis by (simp add: join_with_def)
  qed
  have "rq_method req \<noteq> ''GET''" "rq_method req \<noteq> ''HEAD''" "rq_method req \<noteq> ''OPTIONS''"
    using get write_methods [OF ps(1) h] by (auto simp: served_as_def split: if_splits)
  with path show ?thesis by (auto simp: token_protected_def starts_with_iff)
qed

lemma open_stream_state: "snd (open_stream W S i e) = e \<or> snd (open_stream W S i e) = touch_movie W i e"
  by (auto simp: open_stream_def stream_target_def touch_movie_def split: option.splits sum.splits)

lemma stremio_video_state:
  assumes "stremio_video_route mime dec W S path e = Some (x, e1)"
  shows "\<exists>i. e1 = snd (open_stream W S i e)"
proof -
  obtain i where "video_id dec [''video''] path = Some i"
    using assms by (auto simp: stremio_video_route_def)
  with assms show ?thesis
    by (cases "open_stream W S i e"; cases "fst (open_stream W S i e)") (auto simp: stremio_video_route_def intro!: exI [of _ i])
qed

lemma dlna_video_state:
  assumes "dlna_video_route mime dec W S path hd' e = Some (x, e1)"
  shows "\<exists>i. e1 = snd (open_stream W S i e)"
proof -
  obtain i where "video_id dec [''dlna'', ''video''] path = Some i"
    using assms by (auto simp: dlna_video_route_def)
  with assms show ?thesis
    by (cases "open_stream W S i e"; cases "fst (open_stream W S i e)") (auto simp: dlna_video_route_def intro!: exI [of _ i])
qed

lemma site_change:
  assumes "site C M W S req e = (r, e')" and "e' \<noteq> e"
  shows "token_protected req \<or> (\<exists>i. e' = touch_movie W i e)"
proof (cases "api_dispatch C W S req e")
  case (Some o')
  obtain r' e1 where "o' = (r', e1)" by (cases o')
  with assms Some api_change_is_protected [of C W S req e r' e1] show ?thesis by (simp add: site_def)
next
  case None
  have opened: "e1 = e \<or> (\<exists>i. e1 = touch_movie W i e)" if "\<exists>i. e1 = snd (open_stream W S i e)" for e1
    using that open_stream_state [of W S _ e] by blast
  note stremio = opened [OF stremio_video_state] and dlna = opened [OF dlna_video_state]
  show ?thesis
    using assms None by (auto simp: site_def split: if_splits option.splits dest!: stremio dlna)
qed

section \<open>Writing needs the token\<close>

lemma shared_state:
  assumes "layer_laws cors" and "layer_laws body_limit"
    and "snd (snd (shared N show_ip render body_limit cors acl opt_token app req (lc, e))) \<noteq> e"
  shows "snd (snd (shared N show_ip render body_limit cors acl opt_token app req (lc, e)))
    = snd (snd (app req (lc, e)))"
proof -
  let ?tok = "require_token render (api_token_new opt_token) (body_limit app)"
  let ?all = "shared N show_ip render body_limit cors acl opt_token app req (lc, e)"
  have all: "snd ?all = snd (cors (track_http ?tok) req (lc, e))"
    using assms(3) by (auto simp: shared_def source_gate_def private_network_state split: gate.splits)
  with assms(3) have "snd (snd (cors (track_http ?tok) req (lc, e))) \<noteq> snd (lc, e)" by simp
  from layer_state [OF assms(1) this]
  have 1: "snd (snd ?all) = snd (snd (?tok req (lc, e)))" by (simp add: all track_http_state)
  with assms(3) have "snd (snd (?tok req (lc, e))) \<noteq> e" by simp
  then have 2: "snd (snd (?tok req (lc, e))) = snd (snd (body_limit app req (lc, e)))"
    by (auto simp: require_token_def split: option.splits if_splits)
  with 1 assms(3) have "snd (snd (body_limit app req (lc, e))) \<noteq> snd (lc, e)" by simp
  from layer_state [OF assms(2) this] 1 2 show ?thesis by simp
qed

text \<open>C19: Without the token nobody changes anything but a movie's use time. Whatever request reaches the whole
  application (API, dashboard, addon and byte routes) behind its layers, the engine changes only if the
  source address is let through, and then either the configured API token was presented, or the change is
  exactly that one movie was marked as used, which is what playing it does.\<close>

theorem writes_need_the_token:
  assumes "layer_laws cors" and "layer_laws body_limit"
    and "e' = snd (snd (shared N show_ip render body_limit cors acl opt_token
      (site_app C M W S render_site) req (lc, e)))" and "e' \<noteq> e"
  shows "require_allowed_source N show_ip acl (rq_peer req) (header_str ''x-forwarded-for'' req) = Pass
    \<and> ((\<exists>i. e' = touch_movie W i e)
       \<or> (\<forall>t. opt_token = Some t \<longrightarrow> t \<noteq> [] \<longrightarrow> presented_token req = Some t))"
proof -
  let ?app = "site_app C M W S render_site"
  let ?tok = "require_token render (api_token_new opt_token) (body_limit ?app)"
  have ne: "snd (snd (shared N show_ip render body_limit cors acl opt_token ?app req (lc, e))) \<noteq> e"
    using assms(3,4) by simp
  have pass: "require_allowed_source N show_ip acl (rq_peer req) (header_str ''x-forwarded-for'' req) = Pass"
    using ne by (auto simp: shared_def source_gate_def split: gate.splits)
  have "snd (snd (cors (track_http ?tok) req (lc, e))) \<noteq> snd (lc, e)"
    using ne pass by (simp add: shared_def source_gate_def private_network_state)
  from layer_state [OF assms(1) this] this
  have "snd (snd (?tok req (lc, e))) \<noteq> snd (lc, e)" by (simp add: track_http_state)
  from require_token_state [OF this]
  have token: "api_token_new opt_token = None \<or> \<not> token_protected req
      \<or> presented_token req = api_token_new opt_token"
    by blast
  obtain r e1 where r: "site C M W S req e = (r, e1)" by fastforce
  have "e' = e1" using shared_state [OF assms(1,2) ne] assms(3) r by (simp add: site_app_def)
  with r assms(4) have "token_protected req \<or> (\<exists>i. e' = touch_movie W i e)" using site_change by blast
  with pass token show ?thesis by (auto simp: api_token_new_def)
qed

definition example_codec' :: codec where
  "example_codec' =
     \<lparr>ac_pause = (\<lambda>_. Inr \<lparr>pq_duration = Some (JNumber (Pos_Int 60)), pq_indefinite = False\<rparr>), ac_add = (\<lambda>_. Inl (OtherRejection [])), ac_patch = (\<lambda>_. Inl (OtherRejection [])),
      ac_limit = (\<lambda>_. Inr None), ac_state = (\<lambda>_. Inr None), ac_duration = (\<lambda>_. Inl []),
      ac_metrics = Inr [], ac_decode = pct_decode\<rparr>"

definition example_media :: media_codec where
  "example_media = \<lparr>md_enc = pct_encode, md_lower = to_ascii_lowercase, md_mime = (\<lambda>_. None)\<rparr>"

definition put_pause :: "string \<Rightarrow> http_request" where
  "put_pause token = \<lparr>rq_method = ''PUT'', rq_path = ''/api/pause'', rq_route = None,
     rq_headers = [(''x-api-token'', token)], rq_peer = Some (V4 0xC0A80109), rq_query = [], rq_body = ''60''\<rparr>"

definition pause_site :: "http_response \<times> layer_counters \<times> memory_session engine" where
  "pause_site = shared cidr_net (\<lambda>_. []) (\<lambda>err. \<lparr>rs_status = ae_status err, rs_headers = [], rs_body = []\<rparr>)
     id id \<lparr>acl_allow = [Net4 0 0], acl_proxies = []\<rparr> (Some ''s3'')
     (site_app example_codec' example_media (example_world 300) example_swarm
       (\<lambda>r. \<lparr>rs_status = 200, rs_headers = [], rs_body = []\<rparr>))
     (put_pause ''s3'') (\<lparr>lc_forbidden = 0, lc_unauthorized = 0, lc_requests = []\<rparr>, example_engine)"

lemma pause_site_engine: "snd (snd pause_site) = snd (pause_all (example_world 300) (Some (from_secs 60)) False example_engine)"
proof -
  have token: "presented_token (put_pause ''s3'') = Some ''s3''"
    by (simp add: presented_token_def header_str_def put_pause_def)
  have segs: "path_segments (rq_path (put_pause ''s3'')) = Some [''api'', ''pause'']"
    by (simp add: path_segments_def put_pause_def strip_prefix_def starts_with_def)
  have "api_dispatch example_codec' (example_world 300) example_swarm (put_pause ''s3'') example_engine
      = Some (api_pause_put example_codec' (example_world 300) ''60'' example_engine)"
    unfolding api_dispatch_def segs by (simp add: api_routes_def put_pause_def served_as_def)
  moreover have "snd (api_pause_put example_codec' (example_world 300) ''60'' example_engine)
      = snd (pause_all (example_world 300) (Some (from_secs 60)) False example_engine)"
    by (simp add: api_pause_put_def pause_duration_def answer_def case_prod_beta example_codec'_def
        ascii_whitespace_def)
  ultimately show ?thesis
    by (simp add: pause_site_def shared_def source_gate_def require_allowed_source_def allows_everything_def
        private_network_state track_http_state require_token_def api_token_new_def token site_app_def
        site_def case_prod_beta)
qed

theorem writes_need_the_token_witness:
  "en_pause (snd (snd pause_site)) \<noteq> None \<and> presented_token (put_pause ''s3'') = Some ''s3''"
proof -
  have "map_option ps_until (en_pause (snd (pause_all (example_world 300) (Some (from_secs 60)) False example_engine)))
      = Some (Some 360)"
    by (rule example_pause_until)
  then have paused: "en_pause (snd (snd pause_site)) \<noteq> None" unfolding pause_site_engine by auto
  moreover have none: "en_pause example_engine = None" by (simp add: example_engine_def)
  ultimately have ne: "snd (snd pause_site) \<noteq> example_engine" by metis
  have laws: "layer_laws (id :: memory_session engine handler \<Rightarrow> memory_session engine handler)"
    by (simp add: layer_laws_def)
  have "en_pause (touch_movie W i example_engine) = None" for W :: "memory_session world" and i
    by (simp add: touch_movie_def none)
  with paused have "\<not> (\<exists>i. snd (snd pause_site) = touch_movie (example_world 300) i example_engine)" by metis
  with writes_need_the_token [OF laws laws pause_site_def [THEN arg_cong [where f = "\<lambda>x. snd (snd x)"]] ne]
  show ?thesis using paused by simp
qed

section \<open>What a PATCH does\<close>

lemma view_movie_parts [simp]:
  "mv_movie (view_movie W e m h) = m"
  "mv_torrent (view_movie W e m h) = torrent_for_movie (imdb_id m) (store e)"
  by (simp_all add: view_movie_def Let_def split: option.splits)

lemma patch_row:
  assumes "get_movie_view W e i = Some v" and "mv_torrent v = Some row"
  shows "torrent_for_movie i (store e) = Some row" and "get_movie i (store e) \<noteq> None"
  using assms get_movie_id [of i "store e"]
  by (auto simp: get_movie_view_def)

lemma patch_limits_change:
  assumes "snd (patch_limits W i p e) \<noteq> e \<or> is_ok (fst (patch_limits W i p e))"
  shows "\<exists>row. torrent_for_movie i (store e) = Some row
    \<and> is_ok (patch_limit (wd_quote W) p ''download_limit'' (t_download_limit row))
    \<and> is_ok (patch_limit (wd_quote W) p ''upload_limit'' (t_upload_limit row))
    \<and> is_ok (patch_peers p (t_peer_limit row))"
  using assms patch_row [of W e i]
  by (auto simp: patch_limits_def is_ok_iff split: option.splits sum.splits)

lemma patch_last_used_given:
  "patch_last_used p = Inr None \<longleftrightarrow> ''last_used_at'' \<notin> fst ` set p"
proof -
  have "map_of p ''last_used_at'' = None \<longleftrightarrow> ''last_used_at'' \<notin> fst ` set p"
    by (simp add: map_of_eq_None_iff)
  then show ?thesis
    by (auto simp: patch_last_used_def Let_def split: option.splits json.splits if_splits)
qed

lemma known_fields:
  assumes "find (\<lambda>k. k \<notin> set patch_fields) (map fst p) = None" and "p \<noteq> []"
  shows "fst ` set p \<subseteq> set patch_fields" and "limits_touched p \<or> ''last_used_at'' \<in> fst ` set p"
proof -
  show sub: "fst ` set p \<subseteq> set patch_fields"
    using assms(1) by (auto simp: find_None_iff)
  define keys where "keys = fst ` set p"
  have "fst (hd p) \<in> keys" using assms(2) by (simp add: keys_def)
  with sub show "limits_touched p \<or> ''last_used_at'' \<in> fst ` set p"
    unfolding limits_touched_def patch_fields_def keys_def [symmetric] by auto
qed

text \<open>C21: A PATCH is checked before it is applied. The handler always answers, and the engine changes only if the
  body was a JSON object with at least one field, every field is a supported one, and the value of
  every field that is given is one that field accepts.\<close>

theorem patch_is_checked_first:
  "(\<exists>r. fst (api_patch W i body e) = Some r)
   \<and> (snd (api_patch W i body e) \<noteq> e \<longrightarrow>
       (\<exists>p. body = Inr p \<and> p \<noteq> [] \<and> fst ` set p \<subseteq> set patch_fields \<and> is_ok (patch_last_used p)
         \<and> (limits_touched p \<longrightarrow>
             (\<exists>row. torrent_for_movie i (store e) = Some row
                \<and> is_ok (patch_limit (wd_quote W) p ''download_limit'' (t_download_limit row))
                \<and> is_ok (patch_limit (wd_quote W) p ''upload_limit'' (t_upload_limit row))
                \<and> is_ok (patch_peers p (t_peer_limit row))))))"
proof (cases body)
  case (Inl err)
  then obtain er where "app_json body = Inl er" by (cases err) auto
  then show ?thesis by (simp add: api_patch_def answer_def)
next
  case (Inr p)
  show ?thesis
  proof (cases "find (\<lambda>k. k \<notin> set patch_fields) (map fst p) = None \<and> p \<noteq> []")
    case False
    with Inr show ?thesis by (auto simp: api_patch_def answer_def split: option.splits)
  next
    case True
    note fields = known_fields [OF True [THEN conjunct1] True [THEN conjunct2]]
    show ?thesis
    proof (cases "patch_last_used p")
      case (Inl err)
      with True Inr show ?thesis by (simp add: api_patch_def answer_def)
    next
      case lu: (Inr ts)
      define l where "l = (if limits_touched p then map_prod (map_sum id Some) id (patch_limits W i p e)
        else (Inr None, e))"
      have eq: "api_patch W i body e = (case l of (Inl err, e1) \<Rightarrow> answer (Inl err) e1
          | (Inr view, e1) \<Rightarrow> (case ts of
              Some ts \<Rightarrow> (let (r, e2) = set_last_used W i ts e1 in answer (lift_fault Movie_Reply r) e2)
            | None \<Rightarrow> (map_option (\<lambda>v. Inr (Movie_Reply v)) view, e1)))"
        using True Inr lu by (simp add: api_patch_def l_def)
      have answers: "\<exists>r. fst (api_patch W i body e) = Some r"
      proof (cases "ts = None")
        case ts: True
        then have "limits_touched p" using fields(2) lu patch_last_used_given [of p] by auto
        then have "l = map_prod (map_sum id Some) id (patch_limits W i p e)" by (simp add: l_def)
        then show ?thesis unfolding eq ts
          by (cases "patch_limits W i p e"; cases "fst (patch_limits W i p e)") (auto simp: answer_def)
      next
        case False
        then show ?thesis unfolding eq
          by (cases l; cases "fst l") (auto simp: answer_def case_prod_beta)
      qed
      have "\<exists>row. torrent_for_movie i (store e) = Some row
          \<and> is_ok (patch_limit (wd_quote W) p ''download_limit'' (t_download_limit row))
          \<and> is_ok (patch_limit (wd_quote W) p ''upload_limit'' (t_upload_limit row))
          \<and> is_ok (patch_peers p (t_peer_limit row))"
        if ch: "snd (api_patch W i body e) \<noteq> e" and lt: "limits_touched p"
      proof (rule patch_limits_change, rule ccontr)
        assume "\<not> (snd (patch_limits W i p e) \<noteq> e \<or> is_ok (fst (patch_limits W i p e)))"
        then obtain err where "patch_limits W i p e = (Inl err, e)"
          by (cases "patch_limits W i p e"; cases "fst (patch_limits W i p e)") auto
        with lt have "l = (Inl err, e)" by (simp add: l_def)
        with ch show False by (simp add: eq answer_def)
      qed
      with answers fields(1) True Inr lu show ?thesis by auto
    qed
  qed
qed

lemma narrow_wide [simp]: "map_option (\<lambda>v. (ucast v :: u32)) (map_option (\<lambda>v. (ucast v :: i64)) x) = x"
proof -
  have "(ucast (ucast v :: i64) :: u32) = v" for v :: u32 by transfer simp
  then show ?thesis by (cases x) simp_all
qed

lemma torrent_for_movie_limits:
  assumes "torrent_for_movie i c = Some t"
  shows "torrent_for_movie i (set_limits (t_info_hash t) d u q c)
    = Some (t\<lparr>t_download_limit := d, t_upload_limit := u, t_peer_limit := q\<rparr>)"
proof -
  define f where "f r = (if r_info_hash r = t_info_hash t
    then r\<lparr>r_download_limit := map_option (\<lambda>v. ucast v) d, r_upload_limit := map_option (\<lambda>v. ucast v) u,
           r_peer_limit := map_option (\<lambda>v. ucast v) q\<rparr> else r)" for r :: torrent_record
  have key: "- sint (r_added_at (f r)) = - sint (r_added_at r)" "r_imdb_id (f r) = r_imdb_id r" for r
    by (simp_all add: f_def)
  have rows: "ct_torrents (set_limits (t_info_hash t) d u q c) = map f (ct_torrents c)"
    by (simp add: set_limits_def tbl_upd_def f_def)
  have sorted: "sort_key (\<lambda>r. - sint (r_added_at r)) (filter (\<lambda>r. r_imdb_id r = i) (map f (ct_torrents c)))
      = map f (sort_key (\<lambda>r. - sint (r_added_at r)) (filter (\<lambda>r. r_imdb_id r = i) (ct_torrents c)))"
    by (simp add: filter_map o_def key sort_key_map)
  obtain r rs where "sort_key (\<lambda>r. - sint (r_added_at r)) (filter (\<lambda>r. r_imdb_id r = i) (ct_torrents c)) = r # rs"
    and t: "t = torrent_from_record r"
    using assms by (auto simp: torrent_for_movie_def split: list.splits)
  then have "torrent_for_movie i (set_limits (t_info_hash t) d u q c) = Some (torrent_from_record (f r))"
    unfolding torrent_for_movie_def rows sorted by simp
  also have "torrent_from_record (f r) = t\<lparr>t_download_limit := d, t_upload_limit := u, t_peer_limit := q\<rparr>"
    by (simp add: t f_def torrent_from_record_def del: map_option_case)
  finally show ?thesis .
qed

lemma replace_torrent_library [simp]:
  "en_library (snd (replace_torrent W row n src saved opts e)) = en_library e"
proof -
  have m: "en_library (snd (case saved of None \<Rightarrow> (Inr (), set_session s e)
      | Some bytes \<Rightarrow> write_piece_map W (t_info_hash row) bytes (set_session s e))) = en_library e" for s
    by (cases saved) simp_all
  show ?thesis
    unfolding replace_torrent_def
    by (auto simp: case_prod_beta Let_def m split: sum.splits)
qed

lemma reload_torrent_library [simp]: "en_library (snd (reload_torrent W row e)) = en_library e"
  by (auto simp: reload_torrent_def Let_def case_prod_beta split: option.splits sum.splits)

lemma logged_lookups [simp]:
  "torrent_for_movie i (add_event now k m c) = torrent_for_movie i c"
  "get_movie i (add_event now k m c) = get_movie i c"
  by (simp_all add: torrent_for_movie_def get_movie_def add_event_def Let_def)

lemma get_movie_limits: "get_movie j (set_limits h d u q c) = get_movie j c"
  by (simp add: get_movie_def set_limits_def)

lemma set_movie_limits_ok:
  assumes "set_movie_limits W i d u q e = (Inr v, e')"
  obtains row where "torrent_for_movie i (store e) = Some row"
    and "torrent_for_movie i (store e') = Some (row\<lparr>t_download_limit := d, t_upload_limit := u, t_peer_limit := q\<rparr>)"
    and "\<forall>j. get_movie j (store e') = get_movie j (store e)"
proof -
  obtain row where row: "torrent_for_movie i (store e) = Some row"
    using assms by (auto simp: set_movie_limits_def split: if_splits option.splits)
  define e1 where "e1 = set_store (set_limits (t_info_hash row) d u q (store e)) e"
  define r where "r = reload_torrent W (row\<lparr>t_download_limit := d, t_upload_limit := u, t_peer_limit := q\<rparr>) e1"
  have r: "store (snd r) = set_limits (t_info_hash row) d u q (store e)" by (simp add: r_def e1_def)
  have "e' = log_event W ''limits'' (limits_text i d u q) (snd r)"
    using assms row
    by (auto simp: set_movie_limits_def Let_def e1_def r_def case_prod_beta split: if_splits option.splits sum.splits)
  then have "torrent_for_movie i (store e') = Some (row\<lparr>t_download_limit := d, t_upload_limit := u, t_peer_limit := q\<rparr>)"
      and "\<forall>j. get_movie j (store e') = get_movie j (store e)"
    using torrent_for_movie_limits [OF row, of d u q] r by (simp_all add: get_movie_limits)
  with row show thesis by (rule that)
qed

text \<open>C20: A PATCH does what it says. When it succeeds the movie has the use time that was given (now, for the word
  now, and the old one when the field is absent), its torrent has the limits that were given, each
  absent one as it was, and no other movie has changed.\<close>

theorem patch_does_what_it_says:
  assumes "api_patch W i (Inr p) e = (Some (Inr v), e')"
  shows "\<exists>m ts. get_movie i (store e) = Some m \<and> patch_last_used p = Inr ts
    \<and> get_movie i (store e') = Some (case ts of None \<Rightarrow> m
         | Some t \<Rightarrow> m\<lparr>last_used_at := (case t of Some n \<Rightarrow> n | None \<Rightarrow> wd_now W)\<rparr>)
    \<and> (\<forall>j. j \<noteq> i \<longrightarrow> get_movie j (store e') = get_movie j (store e))
    \<and> (if limits_touched p
       then \<exists>t d u q. torrent_for_movie i (store e) = Some t
         \<and> patch_limit (wd_quote W) p ''download_limit'' (t_download_limit t) = Inr d
         \<and> patch_limit (wd_quote W) p ''upload_limit'' (t_upload_limit t) = Inr u
         \<and> patch_peers p (t_peer_limit t) = Inr q
         \<and> torrent_for_movie i (store e') = Some (t\<lparr>t_download_limit := d, t_upload_limit := u, t_peer_limit := q\<rparr>)
       else torrent_for_movie i (store e') = torrent_for_movie i (store e))"
proof -
  obtain ts where ts: "patch_last_used p = Inr ts" and known: "find (\<lambda>k. k \<notin> set patch_fields) (map fst p) = None"
      "p \<noteq> []"
    using assms by (auto simp: api_patch_def answer_def split: option.splits if_splits sum.splits)
  define l where "l = (if limits_touched p then map_prod (map_sum id Some) id (patch_limits W i p e) else (Inr None, e))"
  have eq: "(case l of (Inl err, e1) \<Rightarrow> answer (Inl err) e1
      | (Inr view, e1) \<Rightarrow> (case ts of
          Some ts \<Rightarrow> (let (r, e2) = set_last_used W i ts e1 in answer (lift_fault Movie_Reply r) e2)
        | None \<Rightarrow> (map_option (\<lambda>v. Inr (Movie_Reply v)) view, e1))) = (Some (Inr v), e')"
    using assms ts known by (simp add: api_patch_def l_def)
  then obtain view e1 where l: "l = (Inr view, e1)"
    by (cases l; cases "fst l") (auto simp: answer_def)
  have limits: "(\<forall>j. get_movie j (store e1) = get_movie j (store e))
    \<and> (if limits_touched p
       then \<exists>t d u q. torrent_for_movie i (store e) = Some t
         \<and> patch_limit (wd_quote W) p ''download_limit'' (t_download_limit t) = Inr d
         \<and> patch_limit (wd_quote W) p ''upload_limit'' (t_upload_limit t) = Inr u
         \<and> patch_peers p (t_peer_limit t) = Inr q
         \<and> torrent_for_movie i (store e1) = Some (t\<lparr>t_download_limit := d, t_upload_limit := u, t_peer_limit := q\<rparr>)
         \<and> get_movie i (store e) \<noteq> None
       else e1 = e)"
  proof (cases "limits_touched p")
    case False
    with l show ?thesis by (simp add: l_def)
  next
    case True
    with l obtain w where "patch_limits W i p e = (Inr w, e1)"
      by (cases "patch_limits W i p e"; cases "fst (patch_limits W i p e)") (auto simp: l_def)
    then obtain x t d u q where x: "get_movie_view W e i = Some x" "mv_torrent x = Some t"
      and g: "patch_limit (wd_quote W) p ''download_limit'' (t_download_limit t) = Inr d"
        "patch_limit (wd_quote W) p ''upload_limit'' (t_upload_limit t) = Inr u"
        "patch_peers p (t_peer_limit t) = Inr q"
      and s: "set_movie_limits W i d u q e = (Inr w, e1)"
      by (auto simp: patch_limits_def split: option.splits sum.splits prod.splits)
    obtain row where row: "torrent_for_movie i (store e) = Some row"
        "torrent_for_movie i (store e1) = Some (row\<lparr>t_download_limit := d, t_upload_limit := u, t_peer_limit := q\<rparr>)"
        "\<forall>j. get_movie j (store e1) = get_movie j (store e)"
      by (rule set_movie_limits_ok [OF s])
    with patch_row [OF x] g True show ?thesis by auto
  qed
  show ?thesis
  proof (cases ts)
    case None
    then have touched: "limits_touched p" using known_fields(2) [OF known] ts patch_last_used_given [of p] by auto
    moreover have "e' = e1" using eq l None by (auto split: option.splits)
    ultimately show ?thesis using limits ts None by auto
  next
    case (Some t)
    obtain r e2 where r: "set_last_used W i t e1 = (r, e2)" by fastforce
    with eq l Some have e2: "e' = e2" and "\<exists>x. r = Inr x"
      by (auto simp: answer_def lift_fault_def split: sum.splits)
    then obtain m where m: "get_movie i (store e1) = Some m"
      and e': "e' = set_store (touch i (case t of Some n \<Rightarrow> n | None \<Rightarrow> wd_now W) (store e1)) e1"
      using r by (auto simp: set_last_used_def Let_def split: if_splits)
    have other: "get_movie j (store e') = get_movie j (store e1)" if "j \<noteq> i" for j
      using that by (auto simp: e' get_movie_def touch_def tbl_get_upd)
    have "get_movie i (store e') = Some (m\<lparr>last_used_at := (case t of Some n \<Rightarrow> n | None \<Rightarrow> wd_now W)\<rparr>)"
      using m by (simp add: e' get_movie_touch)
    moreover have "torrent_for_movie i (store e') = torrent_for_movie i (store e1)" by (simp add: e')
    ultimately show ?thesis using limits ts Some m other by (auto split: if_splits)
  qed
qed

abbreviation use_now :: patch where
  "use_now \<equiv> [(''last_used_at'', JString ''now'')]"

lemma example_patch:
  obtains v where "api_patch (example_world 300) ''tt1'' (Inr use_now) example_engine
    = (Some (Inr (Movie_Reply v)), set_store (touch ''tt1'' 300 (store example_engine)) example_engine)"
proof -
  let ?e1 = "set_store (touch ''tt1'' 300 (store example_engine)) example_engine"
  have "map_option imdb_id (get_movie ''tt1'' (store example_engine)) = Some ''tt1''" by code_simp
  then obtain m where m: "get_movie ''tt1'' (store example_engine) = Some m" by auto
  have lu: "patch_last_used use_now = Inr (Some None)" by (simp add: patch_last_used_def)
  have "get_movie_view (example_world 300) ?e1 ''tt1'' \<noteq> None"
    using m by (simp add: get_movie_view_def get_movie_touch)
  then obtain v where "get_movie_view (example_world 300) ?e1 ''tt1'' = Some v" by blast
  with m lu show thesis
    by (intro that [of v]) (simp add: api_patch_def patch_fields_def limits_touched_def set_last_used_def
        Let_def answer_def lift_fault_def)
qed

theorem patch_does_what_it_says_witness:
  "map_option last_used_at (get_movie ''tt1'' (store (snd
      (api_patch (example_world 300) ''tt1'' (Inr use_now) example_engine)))) = Some 300"
proof -
  obtain v where r: "api_patch (example_world 300) ''tt1'' (Inr use_now) example_engine
    = (Some (Inr (Movie_Reply v)), set_store (touch ''tt1'' 300 (store example_engine)) example_engine)"
    by (rule example_patch)
  have "patch_last_used use_now = Inr (Some None)" by (simp add: patch_last_used_def)
  with patch_does_what_it_says [OF r] r show ?thesis by auto
qed

theorem patch_is_checked_first_witness:
  "snd (api_patch (example_world 300) ''tt1'' (Inr use_now) example_engine) \<noteq> example_engine
   \<and> fst ` set use_now \<subseteq> set patch_fields"
proof -
  obtain v where r: "api_patch (example_world 300) ''tt1'' (Inr use_now) example_engine
    = (Some (Inr (Movie_Reply v)), set_store (touch ''tt1'' 300 (store example_engine)) example_engine)"
    by (rule example_patch)
  have "map_option last_used_at (get_movie ''tt1'' (store example_engine)) = Some 100"
    by code_simp
  moreover have "map_option last_used_at (get_movie ''tt1'' (store (set_store (touch ''tt1'' 300
      (store example_engine)) example_engine))) = Some 300"
    by code_simp
  ultimately have "set_store (touch ''tt1'' 300 (store example_engine)) example_engine \<noteq> example_engine"
    by (auto simp del: set_store_simps)
  with r have "snd (api_patch (example_world 300) ''tt1'' (Inr use_now) example_engine) \<noteq> example_engine"
    by simp
  with patch_is_checked_first [of "example_world 300" "''tt1''" "Inr use_now" example_engine]
  show ?thesis by blast
qed

end
