(* ===== verification/Engine_Steps.thy ===== *)
theory Engine_Steps
  imports Engine_Start Http_Api
begin

text \<open>
  The engine over time: every handler as a step, what one run of the server can reach, and the
  invariants of all of it. The torrent session moves on its own between steps, as far as its laws allow.
\<close>

section \<open>What a handler may do\<close>

text \<open>
  Most handlers leave the settings, the pause and its file alone, keep the catalog in order without
  adding to its bytes, and, while a pause is in force (when \<open>p\<close> holds), leave everything paused.
\<close>

definition keeps_settings :: "'s engine \<Rightarrow> 's engine \<Rightarrow> bool" where
  "keeps_settings e e' \<longleftrightarrow>
     en_opts e' = en_opts e \<and> en_pause e' = en_pause e \<and> en_disk_missing e' = en_disk_missing e
     \<and> mc_budget (en_library e') = mc_budget (en_library e)
     \<and> mc_min_free (en_library e') = mc_min_free (en_library e)
     \<and> en_files e' (pause_file e) = en_files e (pause_file e)"

definition slims :: "catalog \<Rightarrow> catalog \<Rightarrow> bool" where
  "slims c c' \<longleftrightarrow> (catalog_wf c \<longrightarrow> catalog_wf c' \<and> torrent_bytes c' \<le> torrent_bytes c)"

definition tame :: "'s world \<Rightarrow> bool \<Rightarrow> 's engine \<Rightarrow> 's engine \<Rightarrow> bool" where
  "tame W p e e' \<longleftrightarrow>
     keeps_settings e e' \<and> slims (store e) (store e')
     \<and> (p \<longrightarrow> is_paused e \<longrightarrow> all_paused W e \<longrightarrow> all_paused W e')"

named_theorems tame_intros \<open>tame steps\<close>

lemma slims_refl [simp, tame_intros]: "slims c c"
  by (simp add: slims_def)

lemma slims_trans: "slims c c' \<Longrightarrow> slims c' c'' \<Longrightarrow> slims c c''"
  by (auto simp: slims_def)

lemma keeps_settings_trans: "keeps_settings e e' \<Longrightarrow> keeps_settings e' e'' \<Longrightarrow> keeps_settings e e''"
  by (simp add: keeps_settings_def pause_file_def)

lemma tame_refl [simp, tame_intros]: "tame W p e e"
  by (simp add: tame_def keeps_settings_def)

lemma tame_trans: "tame W p e e' \<Longrightarrow> tame W p e' e'' \<Longrightarrow> tame W p e e''"
  by (auto simp: tame_def keeps_settings_def is_paused_def pause_file_def slims_def)

lemma tame_weaken: "tame W True e e' \<Longrightarrow> tame W p e e'"
  by (simp add: tame_def)

lemma tame_strengthen: "tame W False e e' \<Longrightarrow> (is_paused e \<Longrightarrow> all_paused W e \<Longrightarrow> all_paused W e') \<Longrightarrow> tame W True e e'"
  by (simp add: tame_def)

subsection \<open>The catalog\<close>

lemma bytes_filter: "(\<Sum>x\<leftarrow>filter P xs. f x) \<le> (\<Sum>x\<leftarrow>xs. f x :: nat)"
  by (induction xs) auto

lemma bytes_upd: "(\<And>r. g (f r) = g r) \<Longrightarrow> (\<Sum>r\<leftarrow>tbl_upd key k f rows. g r) = (\<Sum>r\<leftarrow>rows. g r)"
  by (simp add: map_upd_other)

lemma torrent_bytes_rows: "torrent_bytes c = (\<Sum>r\<leftarrow>ct_torrents c. unat (r_size_bytes r))"
  by (simp add: torrent_bytes_def list_torrents_def o_def torrent_from_record_def)

lemma slimsI: "(catalog_wf c \<Longrightarrow> catalog_wf c') \<Longrightarrow> torrent_bytes c' \<le> torrent_bytes c \<Longrightarrow> slims c c'"
  by (simp add: slims_def)

lemma slims_event [tame_intros]: "slims c (add_event now k msg c)"
  by (rule slimsI) (auto intro: wf_intros)

lemma slims_touch [tame_intros]: "slims c (touch i ts c)"
  by (rule slimsI, erule touch_wf) (simp add: torrent_bytes_rows touch_def)

lemma slims_delete [tame_intros]: "slims c (snd (delete_movie i c))"
  by (rule slimsI, erule delete_movie_wf) (simp add: torrent_bytes_rows delete_movie_def tbl_del_def bytes_filter)

lemma slims_limits [tame_intros]: "slims c (set_limits x d u q c)"
  by (rule slimsI, erule set_limits_wf) (simp add: torrent_bytes_rows set_limits_def bytes_upd)

lemma slims_complete [tame_intros]: "slims c (mark_complete x ts c)"
  by (rule slimsI, erule mark_complete_wf) (simp add: torrent_bytes_rows mark_complete_def bytes_upd)

lemma tame_store [tame_intros]: "slims (store e) c \<Longrightarrow> tame W p e (set_store c e)"
  by (simp add: tame_def keeps_settings_def all_paused_def)

lemma tame_log [tame_intros]: "tame W p e (log_event W' k msg e)"
  by (simp add: tame_def keeps_settings_def all_paused_def slims_event)

lemma tame_count [tame_intros]: "tame W p e (count k n e)"
  by (simp add: tame_def keeps_settings_def all_paused_def)

text \<open>Log lines and counters at the end of a step.\<close>

lemma tame_log_after: "tame W p e e' \<Longrightarrow> tame W p e (log_event W' k msg e')"
  and tame_count_after: "tame W p e e' \<Longrightarrow> tame W p e (count c n e')"
  and tame_store_after: "tame W p e e' \<Longrightarrow> slims (store e') c' \<Longrightarrow> tame W p e (set_store c' e')"
  by (blast intro: tame_trans tame_intros)+

subsection \<open>The session\<close>

text \<open>A torrent that stays listed when another is deleted, or when its own deletion fails, is not restarted.\<close>

definition deletion_law :: "'s librqbit \<Rightarrow> bool" where
  "deletion_law rq \<longleftrightarrow>
     (\<forall>s i del h. h \<in> set (rq_handles rq (snd (rq_delete rq i del s))) \<longrightarrow> rq_is_paused rq s h \<longrightarrow>
        rq_is_paused rq (snd (rq_delete rq i del s)) h)"

definition lawful :: "'s librqbit \<Rightarrow> bool" where
  "lawful rq \<longleftrightarrow> session_laws rq \<and> add_laws rq \<and> obliging rq \<and> deletion_law rq"

lemma memory_session_lawful: "lawful mem_session"
proof -
  have "mem_is_paused (snd (mem_delete i del s)) h = mem_is_paused s h" if "h \<in> set (mem_handles (snd (mem_delete i del s)))"
    for i del s h
  proof -
    have "h_id h \<noteq> i" using that by (auto simp: mem_delete_def mem_handles_def DAList.filter.rep_eq)
    from mem_delete_entry [OF this] show ?thesis by (simp add: mem_is_paused_def)
  qed
  then show ?thesis
    by (simp add: lawful_def memory_session_laws mem_add_laws memory_session_obliging deletion_law_def)
qed

lemma tame_session:
  "(p \<Longrightarrow> is_paused e \<Longrightarrow> all_paused W e \<Longrightarrow> \<forall>h \<in> set (rq_handles (wd_rq W) s). rq_is_paused (wd_rq W) s h) \<Longrightarrow>
   tame W p e (set_session s e)"
  by (simp add: tame_def keeps_settings_def all_paused_def)

lemma tame_delete [tame_intros]:
  assumes "lawful (wd_rq W)"
  shows "tame W p e (set_session (snd (rq_delete (wd_rq W) i del (en_session e))) e)"
proof (rule tame_session)
  have "session_laws (wd_rq W)" using assms by (simp add: lawful_def)
  from delete_handles [OF this, of i del "en_session e"]
  have "set (rq_handles (wd_rq W) (snd (rq_delete (wd_rq W) i del (en_session e)))) \<subseteq> handles W e"
    by auto
  with assms show "all_paused W e \<Longrightarrow>
      \<forall>h \<in> set (rq_handles (wd_rq W) (snd (rq_delete (wd_rq W) i del (en_session e)))).
        rq_is_paused (wd_rq W) (snd (rq_delete (wd_rq W) i del (en_session e))) h"
    by (auto simp: lawful_def deletion_law_def all_paused_def)
qed

lemma tame_pause [tame_intros]:
  assumes "lawful (wd_rq W)"
  shows "tame W p e (set_session (snd (rq_pause (wd_rq W) h (en_session e))) e)"
  using pause_same [of "wd_rq W" "en_session e" h] pause_flag [of "wd_rq W" h "en_session e"] assms
  by (intro tame_session) (auto simp: lawful_def same_torrents_def all_paused_def)

lemma tame_add:
  assumes "lawful (wd_rq W)" and "p \<Longrightarrow> ao_paused opts" and "\<not> ao_list_only opts"
  shows "tame W p e (set_session (snd (rq_add (wd_rq W) src opts (en_session e))) e)"
proof (rule tame_session)
  assume p: p and all: "all_paused W e"
  have laws: "add_laws (wd_rq W)" using assms(1) by (simp add: lawful_def)
  let ?r = "rq_add (wd_rq W) src opts (en_session e)"
  show "\<forall>h \<in> set (rq_handles (wd_rq W) (snd ?r)). rq_is_paused (wd_rq W) (snd ?r) h"
  proof (cases "\<exists>h. fst ?r = Inr (Added h)")
    case True
    then obtain h where "fst ?r = Inr (Added h)" by blast
    from add_added(3,4) [OF laws this assms(3)] all assms(2) [OF p] show ?thesis by (auto simp: all_paused_def)
  next
    case False
    with add_refused [OF laws, of src opts "en_session e"] all show ?thesis
      by (auto simp: unchanged_def same_torrents_def all_paused_def)
  qed
qed

lemma tame_balance [tame_intros]: "tame W p e (snd (balance_queue W e))"
proof (cases "is_paused e")
  case True
  then show ?thesis by (simp add: balance_queue_def)
next
  case False
  then show ?thesis by (simp add: tame_def keeps_settings_def)
qed

subsection \<open>Files\<close>

lemma last_path_join: "q \<noteq> [] \<Longrightarrow> last (path_join d q) = last q"
  by (simp add: path_join_def)

lemma other_path: "last path \<noteq> CHR ''n'' \<Longrightarrow> path \<noteq> pause_file e"
  using last_path_join [of "''pause.json''" "so_data_dir (en_opts e)"] by (auto simp: pause_file_def)

lemma state_paths:
  "meta_path e x \<noteq> pause_file e'" "bitv_path e x \<noteq> pause_file e'" "bitv_tmp e x \<noteq> pause_file e'"
  by (rule other_path; simp add: meta_path_def bitv_path_def bitv_tmp_def last_path_join)+

lemma tame_write: "path \<noteq> pause_file e \<Longrightarrow> tame W p e (snd (write_file W' path body e))"
  by (auto simp: write_file_def tame_def keeps_settings_def all_paused_def split: option.splits)

lemma tame_piece_map [tame_intros]: "tame W p e (snd (write_piece_map W' x bytes e))"
  using state_paths [of e x e]
  by (auto simp: write_piece_map_def Let_def write_file_def tame_def keeps_settings_def all_paused_def pause_file_def
      split: option.splits)

lemma tame_save_metadata [tame_intros]: "tame W p e (snd (save_metadata W' h (meta_path e' x) e))"
  using tame_write [OF state_paths(1) [of e' x e]]
  by (simp add: save_metadata_def Let_def case_prod_beta split: option.split)

section \<open>Every handler\<close>

lemma tame_evict_torrent: "lawful (wd_rq W) \<Longrightarrow> tame W p e (snd (evict_torrent W x e))"
  using tame_delete [of W p e] by (simp add: evict_torrent_def case_prod_beta split: option.split)

lemma tame_evict:
  assumes "lawful (wd_rq W)" shows "tame W p e (snd (evict W x e))"
proof (cases rule: evict_cases [of W x e])
  case failed
  then show ?thesis using tame_evict_torrent [OF assms] by simp
next
  case (evicted bytes msg)
  have "store (snd (evict_torrent W x e)) = store e" by (simp add: evict_torrent_frame)
  with evicted(2) show ?thesis
    by (auto split: option.split intro!: tame_log_after tame_count_after tame_store_after slims_delete
        tame_evict_torrent [OF assms])
qed

lemma tame_evict_all: "lawful (wd_rq W) \<Longrightarrow> tame W p e (snd (evict_all W cs e))"
proof (induction cs arbitrary: e)
  case (Cons c cs)
  then show ?case
    using tame_evict [of W p e "c_key c"] by (auto split: prod.splits sum.splits intro: tame_trans)
qed simp

lemma tame_ensure_space: "lawful (wd_rq W) \<Longrightarrow> tame W p e (snd (ensure_space W inc e))"
  using tame_evict_all [of W p e]
  by (auto simp: ensure_space_def Let_def case_prod_beta split: sum.split)

lemma tame_evict_each: "lawful (wd_rq W) \<Longrightarrow> tame W p e (snd (evict_each_stalled W xs e))"
proof (induction xs arbitrary: e)
  case (Cons y xs)
  obtain x imdb secs where y: "y = (x, imdb, secs)" by (cases y)
  let ?e = "log_event W ''stalled'' (stalled_text imdb secs) e"
  obtain r e2 where r: "evict W x ?e = (r, e2)" by fastforce
  have "tame W p e e2"
    using tame_trans [OF tame_log tame_evict [OF Cons.prems, of p ?e x]] r by simp
  with Cons.IH [OF Cons.prems, of "count Stalled_Evictions 1 e2"] r show ?case
    by (auto simp: y split: prod.split sum.split intro: tame_trans tame_count_after)
qed simp

lemma tame_progress: "tame W p e (e\<lparr>en_progress_seen := s\<rparr>)"
  by (simp add: tame_def keeps_settings_def all_paused_def)

lemma tame_evict_stalled: "lawful (wd_rq W) \<Longrightarrow> tame W p e (snd (evict_stalled W e))"
  using tame_trans [OF tame_progress tame_evict_each [of W p]]
  by (simp add: evict_stalled_def Let_def case_prod_beta)

lemma tame_sweep: "lawful (wd_rq W) \<Longrightarrow> tame W p e (sweep W e)"
  using tame_trans [OF tame_evict_stalled tame_ensure_space, of W p e 0] by (simp add: sweep_def)

lemma tame_completed:
  assumes "lawful (wd_rq W)" shows "tame W p e (completed W h e)"
proof -
  define e1 where "e1 = set_store (mark_complete (h_hash h) (wd_now W) (store e)) e"
  define e2 where "e2 = set_session (snd (rq_pause (wd_rq W) h (en_session e1))) e1"
  have e1: "tame W p e e1" unfolding e1_def by (intro tame_intros)
  have "tame W p e1 e2" unfolding e2_def using tame_pause [OF assms] .
  then have e2: "tame W p e e2" using e1 by (rule tame_trans [rotated])
  have "tame W p e (snd (balance_queue W e1))" "tame W p e (snd (balance_queue W e2))"
    using tame_trans [OF e1 tame_balance] tame_trans [OF e2 tame_balance] by simp_all
  then show ?thesis
    by (auto simp: completed_def Let_def case_prod_beta split: sum.split intro!: tame_log_after tame_count_after
        simp flip: e1_def e2_def)
qed

lemma tame_remove:
  assumes "lawful (wd_rq W)" shows "tame W p e (snd (remove_movie W i e))"
proof (cases "torrent_for_movie i (store e)")
  case None
  then show ?thesis by (simp add: remove_movie_def case_prod_beta tame_store slims_delete)
next
  case (Some t)
  define r where "r = (case handle_for W e (t_info_hash t) of
      None \<Rightarrow> (Inr (), e)
    | Some h \<Rightarrow> (let (r, s) = rq_delete (wd_rq W) (h_id h) True (en_session e) in (r, set_session s e)))"
  have "tame W p e (snd r)"
    using tame_delete [OF assms, of p e] by (simp add: r_def case_prod_beta split: option.split)
  with Some show ?thesis
    by (auto simp: remove_movie_def split: sum.split prod.split simp flip: r_def
        intro!: tame_log_after tame_count_after tame_store_after slims_delete)
qed

subsection \<open>Reloading\<close>

lemma tame_replace:
  assumes "lawful (wd_rq W)" and "p \<Longrightarrow> ao_paused opts" and "\<not> ao_list_only opts"
  shows "tame W p e (snd (replace_torrent W row i src saved opts e))"
proof -
  define r where "r = rq_delete (wd_rq W) i False (en_session e)"
  define w where "w = (case saved of None \<Rightarrow> (Inr (), set_session (snd r) e)
    | Some bytes \<Rightarrow> write_piece_map W (t_info_hash row) bytes (set_session (snd r) e))"
  have e1: "tame W p e (set_session (snd r) e)" unfolding r_def by (rule tame_delete [OF assms(1)])
  have e2: "tame W p e (snd w)"
    using e1 tame_trans [OF e1 tame_piece_map] by (simp add: w_def split: option.split)
  have e3: "tame W p e (set_session (snd (rq_add (wd_rq W) src opts (en_session (snd w)))) (snd w))"
    by (rule tame_trans [OF e2 tame_add [OF assms]])
  obtain d s1 where r: "r = (d, s1)" by fastforce
  obtain wr e2 where w: "w = (wr, e2)" by fastforce
  note step = replace_torrent_def [of W row i src saved opts e, folded r_def, unfolded r]
  show ?thesis
  proof (cases d)
    case (Inl err)
    with e1 step r show ?thesis by simp
  next
    case (Inr u)
    note step' = step [unfolded Inr prod.case sum.case, folded w_def [unfolded r snd_conv], unfolded w]
    show ?thesis using e2 e3 by (cases wr) (simp_all add: step' w case_prod_beta)
  qed
qed

lemma tame_reload:
  assumes "lawful (wd_rq W)" shows "tame W True e (snd (reload_torrent W row e))"
proof (cases "handle_for W e (t_info_hash row)")
  case None
  then show ?thesis by (simp add: reload_torrent_def)
next
  case (Some h)
  define was where "was = rq_is_paused (wd_rq W) (en_session e) h"
  have laws: "session_laws (wd_rq W)" using assms by (simp add: lawful_def)
  define e1 where "e1 = (if was then e else set_session (snd (rq_pause (wd_rq W) h (en_session e))) e)"
  define m where "m = save_metadata W h (meta_path e1 (t_info_hash row)) e1"
  have e1: "tame W p e e1" for p unfolding e1_def using tame_pause [OF assms, of p e h] by simp
  have em: "tame W p e (snd m)" for p unfolding m_def using e1 by (rule tame_trans) (rule tame_save_metadata)
  obtain mr e2 where m: "m = (mr, e2)" by fastforce
  note step = reload_torrent_def [of W row e, unfolded Let_def Some option.case, folded was_def, folded e1_def,
      folded m_def, unfolded m]
  have any: "tame W p e (snd (reload_torrent W row e))" if "p \<Longrightarrow> was" for p
  proof (cases mr)
    case (Inl err)
    with em [of p] show ?thesis by (simp add: step m)
  next
    case (Inr v)
    have "tame W p e (snd (replace_torrent W row (h_id h) src saved opts e2))"
      if "ao_paused opts = was" "\<not> ao_list_only opts" for src saved opts
      using em [of p] tame_replace [OF assms _ that(2), of p e2] that(1) \<open>p \<Longrightarrow> was\<close>
      by (auto simp: m intro: tame_trans)
    with em [of p] Inr show ?thesis by (cases "source_for e2 row") (simp_all add: step m torrent_options_def default_add_options_def)
  qed
  show ?thesis
  proof (cases was)
    case True
    then show ?thesis by (intro any) simp
  next
    case False
    have "h \<in> handles W e" using session_get_listed [OF laws] Some by (auto simp: handle_for_def)
    with False have "\<not> all_paused W e" by (auto simp: all_paused_def was_def)
    then show ?thesis using any [of False] by (simp add: tame_def)
  qed
qed

lemma tame_set_limits:
  assumes "lawful (wd_rq W)" shows "tame W True e (snd (set_movie_limits W i d u q e))"
proof (cases "is_disk_missing e \<or> torrent_for_movie i (store e) = None")
  case True
  then show ?thesis by (auto simp: set_movie_limits_def)
next
  case False
  then obtain row where row: "torrent_for_movie i (store e) = Some row" and on: "\<not> is_disk_missing e" by auto
  define e1 where "e1 = set_store (set_limits (t_info_hash row) d u q (store e)) e"
  define r where "r = reload_torrent W (row\<lparr>t_download_limit := d, t_upload_limit := u, t_peer_limit := q\<rparr>) e1"
  have "tame W True e (snd r)"
    unfolding r_def by (rule tame_trans [OF _ tame_reload [OF assms]]) (simp add: e1_def tame_store slims_limits)
  then show ?thesis
    using row on
    by (auto simp: set_movie_limits_def Let_def split: sum.split prod.split intro!: tame_log_after
        simp flip: e1_def r_def)
qed

lemma tame_reannounce_rows: "lawful (wd_rq W) \<Longrightarrow> tame W True e (snd (reannounce_rows W rows k e))"
proof (induction rows arbitrary: k e)
  case (Cons row rows)
  obtain r e1 where r: "reload_torrent W row e = (r, e1)" by fastforce
  with tame_reload [OF Cons.prems, of e row] have "tame W True e e1" by simp
  then have "tame W True e (snd (reannounce_rows W rows (k + 1) e1))"
    using Cons.IH [OF Cons.prems] by (rule tame_trans)
  with Cons.IH [OF Cons.prems, of e k] \<open>tame W True e e1\<close> r show ?case
    by (auto simp: Let_def split: option.split sum.split prod.split)
qed simp

lemma tame_reannounce: "lawful (wd_rq W) \<Longrightarrow> tame W True e (snd (reannounce_active W e))"
  by (simp add: reannounce_active_def tame_reannounce_rows)

lemma tame_refresh: "tame W p e (snd (refresh_trackers W' e))"
  by (simp add: refresh_trackers_def case_prod_beta tame_def keeps_settings_def all_paused_def)

lemma tame_tracker_tick:
  assumes "lawful (wd_rq W)" shows "tame W True e (tracker_tick W e)"
proof -
  obtain changed e1 where r: "refresh_trackers W e = (changed, e1)" by fastforce
  then have "tame W True e e1" using tame_refresh [of W True e W] by simp
  with tame_trans [OF this tame_reannounce [OF assms]] r show ?thesis by (simp add: tracker_tick_def)
qed

lemma tame_use:
  "tame W p e (touch_movie W' i e)" "tame W p e (snd (stream_target W' i e))"
  "tame W p e (snd (open_stream W' S i e))" "tame W p e (snd (set_last_used W' i ts e))"
  by (auto simp: touch_movie_def stream_target_def open_stream_def set_last_used_def Let_def
      split: option.split sum.split prod.split intro!: tame_store slims_touch)

subsection \<open>Adding\<close>

lemma keeps_record: "keeps_settings e (snd (record_movie W m raw row n h e))"
  by (auto simp: record_movie_def Let_def keeps_settings_def split: sum.split)

lemma keeps_add_listed:
  assumes "lawful (wd_rq W)"
  shows "keeps_settings e (snd (add_listed W req m raw bytes peers l e))"
proof -
  have w: "keeps_settings e (snd (write_file W (meta_path e (li_info_hash l)) body e))" for body
    using tame_write [OF state_paths(1) [of e "li_info_hash l" e], of W False] by (simp add: tame_def)
  have s: "keeps_settings x (snd (ensure_space W len x))" for len x
    using tame_ensure_space [OF assms, of False x len] by (simp add: tame_def)
  have d: "keeps_settings x (snd (start_download W src opts x))" for src opts x
    by (simp add: keeps_settings_def)
  obtain wr e1 where e1: "write_file W (meta_path e (li_info_hash l))
      (case bytes of Some b \<Rightarrow> b | None \<Rightarrow> li_torrent_bytes l) e = (wr, e1)" by fastforce
  note k1 = w [of "case bytes of Some b \<Rightarrow> b | None \<Rightarrow> li_torrent_bytes l", unfolded e1 snd_conv]
  note step = add_listed_def [of W req m raw bytes peers l e, unfolded Let_def e1]
  show ?thesis
  proof (cases "is_ok wr \<and> is_ok (choose_video (li_files l))")
    case False
    with k1 step show ?thesis by (auto split: sum.split)
  next
    case True
    then obtain idx name len where v: "wr = Inr ()" "choose_video (li_files l) = Inr (idx, name, len)"
      by (auto simp: is_ok_iff)
    obtain sr e2 where e2: "ensure_space W len e1 = (sr, e2)" by fastforce
    have k2: "keeps_settings e e2" using keeps_settings_trans [OF k1 s [of e1 len]] e2 by simp
    show ?thesis
    proof (cases sr)
      case (Inl err)
      with step v e2 k2 show ?thesis by simp
    next
      case (Inr ev)
      obtain dr e3 where e3: "start_download W (make_source bytes req) (download_options W l idx peers
          (if li_private l then [] else current_trackers W e) e2) e2 = (dr, e3)" by fastforce
      have "keeps_settings e e3" using keeps_settings_trans [OF k2 d] e3 by (metis snd_conv)
      moreover from this have "keeps_settings e (snd (record_movie W m raw row n h e3))" for row n h
        by (rule keeps_settings_trans) (rule keeps_record)
      ultimately show ?thesis using step v e2 e3 Inr by (cases dr) simp_all
    qed
  qed
qed

lemma add_movie_while_paused:
  assumes "is_paused e"
  shows "\<exists>k err. add_movie W req e = (Inl err, count k 1 e)"
proof -
  obtain err where "check_request W req e = Inl err" using assms by (auto simp: check_request_def Let_def)
  then show ?thesis by (auto simp: add_movie_def add_movie_inner_def)
qed

lemma add_movie_frame:
  assumes "lawful (wd_rq W)"
  shows "keeps_settings e (snd (add_movie W req e))"
proof -
  obtain r e1 where inner: "add_movie_inner W req e = (r, e1)" by fastforce
  have "keeps_settings e e1"
  proof (cases "\<exists>i mr bytes ps. check_request W req e = Inr i \<and> find_movie W i = Inr mr
      \<and> torrent_file W req = Inr bytes \<and> resolve_peers W (rq_initial_peers req) = Inr ps")
    case False
    then show ?thesis
      using inner by (auto simp: add_movie_inner_def keeps_settings_def split: sum.splits)
  next
    case True
    then obtain i m raw bytes ps where s: "check_request W req e = Inr i" "find_movie W i = Inr (m, raw)"
        "torrent_file W req = Inr bytes" "resolve_peers W (rq_initial_peers req) = Inr ps" by fast
    obtain lr e0 where l: "list_torrent W (make_source bytes req) (some_peers ps) bytes e = (lr, e0)" by fastforce
    have k: "keeps_settings e e0"
      using l list_torrent_frame [of W "make_source bytes req" "some_peers ps" bytes e] by (simp add: keeps_settings_def)
    show ?thesis
      using inner s l k keeps_settings_trans [OF k keeps_add_listed [OF assms]]
      by (cases lr) (auto simp: add_movie_inner_def, metis snd_conv)
  qed
  moreover obtain k where "snd (add_movie W req e) = count k 1 e1"
    using inner by (cases r) (auto simp: add_movie_def)
  ultimately show ?thesis by (simp add: keeps_settings_def)
qed

lemma failed_add_slims:
  assumes "lawful (wd_rq W)" and "add_movie W req e = (Inl err, e')"
  shows "slims (store e) (store e')"
proof -
  obtain k e4 where inner: "add_movie_inner W req e = (Inl err, e4)" and e': "e' = count k 1 e4"
    using add_movie_inner_of [OF assms(2)] .
  have "slims (store e) (store e4)"
    using inner
  proof (cases rule: add_movie_inner_cases)
    case (listed i m raw bytes peers l e0)
    have e0: "en_library e0 = en_library e"
      using list_torrent_frame(1) [of W "make_source bytes req" peers bytes e] listed(4) by simp
    show ?thesis
      using listed(5)
    proof (cases rule: add_listed_cases)
      case (evicting e1 len ev e2)
      then show ?thesis using tame_ensure_space [OF assms(1), of False e1 len] e0 by (simp add: tame_def)
    qed (simp_all add: e0 record_movie_ok Let_def)
  qed simp
  then show ?thesis by (simp add: e')
qed

section \<open>The pause\<close>

text \<open>The pause operations change the pause, so only the rest of the state is kept.\<close>

definition steady :: "'s engine \<Rightarrow> 's engine \<Rightarrow> bool" where
  "steady e e' \<longleftrightarrow>
     en_opts e' = en_opts e \<and> mc_budget (en_library e') = mc_budget (en_library e)
     \<and> mc_min_free (en_library e') = mc_min_free (en_library e) \<and> slims (store e) (store e')"

definition held :: "'s world \<Rightarrow> 's engine \<Rightarrow> bool" where
  "held W e \<longleftrightarrow> (is_paused e \<longrightarrow> all_paused W e)"

lemma steady_trans: "steady e e' \<Longrightarrow> steady e' e'' \<Longrightarrow> steady e e''"
  by (auto simp: steady_def slims_def)

lemma tame_steady: "tame W p e e' \<Longrightarrow> steady e e'"
  by (simp add: tame_def keeps_settings_def steady_def)

lemma tame_held: "tame W True e e' \<Longrightarrow> held W e \<Longrightarrow> held W e'"
  by (simp add: tame_def keeps_settings_def held_def is_paused_def)

lemma tame_pause_inv: "tame W p e e' \<Longrightarrow> pause_inv enc e \<Longrightarrow> pause_inv enc e'"
  by (simp add: tame_def keeps_settings_def pause_inv_def pause_file_ok_def pause_file_def)

lemma steady_log: "steady e (log_event W k msg e)" and steady_count: "steady e (count c n e)"
  by (simp_all add: steady_def slims_event)

lemma steady_pause_all: "steady e (snd (pause_all W d i e))"
proof (cases rule: pause_all_cases [of W d i e])
  case (paused d' msg e1)
  then have "steady e e1" by (simp add: steady_def)
  then show ?thesis using paused(4) by (simp add: steady_def slims_def add_event_wf)
qed (simp_all add: steady_def)

lemma steady_resume_all: "steady e (snd (resume_all W trigger e))"
proof (cases rule: resume_all_cases [of W trigger e])
  case (resumed n e2)
  have "en_library e2 = en_library e" "en_opts e2 = en_opts e"
    using balance_queue_frame(1,2) [of W "snd (store_pause W None (e\<lparr>en_pause := None\<rparr>))"] resumed(3) by simp_all
  then show ?thesis using resumed(4) by (simp add: steady_def slims_event)
qed (simp add: steady_def)

lemma steady_check_pause: "steady e (snd (snd (check_pause W e)))"
proof -
  define e2 where "e2 = (if data_disk_ok W e \<and> en_disk_missing e
      then log_event W ''disk'' ''the data disk came back'' (e\<lparr>en_disk_missing := \<not> data_disk_ok W e\<rparr>)
      else e\<lparr>en_disk_missing := \<not> data_disk_ok W e\<rparr>)"
  have e2: "steady e e2" by (simp add: e2_def steady_def slims_event)
  have same: "steady x (snd (apply_pause W x))" "steady x (snd (balance_queue W x))" for x :: "'a engine"
    by (simp_all add: steady_def)
  have disk: "steady x (pause_for_disk W x)" for x :: "'a engine"
    by (simp add: steady_def pause_for_disk_def)
  note steps = same disk steady_resume_all steady_log
  have "steady e2 (snd (snd (check_pause W e)))"
    unfolding check_pause_def Let_def e2_def [symmetric]
    by (auto simp: case_prod_beta split: disk_verdict.split option.split intro: steps steady_trans [OF steady_log])
  with e2 show ?thesis by (rule steady_trans)
qed

lemma held_pause_all:
  assumes "lawful (wd_rq W)" and "held W e" shows "held W (snd (pause_all W d i e))"
proof (cases rule: pause_all_cases [of W d i e])
  case (paused d' msg e1)
  have "session_laws (wd_rq W)" "obliging (wd_rq W)" using assms(1) by (simp_all add: lawful_def)
  from apply_pause_all [OF this] show ?thesis using paused(4) by (simp add: held_def all_paused_def)
qed (use assms(2) in \<open>simp_all add: held_def all_paused_def is_paused_def\<close>)

lemma resumed_not_paused:
  assumes "en_pause e \<noteq> None" and "\<not> en_disk_missing e"
  shows "en_pause (snd (resume_all W trigger e)) = None"
proof (cases rule: resume_all_cases [of W trigger e])
  case kept
  then show ?thesis using assms by (simp add: resume_all_def is_disk_missing_def Let_def case_prod_beta)
next
  case (resumed n e2)
  then show ?thesis
    using balance_queue_frame(3) [of W "snd (store_pause W None (e\<lparr>en_pause := None\<rparr>))"] by simp
qed

lemma held_resume_all: "held W e \<Longrightarrow> held W (snd (resume_all W trigger e))"
  using resumed_not_paused [of e W trigger]
  by (cases "is_disk_missing e \<or> en_pause e = None")
    (auto simp: resume_all_def held_def is_paused_def is_disk_missing_def)

lemma held_check_pause:
  assumes "lawful (wd_rq W)" shows "held W (snd (snd (check_pause W e)))"
proof -
  have laws: "session_laws (wd_rq W)" "obliging (wd_rq W)" using assms by (simp_all add: lawful_def)
  note all = apply_pause_all [OF laws]
  show ?thesis
  proof (cases rule: check_pause_cases [of W e])
    case (held e2)
    then show ?thesis using all by (simp add: held_def pause_for_disk_def all_paused_def)
  next
    case (lifted trigger e2 q)
    then show ?thesis using resumed_not_paused [of e2 W trigger] by (simp add: held_def is_paused_def)
  next
    case (ran e2)
    then show ?thesis by (simp add: held_def is_paused_def)
  next
    case (kept e2 q)
    then show ?thesis using all by (simp add: held_def)
  qed
qed

section \<open>The steps\<close>

text \<open>
  One step is one handler under one reading of the world: the requests of the HTTP interface, the
  two media interfaces, and the ticks of the background tasks. A handler that fails is a step too.
\<close>

inductive engine_step :: "'s world \<Rightarrow> 's engine \<Rightarrow> 's engine \<Rightarrow> bool" for W :: "'s world" and e :: "'s engine" where
  step_add: "engine_step W e (snd (add_movie W req e))"
| step_remove: "engine_step W e (snd (remove_movie W i e))"
| step_limits: "engine_step W e (snd (set_movie_limits W i d u q e))"
| step_last_used: "engine_step W e (snd (set_last_used W i ts e))"
| step_play: "engine_step W e (snd (open_stream W S i e))"
| step_touch: "engine_step W e (touch_movie W i e)"
| step_pause: "engine_step W e (snd (pause_all W dur indefinite e))"
| step_resume: "engine_step W e (snd (resume_all W trigger e))"
| step_watch: "engine_step W e (snd (snd (check_pause W e)))"
| step_complete: "engine_step W e (completed W h e)"
| step_sweep: "engine_step W e (sweep W e)"
| step_balance: "engine_step W e (snd (balance_queue W e))"
| step_trackers: "engine_step W e (tracker_tick W e)"
| step_refresh: "engine_step W e (snd (refresh_trackers W e))"
| step_reannounce: "engine_step W e (snd (reannounce_active W e))"

inductive_cases engine_stepE: "engine_step W e e'"

text \<open>Between steps the session downloads and fails, but adds and restarts nothing by itself.\<close>

definition drifts :: "'s librqbit \<Rightarrow> 's \<Rightarrow> 's \<Rightarrow> bool" where
  "drifts rq s s' \<longleftrightarrow>
     (\<forall>h \<in> set (rq_handles rq s'). h \<in> set (rq_handles rq s) \<and> (rq_is_paused rq s h \<longrightarrow> rq_is_paused rq s' h))"

text \<open>
  What a server and its restarts can reach on one data directory. A restart, after a crash or an orderly
  stop, finds the files and the catalog of the last state; the worlds \<open>Ws\<close> are the readings of the clock, the disk and
  the network that the steps meet.
\<close>

inductive reachable ::
  "('s, 'n) host \<Rightarrow> 's world set \<Rightarrow> server_opts \<Rightarrow> 's engine \<Rightarrow> bool"
  for H :: "('s, 'n) host" and Ws :: "'s world set" and o' :: server_opts where
  started: "W \<in> Ws \<Longrightarrow> start H W o' = Inr (e, acl) \<Longrightarrow> reachable H Ws o' e"
| stepped: "reachable H Ws o' e \<Longrightarrow> W \<in> Ws \<Longrightarrow> engine_step W e e' \<Longrightarrow> reachable H Ws o' e'"
| drifted: "reachable H Ws o' e \<Longrightarrow> W \<in> Ws \<Longrightarrow> drifts (wd_rq W) (en_session e) s \<Longrightarrow>
    reachable H Ws o' (set_session s e)"
| restarted: "reachable H Ws o' e \<Longrightarrow> W \<in> Ws \<Longrightarrow>
    start (H\<lparr>ht_files := en_files e, ht_open_catalog := Inr (store e)\<rparr>) W o' = Inr (e', acl) \<Longrightarrow>
    reachable H Ws o' e'"

section \<open>The invariant\<close>

definition engine_inv :: "'s librqbit \<Rightarrow> (pause_state \<Rightarrow> string) \<Rightarrow> server_opts \<Rightarrow> 's engine \<Rightarrow> bool" where
  "engine_inv rq enc o' e \<longleftrightarrow>
     en_opts e = o' \<and> mc_budget (en_library e) = so_disk_budget o' \<and> mc_min_free (en_library e) = so_min_free o'
     \<and> catalog_wf (store e) \<and> torrent_bytes (store e) \<le> unat (so_disk_budget o')
     \<and> pause_inv enc e
     \<and> (is_paused e \<longrightarrow> (\<forall>h \<in> set (rq_handles rq (en_session e)). rq_is_paused rq (en_session e) h))"

text \<open>The worlds of a run share the session and the encoding of the pause file.\<close>

definition worlds_ok :: "'s librqbit \<Rightarrow> (pause_state \<Rightarrow> string) \<Rightarrow> 's world set \<Rightarrow> bool" where
  "worlds_ok rq enc Ws \<longleftrightarrow> lawful rq \<and> (\<forall>W \<in> Ws. wd_rq W = rq \<and> wd_encode_pause W = enc)"

definition budget_sane :: "server_opts \<Rightarrow> bool" where
  "budget_sane o' \<longleftrightarrow> unat (so_disk_budget o') + unat (so_disk_budget o') < 2 ^ 64
     \<and> unat (so_disk_budget o') + unat (so_min_free o') < 2 ^ 64"

lemma inv_by:
  assumes "engine_inv rq enc o' e" and "wd_rq W = rq" and "steady e e'" and "held W e \<Longrightarrow> held W e'"
    and "pause_inv enc e \<Longrightarrow> pause_inv enc e'"
  shows "engine_inv rq enc o' e'"
  using assms by (auto simp: engine_inv_def steady_def slims_def held_def all_paused_def)

lemma inv_tame: "engine_inv rq enc o' e \<Longrightarrow> wd_rq W = rq \<Longrightarrow> tame W True e e' \<Longrightarrow> engine_inv rq enc o' e'"
  using inv_by [OF _ _ tame_steady tame_held tame_pause_inv] by metis

lemma inv_add:
  assumes inv: "engine_inv rq enc o' e" and W: "wd_rq W = rq" and laws: "lawful rq" and "budget_sane o'"
  shows "engine_inv rq enc o' (snd (add_movie W req e))"
proof -
  obtain r e' where r: "add_movie W req e = (r, e')" by fastforce
  have frame: "keeps_settings e e'" using add_movie_frame [of W e req] laws W r by simp
  have paused: "tame W True e e'" if "is_paused e"
    using add_movie_while_paused [OF that, of W req] r by (auto intro: tame_count)
  show ?thesis
  proof (cases "is_paused e")
    case True
    then show ?thesis using inv_tame [OF inv W paused] r by simp
  next
    case False
    have pause: "pause_inv enc e'" "\<not> is_paused e'"
      using frame inv False by (simp_all add: keeps_settings_def engine_inv_def pause_inv_def pause_file_ok_def
          pause_file_def is_paused_def)
    have "catalog_wf (store e') \<and> torrent_bytes (store e') \<le> unat (so_disk_budget o')"
    proof (cases r)
      case (Inl err)
      then show ?thesis using failed_add_slims [of W req e err e'] laws W r inv by (auto simp: slims_def engine_inv_def)
    next
      case (Inr v)
      then show ?thesis using added_movie_fits [of e W req v e'] r inv assms(4)
        by (auto simp: engine_inv_def budget_sane_def)
    qed
    with pause frame inv r show ?thesis by (simp add: engine_inv_def keeps_settings_def)
  qed
qed

lemma inv_step:
  assumes inv: "engine_inv rq enc o' e" and W: "wd_rq W = rq" "wd_encode_pause W = enc"
    and laws: "lawful rq" and sane: "budget_sane o'" and step: "engine_step W e e'"
  shows "engine_inv rq enc o' e'"
proof -
  have l: "lawful (wd_rq W)" using laws W by simp
  note by_tame = inv_tame [OF inv W(1)]
  note by_parts = inv_by [OF inv W(1)]
  from step show ?thesis
  proof cases
    case (step_add req)
    then show ?thesis using inv_add [OF inv W(1) laws sane] by simp
  next
    case (step_pause dur indefinite)
    then show ?thesis
      using by_parts [OF steady_pause_all [of e W dur indefinite] held_pause_all [OF l]] pause_all_inv [of W e] W by blast
  next
    case (step_resume trigger)
    then show ?thesis
      using by_parts [OF steady_resume_all [of e W trigger] held_resume_all] resume_all_inv [of W e] W by blast
  next
    case step_watch
    then show ?thesis
      using by_parts [OF steady_check_pause [of e W] held_check_pause [OF l]] check_pause_inv [of W e] W by blast
  qed (simp_all add: by_tame tame_remove [OF l] tame_set_limits [OF l] tame_use tame_completed [OF l]
      tame_sweep [OF l] tame_balance tame_tracker_tick [OF l] tame_refresh tame_reannounce [OF l])
qed


lemma inv_start:
  assumes "worlds_ok rq enc Ws" and "W \<in> Ws" and "start H W o' = Inr (e, acl)"
    and "ht_open_catalog H = Inr c" and "catalog_wf c" and "torrent_bytes c \<le> unat (so_disk_budget o')"
    and stored: "\<And>body. ht_files H (path_join (so_data_dir o') ''pause.json'') = Some body \<Longrightarrow>
      \<exists>p. body = enc p \<and> ps_reason p = Manual"
  shows "engine_inv rq enc o' e"
proof -
  have W: "wd_rq W = rq" "lawful rq" using assms(1,2) by (auto simp: worlds_ok_def)
  then have "session_laws (wd_rq W)" "obliging (wd_rq W)" by (simp_all add: lawful_def)
  from started_engine [OF this assms(3,4)] W(1) assms(5,6) stored show ?thesis
    by (auto simp: engine_inv_def pause_inv_def pause_file_ok_def pause_file_def all_paused_def
        intro!: add_event_wf)
qed

lemma inv_reachable:
  assumes ok: "worlds_ok rq enc Ws" and sane: "budget_sane o'"
    and c: "ht_open_catalog H = Inr c" "catalog_wf c" "torrent_bytes c \<le> unat (so_disk_budget o')"
    and stored: "\<And>body. ht_files H (path_join (so_data_dir o') ''pause.json'') = Some body \<Longrightarrow>
      \<exists>p. body = enc p \<and> ps_reason p = Manual"
  shows "reachable H Ws o' e \<Longrightarrow> engine_inv rq enc o' e"
proof (induction rule: reachable.induct)
  case (started W e acl)
  then show ?case using inv_start [OF ok _ _ c stored] by blast
next
  case (stepped e W e')
  then show ?case using inv_step [OF stepped.IH _ _ _ sane] ok by (auto simp: worlds_ok_def)
next
  case (drifted e W s)
  have "pause_inv enc (set_session s e)" using drifted.IH by (simp add: engine_inv_def pause_inv_def pause_file_ok_def pause_file_def)
  then show ?case using drifted ok by (auto simp: engine_inv_def drifts_def worlds_ok_def is_paused_def)
next
  case (restarted e W e' acl)
  have "\<exists>p. body = enc p \<and> ps_reason p = Manual"
    if "en_files e (path_join (so_data_dir o') ''pause.json'') = Some body" for body
    using that restarted.IH by (auto simp: engine_inv_def pause_inv_def pause_file_ok_def pause_file_def)
  then show ?case
    using inv_start [OF ok restarted.hyps(2,3), of "store e"] restarted.IH by (auto simp: engine_inv_def)
qed

section \<open>Properties\<close>



section \<open>Witnesses\<close>

lemma example_run:
  obtains e where "reachable example_host {example_world 300} example_opts e" and "is_paused e"
proof -
  obtain e acl where e: "start example_host (example_world 300) example_opts = Inr (e, acl)"
    by (rule example_start)
  have laws: "session_laws (wd_rq (example_world 300))" "obliging (wd_rq (example_world 300))"
    by (simp_all add: memory_session_laws memory_session_obliging)
  have c: "ht_open_catalog example_host = Inr (store example_engine)" by (simp add: example_host_def)
  have path: "path_join (so_data_dir example_opts) ''pause.json'' = ''/var/lib/tornas/pause.json''"
    by (simp add: example_opts_def default_server_opts_def path_join_def starts_with_def ends_with_def)
  have "wd_decode_pause (example_world 300) (wd_encode_pause (example_world 300) p) = Some p" for p
    by (simp add: example_world_def example_codec)
  then have "load_pause (example_world 300) (ht_files example_host ''/var/lib/tornas/pause.json'') \<noteq> None"
    by (simp add: load_pause_def example_host_def)
  with started_engine [OF laws e c] path have "is_paused e" by (simp add: is_paused_def)
  moreover have "reachable example_host {example_world 300} example_opts e"
    using started [of "example_world 300" "{example_world 300}"] e by simp
  ultimately show thesis by (rule that [rotated])
qed

lemma example_run_ok:
  "worlds_ok mem_session (wd_encode_pause (example_world 300)) {example_world 300}"
  "budget_sane example_opts" "ht_open_catalog example_host = Inr (store example_engine)"
  "catalog_wf (store example_engine)" "torrent_bytes (store example_engine) \<le> unat (so_disk_budget example_opts)"
  "ht_files example_host (path_join (so_data_dir example_opts) ''pause.json'') = Some body \<Longrightarrow>
    \<exists>p. body = wd_encode_pause (example_world 300) p \<and> ps_reason p = Manual"
proof -
  show "worlds_ok mem_session (wd_encode_pause (example_world 300)) {example_world 300}"
    by (simp add: worlds_ok_def memory_session_lawful)
  show "budget_sane example_opts"
    by (simp add: budget_sane_def example_opts_def default_server_opts_def)
  show "ht_open_catalog example_host = Inr (store example_engine)" by (simp add: example_host_def)
  show "catalog_wf (store example_engine)" by (rule example_engine_wf)
  show "torrent_bytes (store example_engine) \<le> unat (so_disk_budget example_opts)" by code_simp
  show "ht_files example_host (path_join (so_data_dir example_opts) ''pause.json'') = Some body \<Longrightarrow>
      \<exists>p. body = wd_encode_pause (example_world 300) p \<and> ps_reason p = Manual"
    by (auto simp: example_host_def split: if_splits)
qed



end
