(* ===== verification/Server.thy ===== *)
theory Server
  imports Runtime Announce Engine_Steps
begin

text \<open>
  \<open>server.rs\<close>: the daemon on the service runtime. The state that the hooks and tasks share is the engine, the
  reading of the world it currently meets, and what systemd was told. Routers and the UPnP server are other
  crates' values and stay parameters; what the HTTP application does is theory \<open>Http_Api\<close>.
\<close>

record 's server_state =
  se_world :: "'s world"
  se_engine :: "'s engine"
  se_sent :: "notify_state list"

definition send_notify :: "notify_state \<Rightarrow> 's server_state \<Rightarrow> 's server_state" where
  "send_notify msg s = s\<lparr>se_sent := se_sent s @ [msg]\<rparr>"

datatype server_task =
    Sweep_Forever | Pause_Watch_Forever | Tracker_Refresh_Forever | Status_Loop | Watchdog_Loop
  | Ssdp_Forever | Mdns_Guard mdns_service ip_addr

section \<open>Reloading\<close>

definition reload_trackers :: "'s world \<Rightarrow> 's engine \<Rightarrow> 's engine" where
  "reload_trackers W e =
     (let (changed, e1) = refresh_trackers W e in if changed then snd (reannounce_active W e1) else e1)"

section \<open>Discovery\<close>

record upnp_options =
  uo_friendly_name :: string
  uo_http_listen_port :: u16
  uo_http_prefix :: string

text \<open>
  \<open>new_server\<close> starts the UPnP server; it fails, or gives its router if that can be taken.
\<close>

definition dlna_start ::
  "(upnp_options \<Rightarrow> 'r option result) \<Rightarrow> string \<Rightarrow> server_opts \<Rightarrow> 'r option option" where
  "dlna_start new_server hostname o' =
     (if so_disable_dlna o' then None
      else if is_loopback (fst (so_http_listen o')) then None
      else
        let name = (case so_dlna_name o' of Some n \<Rightarrow> n | None \<Rightarrow> ''Tornas @ '' @ hostname)
        in case new_server \<lparr>uo_friendly_name = name, uo_http_listen_port = snd (so_http_listen o'),
                            uo_http_prefix = ''/upnp''\<rparr> of
             Inr server \<Rightarrow> Some server | Inl e \<Rightarrow> None)"

definition dlna_register ::
  "(string \<Rightarrow> 'r \<Rightarrow> 'r) \<Rightarrow> 'r option \<Rightarrow> (server_task, 'r, 's server_state) component" where
  "dlna_register nest server svc =
     add_task ''ssdp'' Ssdp_Forever
       (case server of Some router \<Rightarrow> add_route (nest ''/upnp'' router) svc | None \<Rightarrow> svc)"

definition mdns_from_opts :: "(string \<Rightarrow> string) \<Rightarrow> server_opts \<Rightarrow> (mdns_service \<times> ip_addr) option" where
  "mdns_from_opts quote o' =
     (let (ip, port) = so_http_listen o'
      in if so_disable_mdns o' \<or> is_loopback ip then None
         else case mdns_new quote ''_http._tcp.local.'' (so_mdns_name o') port of
                Inl e \<Rightarrow> None
              | Inr s \<Rightarrow>
                  Some (mdns_txt ''api'' ''/api'' (mdns_txt ''manifest'' ''/manifest.json'' (mdns_txt ''path'' ''/'' s)), ip))"

definition mdns_register :: "mdns_service \<times> ip_addr \<Rightarrow> (server_task, 'r, 's server_state) component" where
  "mdns_register m = add_task ''mdns'' (Mdns_Guard (fst m) (snd m))"

definition engine_workers :: "(server_task, 'r, 's server_state) component" where
  "engine_workers svc =
     add_task ''status'' Status_Loop (add_task ''trackers'' Tracker_Refresh_Forever
       (add_task ''pause-watch'' Pause_Watch_Forever (add_task ''sweep'' Sweep_Forever svc)))"

section \<open>The status line\<close>

definition downloading :: "status_view \<Rightarrow> nat" where
  "downloading st = length (filter (\<lambda>m. \<not> mv_finished m) (vw_movies st))"

definition status_text :: "status_view \<Rightarrow> string" where
  "status_text st =
     (let paused = (case (pv_paused (vw_pause st), pv_remaining_secs (vw_pause st)) of
                      (False, _) \<Rightarrow> []
                    | (True, Some r) \<Rightarrow> ''PAUSED, resumes in '' @ human_age r @ ''; ''
                    | (True, None) \<Rightarrow> ''PAUSED until resumed; '')
      in paused @ show_nat (length (vw_movies st)) @ '' movies ('' @ show_nat (downloading st)
         @ '' downloading), '' @ human_bytes (bv_used (vw_budget st)) @ '' / '' @ human_bytes (bv_limit (vw_budget st))
         @ '' used, down '' @ human_rate (sv_download_bps (vw_session st)) @ '' up ''
         @ human_rate (sv_upload_bps (vw_session st)) @ '', '' @ show_u64 (sv_peers_live (vw_session st)) @ '' peers'')"

definition status_tick :: "'s swarm \<Rightarrow> 's server_state \<Rightarrow> 's server_state" where
  "status_tick S s =
     (case status (se_world s) S (se_engine s) of Inr st \<Rightarrow> send_notify (Status (status_text st)) s | Inl e \<Rightarrow> s)"

section \<open>The service\<close>

text \<open>The routers of the daemon, and the rest of what it is built from.\<close>

record 'r parts =
  pt_routes :: 'r
  pt_shared :: "'r \<Rightarrow> 'r"
  pt_stremio :: "string \<Rightarrow> string option \<Rightarrow> 'r"
  pt_dlna_video :: 'r
  pt_nest :: "string \<Rightarrow> 'r \<Rightarrow> 'r"
  pt_upnp :: "upnp_options \<Rightarrow> 'r option result"
  pt_hostname :: string
  pt_quote :: "string \<Rightarrow> string"

text \<open>\<open>took\<close> is how long the engine's shutdown takes, in milliseconds.\<close>

definition engine_hook :: "('s engine \<Rightarrow> nat option) \<Rightarrow> 's server_state shutdown_hook" where
  "engine_hook took s =
     map_option (\<lambda>ms. (ms, s\<lparr>se_engine := shutdown (se_world s) (se_engine s)\<rparr>)) (took (se_engine s))"

definition reload_hook :: "'s server_state reload_callback" where
  "reload_hook s = Some (s\<lparr>se_engine := reload_trackers (se_world s) (se_engine s)\<rparr>)"

definition both :: "'a option \<Rightarrow> 'b option \<Rightarrow> ('a \<times> 'b) option" where
  "both a b = (case (a, b) of (Some x, Some y) \<Rightarrow> Some (x, y) | _ \<Rightarrow> None)"

definition server_service ::
  "('s engine \<Rightarrow> nat option) \<Rightarrow> 'r parts \<Rightarrow> server_opts \<Rightarrow> (server_task, 'r, 's server_state) service" where
  "server_service took P o' =
     (let svc0 = http_layer (pt_shared P)
                   (tls_opt (both (so_tls_cert o') (so_tls_key o'))
                     (http (so_http_listen o') (service_new ''tornas'')));
          svc1 = add_component (add_route (pt_routes P)) svc0;
          svc2 = add_component (add_route
                   (pt_stremio P (case so_addon_name o' of Some n \<Rightarrow> n | None \<Rightarrow> ''Tornas'') (so_public_url o'))) svc1;
          svc3 = add_component (add_route (pt_dlna_video P)) svc2;
          svc4 = add_opt (map_option (dlna_register (pt_nest P)) (dlna_start (pt_upnp P) (pt_hostname P) o')) svc3;
          svc5 = add_opt (map_option mdns_register (mdns_from_opts (pt_quote P) o')) svc4;
          svc6 = add_component engine_workers svc5;
          svc7 = add_component (systemd_register send_notify (Some Watchdog_Loop)) svc6
      in on_shutdown (engine_hook took) (on_reload reload_hook svc7))"

definition run_server ::
  "('s, 'n) host \<Rightarrow> 's world \<Rightarrow> ('s engine \<Rightarrow> nat option) \<Rightarrow> 'r parts \<Rightarrow> server_opts
   \<Rightarrow> 's server_state happening list \<Rightarrow> 's server_state outcome result" where
  "run_server H W took P o' es =
     map_sum id
       (\<lambda>(e, _). run_until_signal (server_service took P o') False es
          \<lparr>se_world = W, se_engine = e, se_sent = []\<rparr>)
       (start H W o')"

section \<open>The hooks of the daemon\<close>

lemma server_hooks:
  "svc_on_ready (server_service took P o') = [send_notify Ready]"
  "svc_on_shutdown (server_service took P o') = [\<lambda>s. Some (0, send_notify Stopping s), engine_hook took]"
  "svc_on_reload (server_service took P o') = [reload_hook]"
  by (simp_all add: server_service_def Let_def builder_defs systemd_register_def dlna_register_def mdns_register_def
      engine_workers_def split: option.splits)

lemma server_stop:
  assumes "took (se_engine s) = Some ms" and "ms \<le> shutdown_deadline"
  shows "stop (server_service took P o') s =
    Stopped True (send_notify Stopping (s\<lparr>se_engine := shutdown (se_world s) (se_engine s)\<rparr>))"
  using assms by (simp add: stop_def server_hooks engine_hook_def)

section \<open>Pieces\<close>

lemma bitv_path_inj:
  assumes "\<not> starts_with x ''/''" and "\<not> starts_with y ''/''"
  shows "bitv_path e x = bitv_path e y \<longleftrightarrow> x = y" and "bitv_tmp e x \<noteq> bitv_path e y"
proof -
  have slash: "starts_with (z @ w) ''/'' = starts_with z ''/''" if "z \<noteq> []" for z w :: string
    using that by (cases z) (auto simp: starts_with_def)
  have dot: "\<not> starts_with (z @ ''.bitv'') ''/''" if "\<not> starts_with z ''/''" for z
    using that slash [of z] by (cases "z = []") (auto simp: starts_with_def)
  have "\<exists>p. \<forall>z. \<not> starts_with z ''/'' \<longrightarrow> path_join base (z @ ''.bitv'') = p @ z @ ''.bitv''" for base
    using dot by (cases "base = [] \<or> ends_with base ''/''")
      (auto simp: path_join_def intro: exI [of _ base] exI [of _ "base @ ''/''"])
  then obtain p where p: "\<And>z. \<not> starts_with z ''/'' \<Longrightarrow> bitv_path e z = p @ z @ ''.bitv''"
    unfolding bitv_path_def by blast
  show "bitv_path e x = bitv_path e y \<longleftrightarrow> x = y" using assms p by simp
  have "last (bitv_tmp e x) \<noteq> last (bitv_path e y)" by (simp add: bitv_tmp_def p assms)
  then show "bitv_tmp e x \<noteq> bitv_path e y" by metis
qed

lemma write_piece_map_disk [simp]: "en_disk_missing (snd (write_piece_map W x b e)) = en_disk_missing e"
  by (auto simp: write_piece_map_def Let_def write_file_def split: sum.splits option.splits)

lemma save_piece_maps_session [simp]:
  "en_session (save_piece_maps W hs e) = en_session e" "en_library (save_piece_maps W hs e) = en_library e"
  "en_opts (save_piece_maps W hs e) = en_opts e" "en_disk_missing (save_piece_maps W hs e) = en_disk_missing e"
  by (induction W hs e rule: save_piece_maps.induct) (simp_all split: option.split)

lemma bitv_path_opts: "en_opts e = en_opts e' \<Longrightarrow> bitv_path e = bitv_path e'"
  by (simp add: bitv_path_def fun_eq_iff)

text \<open>Where nothing keeps the files from being written, every piece map is in its file.\<close>

lemma write_piece_map_files:
  assumes "\<And>p. wd_write_error W p = None"
  shows "en_files (snd (write_piece_map W x b e)) = (en_files e)(bitv_path e x \<mapsto> b, bitv_tmp e x := None)"
  using assms by (auto simp: write_piece_map_def Let_def write_file_def fun_eq_iff)

lemma save_piece_maps_keeps:
  assumes "\<And>p. wd_write_error W p = None" and "\<forall>h \<in> set hs. \<not> starts_with (h_hash h) ''/''"
    and "\<not> starts_with x ''/''" and "x \<notin> h_hash ` set hs"
  shows "en_files (save_piece_maps W hs e) (bitv_path e x) = en_files e (bitv_path e x)"
  using assms(2,4)
proof (induction hs arbitrary: e)
  case (Cons h hs)
  then have "bitv_path e (h_hash h) \<noteq> bitv_path e x" "bitv_tmp e (h_hash h) \<noteq> bitv_path e x"
    using bitv_path_inj [OF _ assms(3), of "h_hash h" e] by auto
  moreover have "en_files (save_piece_maps W hs (snd (write_piece_map W (h_hash h) b e))) (bitv_path e x)
      = en_files (snd (write_piece_map W (h_hash h) b e)) (bitv_path e x)" for b
    using Cons.IH [of "snd (write_piece_map W (h_hash h) b e)"] Cons.prems
      bitv_path_opts [of "snd (write_piece_map W (h_hash h) b e)" e] by simp
  ultimately show ?case
    using Cons by (auto simp: write_piece_map_files [OF assms(1)] split: option.split)
qed simp

lemma save_piece_maps_saved:
  assumes "\<And>p. wd_write_error W p = None" and "\<forall>h \<in> set hs. \<not> starts_with (h_hash h) ''/''"
    and "distinct (map h_hash hs)" and "h \<in> set hs" and "rq_piece_map (wd_rq W) (en_session e) h = Some b"
  shows "en_files (save_piece_maps W hs e) (bitv_path e (h_hash h)) = Some b"
  using assms(2-5)
proof (induction hs arbitrary: e)
  case (Cons g hs)
  define e1 where "e1 = (case rq_piece_map (wd_rq W) (en_session e) g of
      Some b \<Rightarrow> snd (write_piece_map W (h_hash g) b e) | None \<Rightarrow> e)"
  have e1: "en_session e1 = en_session e" "en_opts e1 = en_opts e"
    by (simp_all add: e1_def split: option.split)
  have path: "bitv_path e1 = bitv_path e" by (rule bitv_path_opts [OF e1(2)])
  have "en_files (save_piece_maps W hs e1) (bitv_path e1 (h_hash h)) = Some b"
  proof (cases "h = g")
    case True
    with Cons.prems have "en_files e1 (bitv_path e1 (h_hash h)) = Some b"
      using bitv_path_inj(2) [of "h_hash h" "h_hash h" e]
      by (simp add: path) (simp add: e1_def write_piece_map_files [OF assms(1)])
    then show ?thesis using save_piece_maps_keeps [of W hs "h_hash h" e1, OF assms(1)] Cons.prems True by auto
  next
    case False
    then show ?thesis using Cons e1(1) by auto
  qed
  then show ?case by (simp add: e1_def [symmetric] path)
qed simp

lemma shutdown_store: "store (shutdown W e) = store e"
  by (simp add: shutdown_def Let_def)

lemma shutdown_saves:
  assumes "\<not> is_disk_missing (shutdown W e)" and "\<And>p. wd_write_error W p = None"
    and "distinct (map h_hash (rq_handles (wd_rq W) (en_session (shutdown W e))))"
    and "\<forall>h \<in> set (rq_handles (wd_rq W) (en_session (shutdown W e))). \<not> starts_with (h_hash h) ''/''"
    and "h \<in> set (rq_handles (wd_rq W) (en_session (shutdown W e)))"
    and "rq_piece_map (wd_rq W) (en_session (shutdown W e)) h = Some b"
  shows "en_files (shutdown W e) (bitv_path (shutdown W e) (h_hash h)) = Some b"
proof -
  obtain e1 where e1: "e1 = set_session (rq_stop (wd_rq W) (en_session e)) e" by simp
  have e': "shutdown W e = save_piece_maps W (rq_handles (wd_rq W) (en_session e1)) e1"
    using assms(1) by (auto simp: shutdown_def Let_def e1 is_disk_missing_def)
  have path: "bitv_path (save_piece_maps W hs e1) = bitv_path e1" for hs by (rule bitv_path_opts) simp
  show ?thesis using assms(3-6) unfolding e' path by (intro save_piece_maps_saved [OF assms(2)]) simp_all
qed

section \<open>The life of the daemon\<close>

text \<open>What systemd is told about the life of the process, without the status lines and the watchdog pings.\<close>

definition lifecycle :: "notify_state list \<Rightarrow> notify_state list" where
  "lifecycle msgs = filter (\<lambda>m. m = Ready \<or> m = Stopping) msgs"

text \<open>
  What happens between signals: handlers and background ticks are steps of the engine, the session moves on, the
  world changes, and the status line or the watchdog may report.
\<close>

definition daemon_work :: "'s world set \<Rightarrow> ('s server_state \<Rightarrow> 's server_state) \<Rightarrow> bool" where
  "daemon_work Ws f \<longleftrightarrow>
     (\<forall>s. se_world s \<in> Ws \<longrightarrow>
        se_world (f s) \<in> Ws
        \<and> (\<exists>msgs. se_sent (f s) = se_sent s @ msgs \<and> lifecycle msgs = [])
        \<and> (se_engine (f s) = se_engine s \<or> engine_step (se_world s) (se_engine s) (se_engine (f s))
           \<or> (\<exists>t. drifts (wd_rq (se_world s)) (en_session (se_engine s)) t \<and> se_engine (f s) = set_session t (se_engine s))))"

definition orderly ::
  "('s, 'n) host \<Rightarrow> 's world set \<Rightarrow> server_opts \<Rightarrow> bool \<Rightarrow> 's server_state \<Rightarrow> bool" where
  "orderly H Ws o' ready s \<longleftrightarrow>
     se_world s \<in> Ws \<and> reachable H Ws o' (se_engine s) \<and> lifecycle (se_sent s) = (if ready then [Ready] else [])"

lemma reload_reachable:
  assumes "reachable H Ws o' e" and "W \<in> Ws" shows "reachable H Ws o' (reload_trackers W e)"
proof -
  have refreshed: "reachable H Ws o' (snd (refresh_trackers W e))" using stepped [OF assms step_refresh] .
  then show ?thesis
    using stepped [OF refreshed assms(2) step_reannounce] by (simp add: reload_trackers_def case_prod_beta)
qed

lemma orderly_work:
  assumes "daemon_work Ws f" and "orderly H Ws o' ready s" shows "orderly H Ws o' ready (f s)"
proof -
  have s: "se_world s \<in> Ws" "reachable H Ws o' (se_engine s)" using assms(2) by (simp_all add: orderly_def)
  from assms(1) s(1) have "se_engine (f s) = se_engine s \<or> engine_step (se_world s) (se_engine s) (se_engine (f s))
      \<or> (\<exists>t. drifts (wd_rq (se_world s)) (en_session (se_engine s)) t \<and> se_engine (f s) = set_session t (se_engine s))"
    by (simp add: daemon_work_def)
  then have "reachable H Ws o' (se_engine (f s))"
  proof (elim disjE exE conjE)
    assume "engine_step (se_world s) (se_engine s) (se_engine (f s))"
    then show ?thesis by (rule stepped [OF s(2,1)])
  next
    fix t assume "drifts (wd_rq (se_world s)) (en_session (se_engine s)) t" "se_engine (f s) = set_session t (se_engine s)"
    then show ?thesis using drifted [OF s(2,1)] by simp
  qed (use s in simp)
  moreover from assms(1) s(1) have "se_world (f s) \<in> Ws" by (simp add: daemon_work_def)
  moreover from assms(1) s(1) obtain msgs where "se_sent (f s) = se_sent s @ msgs" "lifecycle msgs = []"
    by (auto simp: daemon_work_def)
  moreover have "lifecycle (se_sent s) = (if ready then [Ready] else [])" using assms(2) by (simp add: orderly_def)
  ultimately show ?thesis by (simp add: orderly_def lifecycle_def)
qed

lemma orderly_hooks:
  "orderly H Ws o' ready s \<Longrightarrow>
    \<exists>s'. run_reload (svc_on_reload (server_service took P o')) s = Some s' \<and> orderly H Ws o' ready s'"
  "orderly H Ws o' False s \<Longrightarrow> orderly H Ws o' True (fold (\<lambda>hook. hook) (svc_on_ready (server_service took P o')) s)"
  by (auto simp: server_hooks reload_hook_def orderly_def reload_reachable send_notify_def lifecycle_def)

interpretation daemon: steady_service "server_service took P o'" "orderly H Ws o'" "daemon_work Ws"
  for took P o' H Ws
  by unfold_locales (rule orderly_hooks orderly_work; assumption)+


lemma status_tick_works: "daemon_work Ws (status_tick S)"
  by (auto simp: daemon_work_def status_tick_def send_notify_def lifecycle_def split: sum.split)

definition example_parts :: "string parts" where
  "example_parts =
     \<lparr>pt_routes = ''api'', pt_shared = id, pt_stremio = (\<lambda>name _. name), pt_dlna_video = ''video'',
      pt_nest = (\<lambda>p r. p @ r), pt_upnp = (\<lambda>_. Inr None), pt_hostname = ''box'', pt_quote = id\<rparr>"


end
