(* ===== verification/Tmdb_Client.thy ===== *)
theory Tmdb_Client
  imports Engine_Add
begin

text \<open>
  The \<open>tmdb\<close> crate: from an IMDb id to the details of a movie. The HTTP client is the parameter \<open>send\<close>, which
  gives the status and the body that is read; the derived deserialisation of the two answers is the
  parameters \<open>read_find\<close> and \<open>read_details\<close>, and \<open>show_status\<close> prints a status code.
\<close>

datatype tmdb_auth = Bearer string | Api_Key string

record tmdb_client =
  td_base :: string
  td_auth :: tmdb_auth

record movie_details =
  md_title :: "string option"
  md_original_title :: "string option"
  md_release_date :: "string option"
  md_overview :: "string option"
  md_poster_path :: "string option"
  md_backdrop_path :: "string option"
  md_runtime :: "i64 option"
  md_genres :: "string list"
  md_vote_average :: "rat option"

definition opt_filter :: "('a \<Rightarrow> bool) \<Rightarrow> 'a option \<Rightarrow> 'a option" where
  "opt_filter P v = (case v of Some a \<Rightarrow> if P a then Some a else None | None \<Rightarrow> None)"

definition image_base :: string where
  "image_base = ''https://image.tmdb.org/t/p''"

definition image_url :: "string option \<Rightarrow> string \<Rightarrow> string option" where
  "image_url path width = map_option (\<lambda>p. image_base @ ''/'' @ width @ p) (opt_filter (\<lambda>p. p \<noteq> []) path)"

text \<open>\<open>d.get(..4)\<close> asks for four bytes that end at a character; \<open>parse\<close> reads an \<open>i32\<close>.\<close>

definition first_four :: "string \<Rightarrow> string option" where
  "first_four d =
     (if length d < 4 then None
      else if length d = 4 \<or> (of_char (d ! 4) :: nat) < 0x80 \<or> 0xC0 \<le> (of_char (d ! 4) :: nat)
      then Some (take 4 d) else None)"

definition parse_i32 :: "string \<Rightarrow> 32 word option" where
  "parse_i32 s =
     (let neg = starts_with s ''-''; d = (if neg \<or> starts_with s ''+'' then tl s else s)
      in if d \<noteq> [] \<and> list_all is_ascii_digit d \<and> digits_val d < 2 ^ 31 + (if neg then 1 else 0)
         then Some (if neg then - of_nat (digits_val d) else of_nat (digits_val d)) else None)"

definition into_movie :: "movie_details \<Rightarrow> i64 \<Rightarrow> string \<Rightarrow> tmdb_movie" where
  "into_movie d id' raw =
     \<lparr>tm_tmdb_id = id',
      tm_title =
        (case opt_filter (\<lambda>t. t \<noteq> [])
                (case md_title d of Some t \<Rightarrow> Some t | None \<Rightarrow> md_original_title d) of
           Some t \<Rightarrow> t | None \<Rightarrow> ''TMDB '' @ show_i64 id'),
      tm_year = Option.bind (md_release_date d) (\<lambda>r. Option.bind (first_four r) parse_i32),
      tm_overview = opt_filter (\<lambda>o'. o' \<noteq> []) (md_overview d),
      tm_poster_url = image_url (md_poster_path d) ''w500'',
      tm_backdrop_url = image_url (md_backdrop_path d) ''w1280'',
      tm_runtime_min = opt_filter (\<lambda>r. i64_lt 0 r) (md_runtime d),
      tm_genres = md_genres d,
      tm_rating = opt_filter (\<lambda>r. 0 < r) (md_vote_average d),
      tm_raw = raw\<rparr>"

section \<open>Requests\<close>

definition tmdb_new :: "bool \<Rightarrow> string \<Rightarrow> string option \<Rightarrow> string option \<Rightarrow> tmdb_client option" where
  "tmdb_new client_builds base_url token api_key =
     (let auth = (case opt_filter (\<lambda>s. s \<noteq> []) token of
                    Some t \<Rightarrow> Some (Bearer t)
                  | None \<Rightarrow> map_option Api_Key (opt_filter (\<lambda>s. s \<noteq> []) api_key))
      in case auth of
           None \<Rightarrow> None
         | Some a \<Rightarrow> if client_builds then Some \<lparr>td_base = trim_end_char CHR ''/'' base_url, td_auth = a\<rparr> else None)"

record tmdb_request =
  tq_url :: string
  tq_query :: "(string \<times> string) list"
  tq_bearer :: "string option"

record tmdb_http =
  th_send :: "tmdb_request \<Rightarrow> (nat \<times> string result) result"
  th_show_status :: "nat \<Rightarrow> string"
  th_read_find :: "string \<Rightarrow> i64 list result"
  th_read_details :: "string \<Rightarrow> movie_details result"

definition tmdb_request_for :: "tmdb_client \<Rightarrow> string \<Rightarrow> (string \<times> string) list \<Rightarrow> tmdb_request" where
  "tmdb_request_for t path query =
     \<lparr>tq_url = td_base t @ path,
      tq_query = query @ (case td_auth t of Bearer _ \<Rightarrow> [] | Api_Key k \<Rightarrow> [(''api_key'', k)]),
      tq_bearer = (case td_auth t of Bearer b \<Rightarrow> Some b | Api_Key _ \<Rightarrow> None)\<rparr>"

definition get_body :: "tmdb_http \<Rightarrow> tmdb_client \<Rightarrow> string \<Rightarrow> (string \<times> string) list \<Rightarrow> string result" where
  "get_body H t path query =
     (let url = td_base t @ path
      in case with_context (''TMDB request '' @ url) (th_send H (tmdb_request_for t path query)) of
           Inl e \<Rightarrow> Inl e
         | Inr (code, text') \<Rightarrow>
             (case with_context (''reading TMDB '' @ url) text' of
                Inl e \<Rightarrow> Inl e
              | Inr body \<Rightarrow>
                  if 200 \<le> code \<and> code < 300 then Inr body
                  else Inl (bail (''TMDB '' @ url @ '' returned '' @ th_show_status H code @ '': '' @ body))))"

definition find_by_imdb :: "tmdb_http \<Rightarrow> tmdb_client \<Rightarrow> string \<Rightarrow> tmdb_movie result" where
  "find_by_imdb H t imdb =
     (let path = ''/find/'' @ imdb
      in case result_bind (get_body H t path [(''external_source'', ''imdb_id'')])
                (\<lambda>body. with_context (''TMDB '' @ path @ '': unexpected JSON'') (th_read_find H body)) of
           Inl e \<Rightarrow> Inl e
         | Inr [] \<Rightarrow> Inl (bail (''TMDB has no movie for '' @ imdb))
         | Inr (id' # _) \<Rightarrow>
             (case get_body H t (''/movie/'' @ show_i64 id') [] of
                Inl e \<Rightarrow> Inl e
              | Inr raw \<Rightarrow>
                  map_sum id (\<lambda>d. into_movie d id' raw)
                    (with_context (''TMDB movie '' @ show_i64 id' @ '': unexpected JSON'') (th_read_details H raw))))"

text \<open>What the engine is given, as \<open>Engine::start\<close> makes it from the options.\<close>

definition engine_tmdb :: "tmdb_http \<Rightarrow> server_opts \<Rightarrow> (string \<Rightarrow> tmdb_movie result) option" where
  "engine_tmdb H o' =
     map_option (find_by_imdb H) (tmdb_new True (so_tmdb_base_url o') (so_tmdb_token o') (so_tmdb_api_key o'))"

section \<open>What a lookup gives\<close>

lemma map_sum_Inr: "map_sum id f r = Inr b \<longleftrightarrow> (\<exists>a. r = Inr a \<and> b = f a)"
  by (cases r) auto

lemma get_body_ok:
  "get_body H t path query = Inr body \<longleftrightarrow>
    (\<exists>code. th_send H (tmdb_request_for t path query) = Inr (code, Inr body) \<and> 200 \<le> code \<and> code < 300)"
  by (auto simp: get_body_def Let_def split: sum.splits prod.splits)

lemma find_by_imdb_ok:
  assumes "find_by_imdb H t imdb = Inr m"
  obtains found id' ids raw d where
    "get_body H t (''/find/'' @ imdb) [(''external_source'', ''imdb_id'')] = Inr found"
    and "th_read_find H found = Inr (id' # ids)" and "get_body H t (''/movie/'' @ show_i64 id') [] = Inr raw"
    and "th_read_details H raw = Inr d" and "m = into_movie d id' raw"
  using assms
  by (auto simp: find_by_imdb_def Let_def map_sum_Inr split: sum.splits list.splits)

lemma into_movie_title: "tm_title (into_movie d i raw) \<noteq> []"
  by (auto simp: into_movie_def opt_filter_def split: option.splits)

lemma into_movie_runtime: "tm_runtime_min (into_movie d i raw) = Some r \<Longrightarrow> i64_lt 0 r"
  by (auto simp: into_movie_def opt_filter_def split: option.splits if_splits)

text \<open>C27: A movie is catalogued with what TMDB said. When the engine finds a movie by its IMDb id, it has a title; and
  with credentials configured, two successful requests were made, both with the same credentials, the id is
  the first that TMDB found for the IMDb id, and the text stored with the movie is the body of the second answer,
  byte for byte.\<close>

theorem found_movies_are_complete:
  assumes "wd_tmdb W = engine_tmdb H o'" and "find_movie W imdb = Inr (m, raw)" and "imdb \<noteq> []"
  shows "title m \<noteq> [] \<and> imdb_id m = imdb
    \<and> (case tmdb_new True (so_tmdb_base_url o') (so_tmdb_token o') (so_tmdb_api_key o') of
         None \<Rightarrow> raw = None \<and> tmdb_id m = None
       | Some t \<Rightarrow> \<exists>found id' ids body c1 c2.
           th_send H (tmdb_request_for t (''/find/'' @ imdb) [(''external_source'', ''imdb_id'')]) = Inr (c1, Inr found)
           \<and> th_read_find H found = Inr (id' # ids)
           \<and> th_send H (tmdb_request_for t (''/movie/'' @ show_i64 id') []) = Inr (c2, Inr body)
           \<and> {c1, c2} \<subseteq> {200..<300} \<and> raw = Some body \<and> tmdb_id m = Some id')"
proof (cases "tmdb_new True (so_tmdb_base_url o') (so_tmdb_token o') (so_tmdb_api_key o')")
  case None
  with assms show ?thesis by (auto simp: engine_tmdb_def find_movie_def bare_movie_def)
next
  case (Some t)
  then obtain v where v: "find_by_imdb H t imdb = Inr v" and m: "m = movie_from_tmdb imdb (wd_now W) v" "raw = Some (tm_raw v)"
    using assms(1,2) by (auto simp: engine_tmdb_def find_movie_def split: sum.splits)
  from v show ?thesis
  proof (cases rule: find_by_imdb_ok)
    case (1 found id' ids body d)
    obtain c1 c2 where "th_send H (tmdb_request_for t (''/find/'' @ imdb) [(''external_source'', ''imdb_id'')]) = Inr (c1, Inr found)"
        "th_send H (tmdb_request_for t (''/movie/'' @ show_i64 id') []) = Inr (c2, Inr body)"
        "{c1, c2} \<subseteq> {200..<300}"
      using 1(1,3) by (auto simp: get_body_ok)
    with 1(2,5) m into_movie_title show ?thesis
      by (auto simp: Some movie_from_tmdb_def) (auto simp: into_movie_def)
  qed
qed

text \<open>A service that knows one movie, and the engine's parameters with it.\<close>

definition example_details :: movie_details where
  "example_details =
     \<lparr>md_title = None, md_original_title = Some ''Untitled'', md_release_date = Some ''1994-09-23'',
      md_overview = Some [], md_poster_path = Some ''/p.jpg'', md_backdrop_path = None, md_runtime = Some 0,
      md_genres = [''Drama''], md_vote_average = None\<rparr>"

definition example_http :: tmdb_http where
  "example_http =
     \<lparr>th_send = (\<lambda>q. Inr (200, Inr (tq_url q))), th_show_status = (\<lambda>_. ''200 OK''),
      th_read_find = (\<lambda>_. Inr [278]), th_read_details = (\<lambda>_. Inr example_details)\<rparr>"

definition keyed_opts :: server_opts where
  "keyed_opts = (default_server_opts 100)\<lparr>so_tmdb_api_key := Some ''k''\<rparr>"

lemma release_year: "Option.bind (first_four ''1994-09-23'') parse_i32 = Some 1994"
  by (simp add: first_four_def parse_i32_def Let_def starts_with_def is_ascii_digit_def digits_val_def digit_val_def)

theorem found_movies_are_complete_witness:
  "\<exists>m raw. find_movie ((example_world 300)\<lparr>wd_tmdb := engine_tmdb example_http keyed_opts\<rparr>) ''tt0111161'' = Inr (m, raw)
     \<and> title m \<noteq> [] \<and> tmdb_id m = Some 278"
proof -
  obtain W where W: "W = (example_world 300)\<lparr>wd_tmdb := engine_tmdb example_http keyed_opts\<rparr>" by simp
  obtain t where t: "tmdb_new True (so_tmdb_base_url keyed_opts) (so_tmdb_token keyed_opts) (so_tmdb_api_key keyed_opts) = Some t"
    by (simp add: tmdb_new_def opt_filter_def keyed_opts_def default_server_opts_def)
  have tmdb: "wd_tmdb W = engine_tmdb example_http keyed_opts" by (simp add: W)
  have body: "get_body example_http t p q = Inr (td_base t @ p)" for p q
    by (simp add: get_body_ok) (simp add: example_http_def tmdb_request_for_def)
  have answers: "th_read_find example_http b = Inr [278]" "th_read_details example_http b = Inr example_details" for b
    by (simp_all add: example_http_def)
  have "\<exists>v. find_by_imdb example_http t ''tt0111161'' = Inr v"
    by (simp add: find_by_imdb_def Let_def body answers result_bind_def)
  then obtain m raw where m: "find_movie W ''tt0111161'' = Inr (m, raw)"
    by (auto simp: find_movie_def tmdb engine_tmdb_def t)
  from found_movies_are_complete [OF tmdb m] show ?thesis
    by (intro exI [of _ m] exI [of _ raw]) (auto simp: m [unfolded W] t answers)
qed

end
