(* ===== verification/Gauges.thy ===== *)
theory Gauges
  imports Engine_Views
begin

text \<open>
  \<open>engine/metrics/observe.rs\<close>: what a scrape of \<open>/metrics\<close> reads from the engine. The instruments are
  a list of names, help texts and functions from one scrape to samples; their registration with
  OpenTelemetry is the library's work. A scrape sees the cached snapshot of the engine, the disk flag and the
  process files of \<open>/proc\<close>. Numbers that the code converts to \<open>f64\<close> are rounded by \<open>f64_of_nat\<close>.
\<close>

section \<open>The snapshot\<close>

record peer_totals =
  pt_queued :: u32
  pt_connecting :: u32
  pt_live :: u32
  pt_seen :: u32
  pt_dead :: u32
  pt_not_needed :: u32
  pt_live_tcp :: u32
  pt_live_utp :: u32
  pt_live_socks :: u32
  pt_steals :: u32

record conn_stats =
  cn_attempts :: u64
  cn_successes :: u64
  cn_errors :: u64

text \<open>\<open>stats_snapshot\<close> of the session; the connections by transport, for IPv4 and for IPv6.\<close>

record session_totals =
  st_fetched_bytes :: u64
  st_uploaded_bytes :: u64
  st_download_bps :: u64
  st_upload_bps :: u64
  st_peer_totals :: peer_totals
  st_connections :: "(string \<times> conn_stats \<times> conn_stats) list"

record cached =
  ca_status :: status_view
  ca_facts :: "torrent_report list"
  ca_fetched_bytes :: u64
  ca_uploaded_bytes :: u64
  ca_download_bps :: u64
  ca_upload_bps :: u64
  ca_peers :: "(string \<times> u64) list"
  ca_peers_live :: "(string \<times> u64) list"
  ca_steals :: u64
  ca_connections :: "(string \<times> string \<times> string \<times> u64) list"
  ca_dht :: "(u64 \<times> u64 \<times> u64) option"
  ca_trackers_enabled :: bool
  ca_trackers_active :: "(string \<times> nat) list"
  ca_tracker_list_age :: "i64 option"
  ca_tracker_rejected :: nat
  ca_tracker_deduplicated :: nat
  ca_tracker_sources :: "(string \<times> bool \<times> nat) list"

definition no_session_report :: session_report where
  "no_session_report =
     \<lparr>sv_download_bps = 0, sv_upload_bps = 0, sv_download_limit = None, sv_upload_limit = None,
      sv_queued = 0, sv_peers_live = 0, sv_uptime_secs = 0, sv_torrents = 0, sv_listen_addr = None\<rparr>"

definition no_budget_view :: budget_view where
  "no_budget_view =
     \<lparr>bv_limit = 0, bv_used = 0, bv_min_free = 0, bv_disk_free = 0, bv_disk_total = 0, bv_next_eviction = None\<rparr>"

definition status_or_blank :: "'s world \<Rightarrow> 's swarm \<Rightarrow> 's engine \<Rightarrow> status_view" where
  "status_or_blank W S e =
     (case status W S e of
        Inr st \<Rightarrow> st
      | Inl _ \<Rightarrow>
          \<lparr>vw_pause = pause_view W e, vw_version = sw_version S, vw_hostname = [], vw_warnings = [],
           vw_budget = no_budget_view, vw_session = no_session_report, vw_movies = [], vw_events = []\<rparr>)"

definition connection_rows ::
  "(string \<times> conn_stats \<times> conn_stats) list \<Rightarrow> (string \<times> string \<times> string \<times> u64) list" where
  "connection_rows conns =
     concat (map (\<lambda>(transport, v4, v6).
       concat (map (\<lambda>(family, st).
         [(transport, family, ''attempt'', cn_attempts st), (transport, family, ''success'', cn_successes st),
          (transport, family, ''error'', cn_errors st)]) [(''v4'', v4), (''v6'', v6)])) conns)"

text \<open>What comes before the first \<open>://\<close>, or everything.\<close>

fun before_scheme_end :: "string \<Rightarrow> string" where
  "before_scheme_end [] = []"
| "before_scheme_end (c # s) = (if starts_with (c # s) ''://'' then [] else c # before_scheme_end s)"

definition source_up :: "source_status \<Rightarrow> bool" where
  "source_up s \<longleftrightarrow> ss_enabled s \<and> ss_last_error s = None \<and> ss_last_ok_at s \<noteq> None"

definition snapshot_compute ::
  "'s world \<Rightarrow> 's swarm \<Rightarrow> ('s \<Rightarrow> session_totals) \<Rightarrow> 's engine \<Rightarrow> cached" where
  "snapshot_compute W S totals e =
     (let t = totals (en_session e); p = st_peer_totals t; feed = tf_state (en_trackers e)
      in \<lparr>ca_status = status_or_blank W S e, ca_facts = torrent_facts W S e,
          ca_fetched_bytes = st_fetched_bytes t, ca_uploaded_bytes = st_uploaded_bytes t,
          ca_download_bps = st_download_bps t, ca_upload_bps = st_upload_bps t,
          ca_peers = [(''queued'', ucast (pt_queued p)), (''connecting'', ucast (pt_connecting p)),
            (''live'', ucast (pt_live p)), (''seen'', ucast (pt_seen p)), (''dead'', ucast (pt_dead p)),
            (''not_needed'', ucast (pt_not_needed p))],
          ca_peers_live = [(''tcp'', ucast (pt_live_tcp p)), (''utp'', ucast (pt_live_utp p)),
            (''socks'', ucast (pt_live_socks p))],
          ca_steals = ucast (pt_steals p), ca_connections = connection_rows (st_connections t),
          ca_dht = dht_stats S e, ca_trackers_enabled = tc_enabled (tf_config (en_trackers e)),
          ca_trackers_active =
            count_by_name (map before_scheme_end (current (wd_url_parse W) (wd_now W) (en_trackers e))),
          ca_tracker_list_age = map_option (\<lambda>ts. wd_now W - ts) (ts_updated_at feed),
          ca_tracker_rejected = ts_rejected feed, ca_tracker_deduplicated = ts_deduplicated feed,
          ca_tracker_sources = map (\<lambda>s. (ss_name s, source_up s, ss_accepted s)) (ts_sources feed)\<rparr>)"

text \<open>One computation serves every callback of a scrape; times are nanoseconds of a monotonic clock.\<close>

definition snapshot_ttl :: nat where
  "snapshot_ttl = 250 * 10 ^ 6"

definition snapshot_get :: "(unit \<Rightarrow> 'c) \<Rightarrow> nat \<Rightarrow> (nat \<times> 'c) option \<Rightarrow> 'c \<times> (nat \<times> 'c) option" where
  "snapshot_get compute now cache =
     (case cache of
        Some (since, c) \<Rightarrow> if now - since < snapshot_ttl then (c, cache) else (compute (), Some (now, compute ()))
      | None \<Rightarrow> (compute (), Some (now, compute ())))"

section \<open>Instruments\<close>

datatype sample_value =
    Float int
  | Ratio nat nat
  | Seconds duration
  | Whole u64

type_synonym labels = "(string \<times> string) list"

datatype instrument_kind = Gauge | Counter

record scrape =
  sc_data :: cached
  sc_disk_missing :: bool
  sc_proc_status :: "string option"
  sc_open_fds :: "nat option"

record instrument =
  in_kind :: instrument_kind
  in_name :: string
  in_help :: string
  in_observe :: "scrape \<Rightarrow> (labels \<times> sample_value) list"

definition push_gauge :: "string \<Rightarrow> string \<Rightarrow> (scrape \<Rightarrow> (labels \<times> sample_value) list) \<Rightarrow> instrument" where
  "push_gauge name help f = \<lparr>in_kind = Gauge, in_name = name, in_help = help, in_observe = f\<rparr>"

definition push_counter :: "string \<Rightarrow> string \<Rightarrow> (scrape \<Rightarrow> (labels \<times> sample_value) list) \<Rightarrow> instrument" where
  "push_counter name help f = \<lparr>in_kind = Counter, in_name = name, in_help = help, in_observe = f\<rparr>"

definition of_count :: "nat \<Rightarrow> sample_value" where
  "of_count n = Float (int (f64_of_nat n))"

definition of_u64 :: "u64 \<Rightarrow> sample_value" where
  "of_u64 n = of_count (unat n)"

definition of_i64 :: "i64 \<Rightarrow> sample_value" where
  "of_i64 n = Float (sgn (sint n) * int (f64_of_nat (nat \<bar>sint n\<bar>)))"

definition of_flag :: "bool \<Rightarrow> sample_value" where
  "of_flag b = Float (if b then 1 else 0)"

definition show_bool :: "bool \<Rightarrow> string" where
  "show_bool b = (if b then ''true'' else ''false'')"

text \<open>One sample without labels.\<close>

definition plain :: "(cached \<Rightarrow> sample_value) \<Rightarrow> scrape \<Rightarrow> (labels \<times> sample_value) list" where
  "plain f sc = [([], f (sc_data sc))]"

definition global_gauges :: "server_opts \<Rightarrow> instrument list" where
  "global_gauges o' =
     [push_gauge ''tornas_uptime_seconds'' ''Seconds since the server started''
        (plain (\<lambda>d. of_u64 (sv_uptime_secs (vw_session (ca_status d))))),
      push_gauge ''tornas_paused'' ''1 while everything is paused''
        (plain (\<lambda>d. of_flag (pv_paused (vw_pause (ca_status d))))),
      push_gauge ''tornas_paused_for_missing_disk'' ''1 while paused because the data disk is missing''
        (plain (\<lambda>d. of_flag (pv_reason (vw_pause (ca_status d)) = Some DiskMissing))),
      push_gauge ''tornas_data_disk_mounted''
        ''0 while the data disk is missing (only watched with --require-mount)''
        (\<lambda>sc. [([], of_flag (\<not> sc_disk_missing sc))]),
      push_gauge ''tornas_queued_downloads'' ''Downloads held back by --max-active-downloads''
        (plain (\<lambda>d. of_count (sv_queued (vw_session (ca_status d)))))]
     @ (case so_max_active_downloads o' of
          Some most \<Rightarrow>
            [push_gauge ''tornas_max_active_downloads'' ''Configured download queue size''
               (\<lambda>_. [([], of_count (unat most))])]
        | None \<Rightarrow> [])
     @ [push_gauge ''tornas_ratelimit_download_bytes_per_second''
          ''Global download limit in force; 0 = unlimited''
          (plain (\<lambda>d. of_count (case sv_download_limit (vw_session (ca_status d)) of Some n \<Rightarrow> unat n | None \<Rightarrow> 0))),
        push_gauge ''tornas_ratelimit_upload_bytes_per_second''
          ''Global upload limit in force; 0 = unlimited''
          (plain (\<lambda>d. of_count (case sv_upload_limit (vw_session (ca_status d)) of Some n \<Rightarrow> unat n | None \<Rightarrow> 0))),
        push_gauge ''tornas_peer_limit'' ''Default peers per torrent''
          (\<lambda>_. [([], of_count (unat (so_peer_limit o')))]),
        push_gauge ''tornas_concurrent_checks'' ''Torrents allowed to hash-check at once''
          (\<lambda>_. [([], of_count (unat (so_concurrent_checks o')))]),
        push_gauge ''tornas_pause_remaining_seconds'' ''Seconds until the pause lifts on its own, or -1''
          (plain (\<lambda>d. of_i64 (case pv_remaining_secs (vw_pause (ca_status d)) of Some s \<Rightarrow> s | None \<Rightarrow> -1)))]"

definition disk_gauges :: "instrument list" where
  "disk_gauges =
     [push_gauge ''tornas_budget_limit_bytes'' ''Configured disk budget''
        (plain (\<lambda>d. of_u64 (bv_limit (vw_budget (ca_status d))))),
      push_gauge ''tornas_budget_used_bytes'' ''Bytes charged to the budget''
        (plain (\<lambda>d. of_u64 (bv_used (vw_budget (ca_status d))))),
      push_gauge ''tornas_budget_min_free_bytes'' ''Configured minimum free disk''
        (plain (\<lambda>d. of_u64 (bv_min_free (vw_budget (ca_status d))))),
      push_gauge ''tornas_disk_free_bytes'' ''Free bytes on the torrents filesystem''
        (plain (\<lambda>d. of_u64 (bv_disk_free (vw_budget (ca_status d))))),
      push_gauge ''tornas_disk_total_bytes'' ''Size of the torrents filesystem''
        (plain (\<lambda>d. of_u64 (bv_disk_total (vw_budget (ca_status d))))),
      push_gauge ''tornas_disk_below_min_free'' ''1 when free disk is under the configured minimum''
        (plain (\<lambda>d. of_flag (bv_disk_free (vw_budget (ca_status d)) < bv_min_free (vw_budget (ca_status d))))),
      push_gauge ''tornas_warnings'' ''Active operational warnings''
        (plain (\<lambda>d. of_count (length (vw_warnings (ca_status d)))))]"

definition torrent_states :: "string list" where
  "torrent_states = [''checking'', ''downloading'', ''seeding'', ''done'', ''paused'', ''error'']"

definition library_gauges :: "instrument list" where
  "library_gauges =
     [push_gauge ''tornas_movies'' ''Movies in the library''
        (plain (\<lambda>d. of_count (length (vw_movies (ca_status d))))),
      push_gauge ''tornas_movies_protected'' ''Movies inside the stream grace window, not evictable''
        (plain (\<lambda>d. of_count (length (filter mv_protected (vw_movies (ca_status d)))))),
      push_gauge ''tornas_torrents'' ''Loaded torrents, by BEP 27 private flag''
        (\<lambda>sc. map (\<lambda>p. ([(''private'', show_bool p)],
             of_count (length (filter (\<lambda>f. tr_private f = p) (ca_facts (sc_data sc)))))) [True, False]),
      push_gauge ''tornas_torrents_size_bytes'' ''Whole-torrent size of loaded torrents, by private flag''
        (\<lambda>sc. map (\<lambda>p. ([(''private'', show_bool p)],
             of_u64 (sum_list (map tr_size_bytes (filter (\<lambda>f. tr_private f = p) (ca_facts (sc_data sc)))))))
             [True, False]),
      push_gauge ''tornas_torrents_by_state'' ''Loaded torrents by state''
        (\<lambda>sc. map (\<lambda>st. ([(''state'', st)],
             of_count (length (filter (\<lambda>f. tr_state f = st) (ca_facts (sc_data sc)))))) torrent_states)]"

section \<open>Per torrent\<close>

definition id_label :: "torrent_report \<Rightarrow> string \<times> string" where
  "id_label f = (''imdb_id'', tr_imdb_id f)"

definition torrent_info_gauge :: instrument where
  "torrent_info_gauge =
     push_gauge ''tornas_torrent_info'' ''Descriptive labels for a torrent; always 1. Join on imdb_id.''
       (\<lambda>sc. map (\<lambda>f. ([id_label f, (''info_hash'', tr_info_hash f), (''title'', tr_title f),
            (''state'', tr_state f), (''private'', show_bool (tr_private f))], Float 1)) (ca_facts (sc_data sc)))"

definition progress_ratio :: "torrent_report \<Rightarrow> sample_value" where
  "progress_ratio f =
     (if tr_selected_bytes f = 0 then Float 0
      else case f64_div (f64_of_nat (unat (tr_progress_bytes f))) (f64_of_nat (unat (tr_selected_bytes f))) of
             (p, q) \<Rightarrow> Ratio p q)"

definition per_torrent :: "(string \<times> string \<times> (torrent_report \<Rightarrow> sample_value)) list" where
  "per_torrent =
     [(''tornas_torrent_size_bytes'', ''Size of all files in the torrent'', \<lambda>f. of_u64 (tr_size_bytes f)),
      (''tornas_torrent_selected_bytes'', ''Bytes selected for download'', \<lambda>f. of_u64 (tr_selected_bytes f)),
      (''tornas_torrent_progress_bytes'', ''Verified bytes of the selection on disk'',
        \<lambda>f. of_u64 (tr_progress_bytes f)),
      (''tornas_torrent_progress_ratio'', ''Download progress of the selection, 0..1'', progress_ratio),
      (''tornas_torrent_piece_length_bytes'', ''Piece size'', \<lambda>f. of_u64 (tr_piece_length f)),
      (''tornas_torrent_pieces'', ''Pieces in the whole torrent'', \<lambda>f. of_u64 (tr_pieces f)),
      (''tornas_torrent_pieces_verified'', ''Pieces downloaded and hash-checked this session'',
        \<lambda>f. of_u64 (tr_pieces_verified f)),
      (''tornas_torrent_files'', ''Files in the torrent'', \<lambda>f. of_u64 (tr_files f)),
      (''tornas_torrent_download_bytes_per_second'', ''Current download rate'', \<lambda>f. of_u64 (tr_download_bps f)),
      (''tornas_torrent_upload_bytes_per_second'', ''Current upload rate'', \<lambda>f. of_u64 (tr_upload_bps f)),
      (''tornas_torrent_idle_seconds'', ''Seconds since last streamed or added'', \<lambda>f. of_i64 (tr_idle_secs f))]"

definition per_torrent_gauges :: "instrument list" where
  "per_torrent_gauges =
     map (\<lambda>(name, help, get). push_gauge name help (\<lambda>sc. map (\<lambda>f. ([id_label f], get f)) (ca_facts (sc_data sc))))
       per_torrent"

definition transfer_instruments :: "instrument list" where
  "transfer_instruments =
     [push_counter ''tornas_torrent_fetched_bytes_total''
        ''Bytes received from peers this session, including discarded''
        (\<lambda>sc. map (\<lambda>f. ([id_label f], Whole (tr_fetched_bytes f))) (ca_facts (sc_data sc))),
      push_counter ''tornas_torrent_uploaded_bytes_total'' ''Bytes sent to peers this session''
        (\<lambda>sc. map (\<lambda>f. ([id_label f], Whole (tr_uploaded_bytes f))) (ca_facts (sc_data sc))),
      push_gauge ''tornas_torrent_piece_download_seconds'' ''Average time to download one piece''
        (\<lambda>sc. List.map_filter (\<lambda>f. map_option (\<lambda>s. ([id_label f], Seconds s)) (tr_piece_download_avg f))
           (ca_facts (sc_data sc))),
      push_gauge ''tornas_torrent_eta_seconds'' ''Estimated seconds to finish at the current rate''
        (\<lambda>sc. List.map_filter (\<lambda>f. map_option (\<lambda>s. ([id_label f], of_u64 s)) (tr_eta_secs f))
           (ca_facts (sc_data sc)))]"

definition torrent_peer_gauges :: "instrument list" where
  "torrent_peer_gauges =
     [push_gauge ''tornas_torrent_peers'' ''Peers known to a torrent, by state''
        (\<lambda>sc. concat (map (\<lambda>f. map (\<lambda>(st, n). ([id_label f, (''state'', st)], of_u64 n)) (tr_peers f))
           (ca_facts (sc_data sc)))),
      push_gauge ''tornas_torrent_peers_live'' ''Connected peers of a torrent, by transport''
        (\<lambda>sc. concat (map (\<lambda>f. map (\<lambda>(tp, n). ([id_label f, (''transport'', tp)], of_u64 n))
           (tr_peers_live_by_transport f)) (ca_facts (sc_data sc)))),
      push_gauge ''tornas_torrent_trackers'' ''Trackers attached to a torrent, by URL scheme''
        (\<lambda>sc. concat (map (\<lambda>f. map (\<lambda>(sch, n). ([id_label f, (''scheme'', sch)], of_count n))
           (tr_trackers_by_scheme f)) (ca_facts (sc_data sc))))]"

section \<open>The session, the DHT, the trackers and the process\<close>

definition session_instruments :: "instrument list" where
  "session_instruments =
     [push_counter ''tornas_fetched_bytes_total'' ''Bytes received from peers across all torrents''
        (plain (\<lambda>d. Whole (ca_fetched_bytes d))),
      push_counter ''tornas_uploaded_bytes_total'' ''Bytes sent to peers across all torrents''
        (plain (\<lambda>d. Whole (ca_uploaded_bytes d))),
      push_gauge ''tornas_download_bytes_per_second'' ''Aggregate download rate''
        (plain (\<lambda>d. of_u64 (ca_download_bps d))),
      push_gauge ''tornas_upload_bytes_per_second'' ''Aggregate upload rate''
        (plain (\<lambda>d. of_u64 (ca_upload_bps d))),
      push_gauge ''tornas_peers'' ''Peers across all torrents, by state''
        (\<lambda>sc. map (\<lambda>(st, n). ([(''state'', st)], of_u64 n)) (ca_peers (sc_data sc))),
      push_gauge ''tornas_peers_live'' ''Connected peers across all torrents, by transport''
        (\<lambda>sc. map (\<lambda>(tp, n). ([(''transport'', tp)], of_u64 n)) (ca_peers_live (sc_data sc))),
      push_counter ''tornas_peer_steals_total'' ''Pieces reassigned from a slow peer to a faster one''
        (plain (\<lambda>d. Whole (ca_steals d))),
      push_counter ''tornas_peer_connections_total''
        ''Outgoing peer connection attempts and outcome, by transport and address family''
        (\<lambda>sc. map (\<lambda>(tp, family, outcome, n).
           ([(''transport'', tp), (''family'', family), (''outcome'', outcome)], Whole n))
           (ca_connections (sc_data sc)))]"

definition dht_gauges :: "instrument list" where
  "dht_gauges =
     [push_gauge ''tornas_dht_enabled'' ''1 when the DHT is running''
        (plain (\<lambda>d. of_flag (ca_dht d \<noteq> None))),
      push_gauge ''tornas_dht_nodes'' ''Nodes in the DHT routing table, by address family''
        (\<lambda>sc. case ca_dht (sc_data sc) of
           Some (v4, v6, _) \<Rightarrow> [([(''family'', ''v4'')], of_u64 v4), ([(''family'', ''v6'')], of_u64 v6)]
         | None \<Rightarrow> []),
      push_gauge ''tornas_dht_outstanding_requests'' ''DHT queries awaiting a reply''
        (\<lambda>sc. case ca_dht (sc_data sc) of Some (_, _, out) \<Rightarrow> [([], of_u64 out)] | None \<Rightarrow> [])]"

definition tracker_gauges :: "instrument list" where
  "tracker_gauges =
     [push_gauge ''tornas_trackers_enabled'' ''1 when the public tracker feed is on''
        (plain (\<lambda>d. of_flag (ca_trackers_enabled d))),
      push_gauge ''tornas_trackers_active'' ''Public trackers currently handed to new torrents, by URL scheme''
        (\<lambda>sc. map (\<lambda>(sch, n). ([(''scheme'', sch)], of_count n)) (ca_trackers_active (sc_data sc))),
      push_gauge ''tornas_tracker_list_age_seconds''
        ''Seconds since the tracker list was last refreshed successfully, or -1''
        (plain (\<lambda>d. of_i64 (case ca_tracker_list_age d of Some s \<Rightarrow> s | None \<Rightarrow> -1))),
      push_gauge ''tornas_tracker_list_rejected'' ''Entries dropped in the last refresh''
        (plain (\<lambda>d. of_count (ca_tracker_rejected d))),
      push_gauge ''tornas_tracker_list_deduplicated'' ''Duplicates collapsed in the last refresh''
        (plain (\<lambda>d. of_count (ca_tracker_deduplicated d))),
      push_gauge ''tornas_tracker_source_up'' ''1 when the last fetch of a tracker source succeeded''
        (\<lambda>sc. map (\<lambda>(name, up, _). ([(''source'', name)], of_flag up)) (ca_tracker_sources (sc_data sc))),
      push_gauge ''tornas_tracker_source_accepted'' ''Trackers a source contributed after filtering''
        (\<lambda>sc. map (\<lambda>(name, _, acc). ([(''source'', name)], of_count acc)) (ca_tracker_sources (sc_data sc)))]"

text \<open>\<open>str::split_whitespace\<close>.\<close>

fun ws_span :: "string \<Rightarrow> string \<times> string" where
  "ws_span [] = ([], [])"
| "ws_span (c # s) =
     (if strip_any ws_encodings (c # s) \<noteq> None then ([], c # s)
      else let (w, r) = ws_span s in (c # w, r))"

function split_whitespace :: "string \<Rightarrow> string list" where
  "split_whitespace s =
     (let t = trim_start s; (w, r) = ws_span t
      in if t = [] then [] else if length r < length s then w # split_whitespace r else [w])"
  by pat_completeness auto
termination
  by (relation "measure length") auto

declare split_whitespace.simps [simp del]

definition nth_word :: "nat \<Rightarrow> string \<Rightarrow> string option" where
  "nth_word n l = (let ws = split_whitespace l in if n < length ws then Some (ws ! n) else None)"

definition proc_field :: "string option \<Rightarrow> string \<Rightarrow> u64 option" where
  "proc_field proc_status key =
     Option.bind proc_status (\<lambda>st.
       Option.bind (find (\<lambda>l. starts_with l key) (str_lines st)) (\<lambda>l.
         Option.bind (nth_word 1 l) (\<lambda>v. map_option of_nat (parse_unsigned 64 v))))"

definition process_gauges :: "instrument list" where
  "process_gauges =
     [push_gauge ''tornas_process_resident_memory_bytes'' ''Resident memory''
        (\<lambda>sc. case proc_field (sc_proc_status sc) ''VmRSS:'' of
           Some kb \<Rightarrow> [([], of_u64 (kb * 1024))] | None \<Rightarrow> []),
      push_gauge ''tornas_process_threads'' ''OS threads''
        (\<lambda>sc. case proc_field (sc_proc_status sc) ''Threads:'' of
           Some n \<Rightarrow> [([], of_u64 n)] | None \<Rightarrow> []),
      push_gauge ''tornas_process_open_fds'' ''Open file descriptors (peer sockets count here)''
        (\<lambda>sc. case sc_open_fds sc of Some n \<Rightarrow> [([], of_count n)] | None \<Rightarrow> [])]"

text \<open>The build information is the one integer gauge; its labels are constants of the build.\<close>

definition build_info :: "labels \<Rightarrow> instrument" where
  "build_info constants =
     push_gauge ''tornas_build_info'' ''Build information; always 1'' (\<lambda>_. [(constants, Whole 1)])"

definition observe :: "labels \<Rightarrow> server_opts \<Rightarrow> instrument list" where
  "observe constants o' =
     build_info constants # global_gauges o' @ disk_gauges @ library_gauges @ [torrent_info_gauge]
     @ per_torrent_gauges @ transfer_instruments @ torrent_peer_gauges @ session_instruments @ dht_gauges
     @ tracker_gauges @ process_gauges"

section \<open>What a scrape shows\<close>

definition counts_whole :: "instrument \<Rightarrow> bool" where
  "counts_whole i \<longleftrightarrow> (\<forall>sc. \<forall>x \<in> set (in_observe i sc). \<exists>n. snd x = Whole n)"

definition same_labels :: "instrument \<Rightarrow> bool" where
  "same_labels i \<longleftrightarrow>
     (\<forall>sc sc'. \<forall>x \<in> set (in_observe i sc). \<forall>y \<in> set (in_observe i sc'). map fst (fst x) = map fst (fst y))"

lemmas instrument_defs =
  push_gauge_def push_counter_def plain_def build_info_def global_gauges_def disk_gauges_def library_gauges_def
  torrent_info_gauge_def per_torrent_gauges_def per_torrent_def transfer_instruments_def torrent_peer_gauges_def
  session_instruments_def dht_gauges_def tracker_gauges_def process_gauges_def

lemma observe_labels: "i \<in> set (observe constants o') \<Longrightarrow> same_labels i"
  unfolding observe_def
  by (auto simp: instrument_defs same_labels_def id_label_def map_filter_def split: option.splits)

lemma observe_counters: "i \<in> set (observe constants o') \<Longrightarrow> in_kind i = Counter \<Longrightarrow> counts_whole i"
  unfolding observe_def
  by (auto simp: instrument_defs counts_whole_def split: option.splits)

lemma observe_names: "distinct (map in_name (observe constants o'))"
  unfolding observe_def by (simp add: instrument_defs split: option.split)



section \<open>Counting torrents\<close>

fun float_of :: "sample_value \<Rightarrow> int" where
  "float_of (Float x) = x"
| "float_of _ = 0"

definition gauge_total :: "instrument \<Rightarrow> scrape \<Rightarrow> int" where
  "gauge_total i sc = sum_list (map (float_of \<circ> snd) (in_observe i sc))"

lemma count_by_value:
  "distinct vs \<Longrightarrow> (\<Sum>v\<leftarrow>vs. length (filter (\<lambda>x. g x = v) xs)) = length (filter (\<lambda>x. g x \<in> set vs) xs)"
proof (induction vs)
  case (Cons v vs)
  have "length (filter (\<lambda>x. g x = v \<or> g x \<in> set vs) ys) =
      length (filter (\<lambda>x. g x = v) ys) + length (filter (\<lambda>x. g x \<in> set vs) ys)" for ys
    using Cons.prems by (induction ys) auto
  with Cons show ?case by simp
qed simp

lemma count_total:
  assumes "distinct vs" and "length xs < 2 ^ 53" and "\<And>x. x \<in> set xs \<Longrightarrow> g x \<in> set vs"
  shows "(\<Sum>v\<leftarrow>vs. float_of (of_count (length (filter (\<lambda>x. g x = v) xs)))) = int (length xs)"
proof -
  have "length (filter (\<lambda>x. g x = v) xs) < 2 ^ 53" for v
    using assms(2) length_filter_le [of "\<lambda>x. g x = v" xs] by linarith
  then have "(\<Sum>v\<leftarrow>vs. float_of (of_count (length (filter (\<lambda>x. g x = v) xs))))
      = (\<Sum>v\<leftarrow>vs. int (length (filter (\<lambda>x. g x = v) xs)))"
    by (simp add: of_count_def f64_of_nat_exact)
  also have "\<dots> = int (\<Sum>v\<leftarrow>vs. length (filter (\<lambda>x. g x = v) xs))" by (induction vs) simp_all
  also have "\<dots> = int (length xs)" using assms by (simp add: count_by_value cong: filter_cong)
  finally show ?thesis .
qed

lemma state_label_listed: "state_label st \<in> set torrent_states"
  by (cases "st_state st") (simp_all add: state_label_def torrent_states_def)

lemma torrent_fact_state: "f \<in> set (torrent_facts W S e) \<Longrightarrow> tr_state f \<in> set torrent_states"
proof -
  have "tr_state (torrent_fact W S e ms row h) \<in> set torrent_states" for ms row h
    by (simp add: torrent_fact_def Let_def state_label_listed)
  then show "f \<in> set (torrent_facts W S e) \<Longrightarrow> ?thesis"
    by (auto simp: torrent_facts_def List.map_filter_def)
qed

lemma named_unique:
  "i \<in> set (observe constants o') \<Longrightarrow> j \<in> set (observe constants o') \<Longrightarrow> in_name i = in_name j \<Longrightarrow> i = j"
  using observe_names [of constants o'] by (auto simp: distinct_map inj_on_def)

text \<open>C28: The torrent gauges add up. In a scrape of any engine, the torrents counted by state, and those counted by
  private flag, are together exactly the loaded torrents of the catalog: none is counted twice, and none
  has a state that the metrics leave out.\<close>

theorem torrent_gauges_add_up:
  assumes "i \<in> set (observe constants o')" and "in_name i \<in> {''tornas_torrents_by_state'', ''tornas_torrents''}"
    and "sc_data sc = snapshot_compute W S totals e" and "length (torrent_facts W S e) < 2 ^ 53"
  shows "gauge_total i sc = int (length (torrent_facts W S e))"
proof -
  have facts: "ca_facts (sc_data sc) = torrent_facts W S e" by (simp add: assms(3) snapshot_compute_def Let_def)
  have known: "library_gauges ! k \<in> set (observe constants o')" if "k < length library_gauges" for k
    using nth_mem [OF that] unfolding observe_def by (simp only: list.set set_append Un_iff insert_iff) blast
  have names: "in_name (library_gauges ! 2) = ''tornas_torrents''" "in_name (library_gauges ! 4) = ''tornas_torrents_by_state''"
    and five: "length library_gauges = 5"
    by (simp_all add: library_gauges_def push_gauge_def)
  have "i = library_gauges ! 2 \<or> i = library_gauges ! 4"
  proof (cases "in_name i = ''tornas_torrents''")
    case True
    then show ?thesis using named_unique [OF assms(1) known [of 2]] names five by simp
  next
    case False
    then have "in_name i = in_name (library_gauges ! 4)" using assms(2) names by auto
    then show ?thesis using named_unique [OF assms(1) known [of 4]] five by simp
  qed
  then consider "gauge_total i sc = (\<Sum>p\<leftarrow>[True, False].
        float_of (of_count (length (filter (\<lambda>f. tr_private f = p) (torrent_facts W S e)))))"
    | "gauge_total i sc = (\<Sum>st\<leftarrow>torrent_states.
        float_of (of_count (length (filter (\<lambda>f. tr_state f = st) (torrent_facts W S e)))))"
    by (auto simp: gauge_total_def library_gauges_def push_gauge_def facts o_def)
  then show ?thesis
  proof cases
    case 1
    then show ?thesis using count_total [of "[True, False]" "torrent_facts W S e" tr_private] assms(4) by auto
  next
    case 2
    then show ?thesis
      using count_total [of torrent_states "torrent_facts W S e" tr_state] torrent_fact_state [of _ W S e] assms(4)
      by (simp add: torrent_states_def)
  qed
qed

definition example_totals :: session_totals where
  "example_totals =
     \<lparr>st_fetched_bytes = 0, st_uploaded_bytes = 0, st_download_bps = 0, st_upload_bps = 0,
      st_peer_totals = \<lparr>pt_queued = 0, pt_connecting = 0, pt_live = 0, pt_seen = 0, pt_dead = 0,
        pt_not_needed = 0, pt_live_tcp = 0, pt_live_utp = 0, pt_live_socks = 0, pt_steals = 0\<rparr>,
      st_connections = []\<rparr>"

definition example_scrape :: scrape where
  "example_scrape =
     \<lparr>sc_data = snapshot_compute (example_world 300) example_swarm (\<lambda>_. example_totals) example_engine,
      sc_disk_missing = False, sc_proc_status = None, sc_open_fds = None\<rparr>"

theorem torrent_gauges_add_up_witness: "gauge_total (library_gauges ! 4) example_scrape = 2"
proof -
  have two: "length (torrent_facts (example_world 300) example_swarm example_engine) = 2" by code_simp
  have "library_gauges ! 4 \<in> set (observe [] (default_server_opts 100))"
    and "in_name (library_gauges ! 4) \<in> {''tornas_torrents_by_state'', ''tornas_torrents''}"
    by (simp_all add: observe_def library_gauges_def push_gauge_def)
  from torrent_gauges_add_up [OF this, of example_scrape "example_world 300" example_swarm "\<lambda>_. example_totals" example_engine]
  show ?thesis by (simp add: example_scrape_def two)
qed

end
