(* ===== verification/Terminal.thy ===== *)
theory Terminal
  imports Chars Gauges Http_Api
begin

text \<open>
  The terminal commands, \<open>cli/\<close>: a client of the JSON API, \<open>pause\<close>, \<open>resume\<close>, \<open>status\<close>, \<open>health\<close>, the texts of
  \<open>top\<close> and the report of \<open>doctor\<close>. A command is the lines it prints, or an error. The HTTP client and the
  readers that \<open>serde\<close> derives are the record \<open>cli_http\<close>; drawing on the terminal is left to \<open>ratatui\<close>.
\<close>

section \<open>The client\<close>

record cli_api =
  cl_base :: string
  cl_token :: "string option"

record cli_pause_view =
  cp_paused :: bool
  cp_remaining_secs :: "i64 option"

record cli_candidate =
  cc_title :: string

record cli_budget =
  cb_limit :: u64
  cb_used :: u64
  cb_disk_free :: u64
  cb_min_free :: u64
  cb_next_eviction :: "cli_candidate option"

record cli_session =
  cs_listen_addr :: "string option"
  cs_download_bps :: u64
  cs_upload_bps :: u64
  cs_peers_live :: u64
  cs_uptime_secs :: u64
  cs_torrents :: u64
  cs_queued :: u64

record cli_movie =
  cm_imdb_id :: string
  cm_title :: string
  cm_year :: "i64 option"
  cm_state :: string
  cm_progress_bytes :: u64
  cm_total_bytes :: u64
  cm_download_bps :: u64
  cm_peers :: u64
  cm_protected :: bool
  cm_last_used_at :: i64

record cli_event =
  ce_ts :: i64
  ce_kind :: string
  ce_message :: string

record cli_status =
  ct_version :: string
  ct_hostname :: string
  ct_warnings :: "string list"
  ct_pause :: cli_pause_view
  ct_budget :: cli_budget
  ct_session :: cli_session
  ct_movies :: "cli_movie list"
  ct_events :: "cli_event list"

record cli_request =
  cq_method :: string
  cq_url :: string
  cq_bearer :: "string option"
  cq_timeout :: u64
  cq_body :: "string option"

record cli_http =
  ch_send :: "cli_request \<Rightarrow> (nat \<times> string result) result"
  ch_show_status :: "nat \<Rightarrow> string"
  ch_read_status :: "string \<Rightarrow> cli_status result"
  ch_read_pause :: "string \<Rightarrow> cli_pause_view result"
  ch_read_resumed :: "string \<Rightarrow> u64 result"
  ch_pretty :: "string \<Rightarrow> string"
  ch_encode :: "json \<Rightarrow> string"
  ch_scheme :: "string \<Rightarrow> string result"
  ch_quote :: "string \<Rightarrow> string"

definition cli_api_new :: "cli_http \<Rightarrow> string \<Rightarrow> string option \<Rightarrow> cli_api result" where
  "cli_api_new H server token =
     (let base = trim_end_char CHR ''/'' server
      in case with_context (''server URL '' @ ch_quote H server) (ch_scheme H base) of
           Inl e \<Rightarrow> Inl e
         | Inr scheme \<Rightarrow>
             if scheme = ''http'' \<or> scheme = ''https'' then Inr \<lparr>cl_base = base, cl_token = token\<rparr>
             else Inl (bail (''server URL '' @ ch_quote H server @ '' must be http or https'')))"

definition cli_request_for :: "cli_api \<Rightarrow> string \<Rightarrow> string \<Rightarrow> u64 \<Rightarrow> string option \<Rightarrow> cli_request" where
  "cli_request_for api method path secs body =
     \<lparr>cq_method = method, cq_url = cl_base api @ path, cq_bearer = cl_token api, cq_timeout = secs, cq_body = body\<rparr>"

definition checked :: "cli_http \<Rightarrow> nat \<times> string result \<Rightarrow> string result result" where
  "checked H resp =
     (if fst resp = 401 then Inl (bail ''server requires an API token (pass --token or TORNAS_API_TOKEN)'')
      else if \<not> (200 \<le> fst resp \<and> fst resp < 300)
      then Inl (bail (ch_show_status H (fst resp) @ '': '' @ (case snd resp of Inr t \<Rightarrow> t | Inl _ \<Rightarrow> [])))
      else Inr (snd resp))"

text \<open>One exchange: the request, the check of the status, the reading of the body.\<close>

definition exchange :: "cli_http \<Rightarrow> string \<Rightarrow> cli_request \<Rightarrow> (string \<Rightarrow> 'a result) \<Rightarrow> 'a result" where
  "exchange H what req read =
     result_bind (with_context what (ch_send H req))
       (\<lambda>resp. result_bind (checked H resp) (\<lambda>text'. result_bind text' read))"

definition client_status :: "cli_http \<Rightarrow> cli_api \<Rightarrow> cli_status result" where
  "client_status H api =
     exchange H (''GET '' @ cl_base api @ ''/api/status'') (cli_request_for api ''GET'' ''/api/status'' 5 None)
       (ch_read_status H)"

definition client_status_json :: "cli_http \<Rightarrow> cli_api \<Rightarrow> string result" where
  "client_status_json H api =
     exchange H (''GET '' @ cl_base api @ ''/api/status'') (cli_request_for api ''GET'' ''/api/status'' 5 None)
       (\<lambda>t. Inr (ch_pretty H t))"

definition client_pause :: "cli_http \<Rightarrow> cli_api \<Rightarrow> json \<Rightarrow> cli_pause_view result" where
  "client_pause H api body =
     exchange H ''PUT /api/pause'' (cli_request_for api ''PUT'' ''/api/pause'' 30 (Some (ch_encode H body)))
       (ch_read_pause H)"

definition client_resume :: "cli_http \<Rightarrow> cli_api \<Rightarrow> u64 result" where
  "client_resume H api =
     exchange H ''DELETE /api/pause'' (cli_request_for api ''DELETE'' ''/api/pause'' 30 None) (ch_read_resumed H)"

section \<open>Pause and resume\<close>

record pause_opts =
  po_server :: string
  po_token :: "string option"
  po_duration :: "duration option"
  po_indefinite :: bool

definition pause_body :: "pause_opts \<Rightarrow> json" where
  "pause_body o' =
     JObject [(''duration'', case po_duration o' of Some d \<Rightarrow> JNumber (Pos_Int (d_secs d)) | None \<Rightarrow> JNull),
              (''indefinite'', JBool (po_indefinite o'))]"

definition cli_pause :: "cli_http \<Rightarrow> pause_opts \<Rightarrow> string list result" where
  "cli_pause H o' =
     map_sum id
       (\<lambda>p. [case cp_remaining_secs p of
               Some r \<Rightarrow> ''paused; resumes on its own in '' @ human_age r
             | None \<Rightarrow> ''paused until you run `tornas resume`''])
       (result_bind (cli_api_new H (po_server o') (po_token o')) (\<lambda>api. client_pause H api (pause_body o')))"

definition cli_resume :: "cli_http \<Rightarrow> string \<Rightarrow> string option \<Rightarrow> string list result" where
  "cli_resume H server token =
     map_sum id (\<lambda>n. [''resumed '' @ show_u64 n @ '' torrents''])
       (result_bind (cli_api_new H server token) (client_resume H))"

section \<open>The status report\<close>

definition percent :: "cli_movie \<Rightarrow> u64" where
  "percent m = (if cm_total_bytes m = 0 then 0 else (cm_progress_bytes m * 100) div cm_total_bytes m)"

definition cli_display_title :: "cli_movie \<Rightarrow> string" where
  "cli_display_title m =
     (case cm_year m of Some y \<Rightarrow> cm_title m @ '' ('' @ show_i64 y @ '')'' | None \<Rightarrow> cm_title m)"

definition cli_movie_row :: "i64 \<Rightarrow> cli_movie \<Rightarrow> string list" where
  "cli_movie_row now m =
     [cm_imdb_id m, cli_display_title m, human_bytes (cm_total_bytes m), show_u64 (percent m) @ ''%'', cm_state m,
      human_rate (cm_download_bps m), show_u64 (cm_peers m), human_age (now - cm_last_used_at m),
      if cm_protected m then ''yes'' else []]"

definition table_headers :: "string list" where
  "table_headers = [''IMDb'', ''Title'', ''Size'', ''Done'', ''State'', ''Down'', ''Peers'', ''Last used'', ''Protected'']"

definition movie_rows :: "i64 \<Rightarrow> cli_status \<Rightarrow> string list list" where
  "movie_rows now s = map (cli_movie_row now) (ct_movies s)"

definition pause_line :: "cli_pause_view \<Rightarrow> string option" where
  "pause_line p =
     (if \<not> cp_paused p then None
      else Some (case cp_remaining_secs p of
                   Some r \<Rightarrow> ''PAUSED: everything is paused, resumes in '' @ human_age r
                 | None \<Rightarrow> ''PAUSED: everything is paused until resumed''))"

definition next_eviction_text :: "cli_budget \<Rightarrow> string" where
  "next_eviction_text b = (case cb_next_eviction b of Some c \<Rightarrow> cc_title c | None \<Rightarrow> ''none'')"

definition print_summary :: "cli_status \<Rightarrow> string list" where
  "print_summary s =
     (let b = ct_budget s; t = ct_session s
      in [''tornas '' @ ct_version s @ '' on '' @ ct_hostname s @ ''  up '' @ human_age (cs_uptime_secs t),
          ''budget: '' @ human_bytes (cb_used b) @ '' / '' @ human_bytes (cb_limit b) @ '' used, disk free ''
            @ human_bytes (cb_disk_free b) @ '' (min '' @ human_bytes (cb_min_free b) @ ''), next eviction: ''
            @ next_eviction_text b,
          ''session: down '' @ human_rate (cs_download_bps t) @ ''  up '' @ human_rate (cs_upload_bps t)
            @ ''  peers '' @ show_u64 (cs_peers_live t) @ ''  torrents '' @ show_u64 (cs_torrents t)])"

text \<open>A line of the table as its characters, so that its columns can be counted.\<close>

definition max_cell :: nat where
  "max_cell = 40"

definition cell_width :: "string \<Rightarrow> nat" where
  "cell_width c = min max_cell (length (str_chars c))"

fun widen :: "nat list \<Rightarrow> string list \<Rightarrow> nat list" where
  "widen (w # ws) (c # cs) = max w (cell_width c) # widen ws cs"
| "widen ws cs = ws"

definition table_widths :: "string list list \<Rightarrow> nat list" where
  "table_widths rows = fold (\<lambda>r ws. widen ws r) rows (map (\<lambda>h. length h) table_headers)"

definition fit_cell :: "nat \<Rightarrow> string \<Rightarrow> string list" where
  "fit_cell w c =
     (let cell = take max_cell (str_chars c) in cell @ replicate (w - length cell) '' '')"

fun join_cells :: "string list list \<Rightarrow> string list" where
  "join_cells [] = []"
| "join_cells [c] = c"
| "join_cells (c # cs) = c @ ['' '', '' ''] @ join_cells cs"

definition table_line :: "nat list \<Rightarrow> string list \<Rightarrow> string list" where
  "table_line ws cells = join_cells (map2 fit_cell ws cells)"

definition print_table :: "i64 \<Rightarrow> cli_status \<Rightarrow> string list" where
  "print_table now s =
     (let rows = movie_rows now s; ws = table_widths rows
      in map (\<lambda>r. concat (table_line ws r)) (table_headers # rows))"

definition pad_left :: "nat \<Rightarrow> string \<Rightarrow> string" where
  "pad_left w s = replicate (w - length (str_chars s)) CHR '' '' @ s"

definition pad_right :: "nat \<Rightarrow> string \<Rightarrow> string" where
  "pad_right w s = s @ replicate (w - length (str_chars s)) CHR '' ''"

definition print_events :: "i64 \<Rightarrow> cli_status \<Rightarrow> string list" where
  "print_events now s =
     (if ct_events s = [] then []
      else ''recent events:''
        # map (\<lambda>e. ''  '' @ pad_left 5 (human_age (now - ce_ts e)) @ '' ago  '' @ ce_message e) (take 10 (ct_events s)))"

definition cli_status_command :: "cli_http \<Rightarrow> i64 \<Rightarrow> string \<Rightarrow> bool \<Rightarrow> string list result" where
  "cli_status_command H now server json =
     result_bind (cli_api_new H server None) (\<lambda>api.
       if json then map_sum id (\<lambda>t. [t]) (client_status_json H api)
       else map_sum id
         (\<lambda>s. (case pause_line (ct_pause s) of Some l \<Rightarrow> [l] | None \<Rightarrow> [])
              @ print_summary s @ map (\<lambda>w. ''warning: '' @ w) (ct_warnings s) @ [[]] @ print_table now s
              @ [[]] @ print_events now s)
         (client_status H api))"

section \<open>Health\<close>

text \<open>The line and the exit code; \<open>show_error\<close> prints the client's own error.\<close>

definition cli_health :: "cli_http \<Rightarrow> (anyhow \<Rightarrow> string) \<Rightarrow> string \<Rightarrow> u64 \<Rightarrow> string \<times> nat" where
  "cli_health H show_error server secs =
     (let url = trim_end_char CHR ''/'' server @ ''/healthz''
      in case ch_send H \<lparr>cq_method = ''GET'', cq_url = url, cq_bearer = None, cq_timeout = secs, cq_body = None\<rparr> of
           Inl e \<Rightarrow> (''UNHEALTHY '' @ url @ '': '' @ show_error e, 1)
         | Inr (code, text') \<Rightarrow>
             (let body = (case text' of Inr t \<Rightarrow> t | Inl _ \<Rightarrow> [])
              in if 200 \<le> code \<and> code < 300 then (''OK '' @ body, 0)
                 else (''UNHEALTHY '' @ ch_show_status H code @ '' '' @ body, 1)))"

section \<open>The dashboard's texts\<close>

datatype colour = Red | Yellow | Green

text \<open>The share of the budget in use, as an \<open>f64\<close> fraction of at most one.\<close>

definition budget_ratio :: "cli_budget \<Rightarrow> nat \<times> nat" where
  "budget_ratio b =
     (let (p, q) = f64_div (f64_of_nat (unat (cb_used b))) (f64_of_nat (max (unat (cb_limit b)) 1))
      in if q < p then (1, 1) else (p, q))"

text \<open>\<open>0.9\<close> is the \<open>f64\<close> nearest to it.\<close>

definition budget_colour :: "cli_budget \<Rightarrow> colour" where
  "budget_colour b =
     (let (p, q) = budget_ratio b
      in if 8106479329266893 * q < 2 ^ 53 * p then Red else if 3 * q < 4 * p then Yellow else Green)"

definition budget_title :: "cli_budget \<Rightarrow> string" where
  "budget_title b = '' budget  '' @ human_bytes (cb_used b) @ '' / '' @ human_bytes (cb_limit b) @ ''   disk free ''
     @ human_bytes (cb_disk_free b) @ ''   next eviction: '' @ next_eviction_text b @ '' ''"

definition session_line :: "cli_status \<Rightarrow> string \<times> string" where
  "session_line s =
     (case pause_line (ct_pause s) of
        Some l \<Rightarrow> ('' '' @ l @ '' '', '' PAUSED '')
      | None \<Rightarrow>
          (let t = ct_session s
           in ('' '' @ ct_version s @ '' @ '' @ ct_hostname s @ '' '' @ '' up '' @ human_age (cs_uptime_secs t)
                 @ ''   down '' @ human_rate (cs_download_bps t) @ ''   up '' @ human_rate (cs_upload_bps t)
                 @ ''   peers '' @ show_u64 (cs_peers_live t) @ ''   torrents '' @ show_u64 (cs_torrents t)
                 @ ''   listen '' @ (case cs_listen_addr t of Some a \<Rightarrow> a | None \<Rightarrow> ''-''),
               '' session '')))"

definition dashboard_events :: "i64 \<Rightarrow> cli_status \<Rightarrow> string list" where
  "dashboard_events now s =
     map (\<lambda>w. ''! '' @ w) (ct_warnings s)
     @ map (\<lambda>e. pad_left 4 (human_age (now - ce_ts e)) @ '' ago  '' @ pad_right 6 (ce_kind e) @ '' '' @ ce_message e)
         (take 6 (ct_events s))"

section \<open>The doctor's report\<close>

definition wanted_flags :: "string list" where
  "wanted_flags = [''sha1'', ''sha2'', ''sha3'', ''sha_ni'', ''sha512'', ''aes'', ''neon'', ''asimd'', ''avx2'', ''sse4_2'',
     ''crc32'', ''pmull'']"

fun bytes_le :: "string \<Rightarrow> string \<Rightarrow> bool" where
  "bytes_le [] t = True"
| "bytes_le (a # s) [] = False"
| "bytes_le (a # s) (b # t) =
     (let x = (of_char a :: nat); y = of_char b in x < y \<or> x = y \<and> bytes_le s t)"

fun insert_sorted :: "string \<Rightarrow> string list \<Rightarrow> string list" where
  "insert_sorted x [] = [x]"
| "insert_sorted x (y # ys) = (if bytes_le x y then x # y # ys else y # insert_sorted x ys)"

definition flags_of_line :: "string \<Rightarrow> string list \<Rightarrow> string list" where
  "flags_of_line line found =
     (let lower = to_ascii_lowercase line
      in if starts_with lower ''flags'' \<or> starts_with lower ''features''
         then fold (\<lambda>tok fs. if tok \<in> set wanted_flags \<and> tok \<notin> set fs then fs @ [tok] else fs)
                (split_whitespace lower) found
         else found)"

definition cpu_features :: "string option \<Rightarrow> string list" where
  "cpu_features cpuinfo =
     (let text' = (case cpuinfo of Some t \<Rightarrow> t | None \<Rightarrow> [])
      in foldr insert_sorted (fold flags_of_line (str_lines text') []) [])"

definition model_of :: "string \<Rightarrow> string \<Rightarrow> string option" where
  "model_of text' key =
     Option.bind (find (\<lambda>l. starts_with l key) (str_lines text'))
       (\<lambda>l. map_option (\<lambda>(_, v). trim v) (split_once CHR '':'' l))"

definition cpu_model :: "bool \<Rightarrow> string option \<Rightarrow> string" where
  "cpu_model macos cpuinfo =
     (let text' = (case cpuinfo of Some t \<Rightarrow> t | None \<Rightarrow> [])
      in case List.map_filter (model_of text') [''model name'', ''Model'', ''Hardware'', ''cpu model''] of
           v # _ \<Rightarrow> v
         | [] \<Rightarrow> if macos then ''macOS host'' else ''unknown'')"

definition sha1_text :: "string \<Rightarrow> string \<Rightarrow> bool \<Rightarrow> string" where
  "sha1_text os arch hw =
     (if os = ''linux'' then
        if hw then ''yes (aws-lc-rs picks the SHA extension at runtime)''
        else if arch = ''arm'' then ''no (ARMv7 has no SHA extension; software NEON-less path)''
        else ''no (CPU lacks sha1/sha_ni flags; software path)''
      else ''n/a (reported on Linux only)'')"

definition mount_text :: "bool result \<Rightarrow> string" where
  "mount_text r =
     (case r of
        Inr True \<Rightarrow> ''separate filesystem from / (safe for --require-mount)''
      | Inr False \<Rightarrow> ''SAME filesystem as / (on a Pi this is the SD card!)''
      | Inl e \<Rightarrow> error_text e)"

definition meminfo_field :: "string \<Rightarrow> string \<Rightarrow> string option" where
  "meminfo_field mem key =
     Option.bind (find (\<lambda>l. starts_with l key) (str_lines mem)) (\<lambda>l.
       Option.bind (nth_word 1 l) (\<lambda>v. map_option (\<lambda>kb. human_bytes (of_nat kb * 1024)) (parse_unsigned 64 v)))"

definition memory_line :: "string option \<Rightarrow> string list" where
  "memory_line meminfo =
     (case meminfo of
        None \<Rightarrow> []
      | Some mem \<Rightarrow>
          (case (meminfo_field mem ''MemTotal'', meminfo_field mem ''MemAvailable'') of
             (Some t, Some a) \<Rightarrow> [''memory:      '' @ a @ '' available of '' @ t]
           | _ \<Rightarrow> []))"

section \<open>A table with straight columns\<close>

lemma length_widen [simp]: "length (widen ws cs) = length ws"
  by (induction ws cs rule: widen.induct) simp_all

lemma widen_nth:
  assumes "i < length ws" and "i < length cs" shows "widen ws cs ! i = max (ws ! i) (cell_width (cs ! i))"
  using assms
proof (induction ws cs arbitrary: i rule: widen.induct)
  case (1 w ws c cs)
  then show ?case by (cases i) simp_all
qed simp_all

lemma widen_mono: "i < length ws \<Longrightarrow> ws ! i \<le> widen ws cs ! i"
proof (induction ws cs arbitrary: i rule: widen.induct)
  case (1 w ws c cs)
  then show ?case by (cases i) simp_all
qed simp_all

lemma fold_widen:
  assumes "\<forall>r \<in> set rows. length r = length ws" and "i < length ws"
  shows "length (fold (\<lambda>r ws. widen ws r) rows ws) = length ws"
    and "ws ! i \<le> fold (\<lambda>r ws. widen ws r) rows ws ! i"
    and "r \<in> set rows \<Longrightarrow> cell_width (r ! i) \<le> fold (\<lambda>r ws. widen ws r) rows ws ! i"
  using assms
proof (induction rows arbitrary: ws)
  case (Cons r' rows)
  {
    case 1
    then show ?case using Cons.IH(1) [of "widen ws r'"] by simp
  next
    case 2
    then show ?case using Cons.IH(2) [of "widen ws r'"] widen_mono [of i ws r'] by fastforce
  next
    case 3
    then show ?case
      using Cons.IH(2,3) [of "widen ws r'"] widen_nth [of i ws r'] by (auto simp: max_def split: if_splits)
  }
qed simp_all

lemma fit_cell_length: "cell_width c \<le> w \<Longrightarrow> length (fit_cell w c) = w"
  by (simp add: fit_cell_def Let_def cell_width_def max_cell_def)

text \<open>Where column \<open>i\<close> begins.\<close>

definition column :: "nat list \<Rightarrow> nat \<Rightarrow> nat" where
  "column ws i = sum_list (take i ws) + 2 * i"

lemma join_cells_column:
  assumes "map length cells = ws" and "i < length cells"
  shows "take (ws ! i) (drop (column ws i) (join_cells cells)) = cells ! i"
  using assms
proof (induction cells arbitrary: ws i rule: join_cells.induct)
  case (3 c d cs)
  show ?case
  proof (cases i)
    case 0
    then show ?thesis using 3 by (auto simp: column_def)
  next
    case (Suc j)
    obtain vs where ws: "ws = length c # vs" "map length (d # cs) = vs" using 3(2) by auto
    have "column ws i = Suc (Suc (length c + column vs j))" by (simp add: column_def ws Suc)
    then show ?thesis using 3(1) [OF ws(2)] 3(3) Suc ws(1) by simp
  qed
qed (auto simp: column_def)

lemma table_cell:
  assumes "length cells = length ws" and "i < length ws" and "\<And>j. j < length ws \<Longrightarrow> cell_width (cells ! j) \<le> ws ! j"
  shows "take (ws ! i) (drop (column ws i) (table_line ws cells)) = fit_cell (ws ! i) (cells ! i)"
proof -
  have "map length (map2 fit_cell ws cells) = ws"
    using assms(1,3) by (intro nth_equalityI) (simp_all add: fit_cell_length)
  from join_cells_column [OF this, of i] show ?thesis using assms(1,2) by (simp add: table_line_def)
qed

lemma cell_width_ascii: "(\<And>c. c \<in> set h \<Longrightarrow> (of_char c :: nat) < 0x80) \<Longrightarrow> cell_width h \<le> length h"
  by (simp add: cell_width_def str_chars_ascii)

lemma headers_fit: "i < 9 \<Longrightarrow> cell_width (table_headers ! i) \<le> map (\<lambda>h. length h) table_headers ! i"
proof -
  have "\<forall>h \<in> set table_headers. cell_width h \<le> length h"
  proof
    fix h assume "h \<in> set table_headers"
    moreover have "list_all (list_all (\<lambda>c. (of_char c :: nat) < 0x80)) table_headers" by (simp add: table_headers_def)
    ultimately show "cell_width h \<le> length h" by (intro cell_width_ascii) (auto simp: list_all_iff)
  qed
  moreover assume "i < 9"
  moreover have "length table_headers = 9" by (simp add: table_headers_def)
  ultimately show ?thesis by simp
qed

text \<open>The columns are straight: in the header and in every row, column \<open>i\<close> begins at the same character, and holds the
  first 40 characters of the cell, filled with spaces to the width of the column, which is the same in all lines.\<close>

theorem status_table_is_aligned:
  assumes "cells \<in> set (table_headers # movie_rows now s)" and "i < 9"
  shows "let ws = table_widths (movie_rows now s)
    in take (ws ! i) (drop (column ws i) (table_line ws cells)) = fit_cell (ws ! i) (cells ! i)
      \<and> length (fit_cell (ws ! i) (cells ! i)) = ws ! i"
proof -
  let ?rows = "movie_rows now s" and ?w0 = "map (\<lambda>h. length h) table_headers"
  have nine: "length table_headers = 9" "\<forall>r \<in> set ?rows. length r = length ?w0"
    by (auto simp: table_headers_def movie_rows_def cli_movie_row_def)
  note wide = fold_widen [OF nine(2), folded table_widths_def]
  have ws: "length (table_widths ?rows) = 9" using wide(1) [of 0] nine(1) by simp
  have fits: "cell_width (cells ! j) \<le> table_widths ?rows ! j" if "j < 9" for j
  proof (cases "cells = table_headers")
    case True
    then show ?thesis using headers_fit [OF that] wide(2) [of j] that nine(1) by simp
  next
    case False
    then show ?thesis using wide(3) [of j cells] assms(1) that nine(1) by simp
  qed
  have "length cells = 9" using assms(1) nine by auto
  then show ?thesis using table_cell [of cells "table_widths ?rows" i] fits ws assms(2) by (simp add: Let_def fit_cell_length)
qed

text \<open>The share of a movie wraps for sizes that no movie has.\<close>

lemma percent_bound:
  assumes "unat (cm_progress_bytes m) * 100 < 2 ^ 64" and "cm_progress_bytes m \<le> cm_total_bytes m"
  shows "unat (percent m) \<le> 100"
proof (cases "cm_total_bytes m = 0")
  case False
  have "unat (cm_progress_bytes m * 100) = unat (cm_progress_bytes m) * 100"
    using assms(1) by (simp add: unat_word_ariths)
  then have "unat (percent m) = unat (cm_progress_bytes m) * 100 div unat (cm_total_bytes m)"
    using False by (simp add: percent_def unat_div)
  also have "\<dots> \<le> unat (cm_total_bytes m) * 100 div unat (cm_total_bytes m)"
    using assms(2) by (intro div_le_mono) (simp add: word_le_nat_alt)
  also have "\<dots> \<le> 100" by simp
  finally show ?thesis .
qed (simp add: percent_def)

section \<open>The pause command\<close>

text \<open>C26: What the pause command sends is what the server does. When the server reads the JSON text of an object back as
  its fields, the body that \<open>tornas pause\<close> sends is never taken for an empty one, and starts the pause asked for: of the
  given number of whole seconds, of the server's own length when none is given, or until it is lifted. When the API
  answers with success, that pause is in force.\<close>

theorem pause_command_is_understood:
  assumes "\<And>d i. ac_pause C (encode (JObject [(''duration'',
        case d of Some n \<Rightarrow> JNumber (Pos_Int n) | None \<Rightarrow> JNull), (''indefinite'', JBool i)]))
      = Inr \<lparr>pq_duration = map_option (\<lambda>n. JNumber (Pos_Int n)) d, pq_indefinite = i\<rparr>"
    and "\<And>fields. \<exists>t. encode (JObject fields) = CHR ''{'' # t"
  shows "api_pause_put C W (encode (pause_body o')) e =
      (let (r, e1) = pause_all W (map_option (\<lambda>d. from_secs (d_secs d)) (po_duration o')) (po_indefinite o') e
       in answer (lift_fault Pause_Reply r) e1)
    \<and> (fst (api_pause_put C W (encode (pause_body o')) e) = Some (Inr v) \<longrightarrow>
      en_pause (snd (api_pause_put C W (encode (pause_body o')) e)) =
        Some (new_pause W (case po_duration o' of Some d \<Rightarrow> from_secs (d_secs d) | None \<Rightarrow> so_pause_duration (en_opts e))
          (po_indefinite o') e))"
proof -
  obtain t where t: "encode (pause_body o') = CHR ''{'' # t" using assms(2) by (auto simp: pause_body_def)
  let ?d = "map_option (\<lambda>d. from_secs (d_secs d)) (po_duration o')"
  obtain r e1 where r: "pause_all W ?d (po_indefinite o') e = (r, e1)" by fastforce
  have "\<not> list_all ascii_whitespace (encode (pause_body o'))" using t by (simp add: ascii_whitespace_def)
  then have put: "api_pause_put C W (encode (pause_body o')) e = answer (lift_fault Pause_Reply r) e1"
    using r assms(1) [of "map_option d_secs (po_duration o')" "po_indefinite o'"]
    by (cases "po_duration o'") (simp_all add: api_pause_put_def pause_body_def pause_duration_def)
  have "en_pause e1 = Some (new_pause W (case ?d of Some x \<Rightarrow> x | None \<Rightarrow> so_pause_duration (en_opts e)) (po_indefinite o') e)"
    if "r = Inr v'" for v'
    using that r by (cases rule: pause_all_cases [of W ?d "po_indefinite o'" e]) auto
  then show ?thesis
    unfolding put r by (cases r; cases "po_duration o'") (auto simp: answer_def lift_fault_def)
qed

text \<open>An encoding of the two fields, and its reader.\<close>

definition field_encode :: "json \<Rightarrow> string" where
  "field_encode v =
     ''{'' @ (case v of
                JObject [(_, x), (_, JBool i)] \<Rightarrow>
                  (if i then ''t'' else ''f'') @ (case x of JNumber (Pos_Int n) \<Rightarrow> show_u64 n | _ \<Rightarrow> [])
              | _ \<Rightarrow> [])"

definition field_reader :: "string \<Rightarrow> string + pause_request" where
  "field_reader s =
     Inr \<lparr>pq_duration = map_option (\<lambda>n. JNumber (Pos_Int (of_nat n))) (parse_unsigned 64 (drop 2 s)),
          pq_indefinite = (s ! 1 = CHR ''t'')\<rparr>"

theorem pause_command_is_understood_witness:
  "\<exists>v. fst (api_pause_put (example_codec'\<lparr>ac_pause := field_reader\<rparr>) (example_world 300)
      (field_encode (pause_body \<lparr>po_server = [], po_token = None, po_duration = None, po_indefinite = True\<rparr>))
      example_engine) = Some (Inr v)
    \<and> en_pause (snd (api_pause_put (example_codec'\<lparr>ac_pause := field_reader\<rparr>) (example_world 300)
      (field_encode (pause_body \<lparr>po_server = [], po_token = None, po_duration = None, po_indefinite = True\<rparr>))
      example_engine)) = Some \<lparr>ps_since = 300, ps_until = None, ps_reason = Manual\<rparr>"
proof -
  let ?C = "example_codec'\<lparr>ac_pause := field_reader\<rparr>" and ?W = "example_world 300"
  let ?o = "\<lparr>po_server = [], po_token = None, po_duration = None, po_indefinite = True\<rparr>"
  have law: "ac_pause ?C (field_encode (JObject [(''duration'',
        case d of Some n \<Rightarrow> JNumber (Pos_Int n) | None \<Rightarrow> JNull), (''indefinite'', JBool i)]))
      = Inr \<lparr>pq_duration = map_option (\<lambda>n. JNumber (Pos_Int n)) d, pq_indefinite = i\<rparr>" for d i
  proof -
    have "parse_unsigned 64 (show_u64 n) = Some (unat n)" for n
      using parse_show_nat [of "unat n" 64] unsigned_less [of n] by (simp add: show_u64_def)
    moreover have "parse_unsigned 64 [] = None" by code_simp
    ultimately show ?thesis by (cases d) (simp_all add: field_reader_def field_encode_def)
  qed
  have brace: "\<exists>t. field_encode (JObject fields) = CHR ''{'' # t" for fields
    by (simp add: field_encode_def)
  have "is_ok (fst (pause_all ?W None True example_engine))"
    by (simp add: pause_all_def store_pause_def write_file_def case_prod_beta Let_def is_disk_missing_def
        example_engine_def example_world_def)
  then obtain v where v: "fst (pause_all ?W None True example_engine) = Inr v"
    by (cases "fst (pause_all ?W None True example_engine)") auto
  note understood = pause_command_is_understood [of ?C field_encode ?W ?o example_engine, OF law brace]
  let ?r = "api_pause_put ?C ?W (field_encode (pause_body ?o)) example_engine"
  have ok: "fst ?r = Some (Inr (Pause_Reply v))"
    using understood [THEN conjunct1] v by (simp add: case_prod_beta answer_def lift_fault_def)
  have "en_pause (snd ?r) = Some (new_pause ?W (so_pause_duration (en_opts example_engine)) True example_engine)"
    using understood [of "Pause_Reply v", THEN conjunct2] ok by (simp only: pause_opts.simps option.simps simp_thms)
  moreover have "new_pause ?W d True example_engine = \<lparr>ps_since = 300, ps_until = None, ps_reason = Manual\<rparr>" for d
    by (simp add: new_pause_def) (simp add: example_engine_def example_world_def)
  ultimately show ?thesis using ok by metis
qed

end
