(* ===== verification/Counters.thy ===== *)
theory Counters
  imports Gauges
begin

text \<open>
  The counters behind the engine's map \<open>en_counters\<close>, \<open>engine/metrics.rs\<close>, and those of the video routes,
  \<open>adapters.rs\<close>: their names, their labels, and what is seeded at zero when the server starts.
\<close>

type_synonym series = "string \<times> labels"

text \<open>The series that an increment of a counter of the engine goes to.\<close>

fun counter_series :: "counter \<Rightarrow> series" where
  "counter_series (Adds r) = (''tornas_adds_total'', [(''result'', r)])"
| "counter_series Evictions = (''tornas_evictions_total'', [])"
| "counter_series Evicted_Bytes = (''tornas_evicted_bytes_total'', [])"
| "counter_series Tmdb_Errors = (''tornas_tmdb_errors_total'', [])"
| "counter_series Removals = (''tornas_removals_total'', [])"
| "counter_series Seeding_Paused = (''tornas_seeding_paused_total'', [])"
| "counter_series Stalled_Evictions = (''tornas_stalled_evictions_total'', [])"
| "counter_series Pauses = (''tornas_pauses_total'', [])"
| "counter_series (Resumes t) = (''tornas_resumes_total'', [(''trigger'', t)])"

fun counter_help :: "counter \<Rightarrow> string" where
  "counter_help (Adds r) = ''Movies added, by result (ok, refused, error)''"
| "counter_help Evictions = ''Movies evicted to stay under the disk budget''"
| "counter_help Evicted_Bytes = ''Bytes freed by eviction''"
| "counter_help Tmdb_Errors = ''Failed TMDB lookups''"
| "counter_help Removals = ''Movies removed through the API''"
| "counter_help Seeding_Paused = ''Downloads that finished and were paused''"
| "counter_help Stalled_Evictions = ''Downloads evicted after making no progress''"
| "counter_help Pauses = ''Times everything was paused''"
| "counter_help (Resumes t) = ''Times a pause ended, by trigger (manual or auto)''"

definition install_counters :: "counter list" where
  "install_counters =
     map Adds [''ok'', ''refused'', ''error''] @ map Resumes [''manual'', ''auto'']
     @ [Evictions, Evicted_Bytes, Tmdb_Errors, Removals, Seeding_Paused, Stalled_Evictions, Pauses]"

definition install_streams :: "series list" where
  "install_streams =
     map (\<lambda>k. (''tornas_streams_total'', [(''kind'', k)])) [''range'', ''full''] @ [(''tornas_stream_bytes_total'', [])]"

text \<open>What the first scrape carries, in the order of seeding.\<close>

definition seeded :: "series list" where
  "seeded = map counter_series install_counters @ install_streams"

text \<open>Different counters are different series, so the map of the engine is the exported state.\<close>

lemma counter_series_inj: "counter_series a = counter_series b \<longleftrightarrow> a = b"
  by (cases a; cases b) simp_all

lemma seeded_distinct: "distinct seeded"
  by (simp add: seeded_def install_counters_def install_streams_def)

text \<open>Every counter without labels is seeded; of the resumes, the one of the disk watch is not.\<close>

lemma seeded_iff:
  "counter_series k \<in> set seeded \<longleftrightarrow>
    (case k of Adds r \<Rightarrow> r \<in> {''ok'', ''refused'', ''error''} | Resumes t \<Rightarrow> t \<in> {''manual'', ''auto''} | _ \<Rightarrow> True)"
  by (cases k) (auto simp: seeded_def install_counters_def install_streams_def)

lemma disk_resume_not_seeded: "counter_series (Resumes ''disk'') \<notin> set seeded"
  using seeded_iff [of "Resumes ''disk''"] by simp

end
