(* ===== verification/Check_Command.thy ===== *)
theory Check_Command
  imports Config_Check
begin

text \<open>
  The command \<open>tornas config check\<close>, \<open>config/check.rs\<close>: which files it reads, what it prints and its exit
  code. The two checks of a text are parameters here; theory \<open>Config_Check\<close> defines them.
\<close>

datatype target_kind = Toml_File | Env_File

definition plural :: "nat \<Rightarrow> string" where
  "plural n = (if n = 1 then [] else ''s'')"

definition report_status :: "report \<Rightarrow> string" where
  "report_status r =
     (if re_errors r = [] then
        if re_warnings r = [] then ''OK''
        else ''OK with '' @ show_nat (length (re_warnings r)) @ '' warning'' @ plural (length (re_warnings r))
      else show_nat (length (re_errors r)) @ '' error'' @ plural (length (re_errors r)))"

definition print_report :: "string \<Rightarrow> report \<Rightarrow> string list" where
  "print_report path r =
     (path @ '': '' @ report_status r)
       # map (\<lambda>e. ''  error: '' @ e) (re_errors r) @ map (\<lambda>w. ''  warning: '' @ w) (re_warnings r)"

definition default_env_file :: string where
  "default_env_file = ''/etc/tornas/tornas.env''"

definition check_targets ::
  "(string \<Rightarrow> string option) \<Rightarrow> (string \<Rightarrow> bool) \<Rightarrow> string option \<Rightarrow> string option \<Rightarrow> (string \<times> target_kind) list" where
  "check_targets env is_file toml_arg env_arg =
     (let named = (case toml_arg of Some f \<Rightarrow> [(f, Toml_File)] | None \<Rightarrow> [])
                  @ (case env_arg of Some f \<Rightarrow> [(f, Env_File)] | None \<Rightarrow> [])
      in if named \<noteq> [] then named
         else (case discover env is_file of Some f \<Rightarrow> [(f, Toml_File)] | None \<Rightarrow> [])
              @ (if is_file default_env_file then [(default_env_file, Env_File)] else []))"

fun check_targets_run ::
  "(string \<Rightarrow> string + string) \<Rightarrow> (target_kind \<Rightarrow> string \<Rightarrow> report) \<Rightarrow> (string \<times> target_kind) list
   \<Rightarrow> bool \<times> string list" where
  "check_targets_run read check [] = (False, [])"
| "check_targets_run read check ((path, kind) # ts) =
     (let (failed, out) = check_targets_run read check ts
      in case read path of
           Inl e \<Rightarrow> (True, (path @ '': cannot read: '' @ e) # out)
         | Inr text' \<Rightarrow>
             (let r = check kind text' in (failed \<or> re_errors r \<noteq> [], print_report path r @ out)))"

definition config_check ::
  "(string \<Rightarrow> string option) \<Rightarrow> (string \<Rightarrow> bool) \<Rightarrow> (string \<Rightarrow> string + string) \<Rightarrow> (target_kind \<Rightarrow> string \<Rightarrow> report)
   \<Rightarrow> string option \<Rightarrow> string option \<Rightarrow> string list \<times> nat" where
  "config_check env is_file read check toml_arg env_arg =
     (let ts = check_targets env is_file toml_arg env_arg
      in if ts = [] then ([''nothing to check: no /etc/tornas/config.toml or /etc/tornas/tornas.env''], 0)
         else let (failed, out) = check_targets_run read check ts in (out, if failed then 1 else 0))"

text \<open>The hidden command of the child process that parses an environment: what it writes, and its exit code.\<close>

definition parse_env_command :: "string + 'cli \<Rightarrow> string \<times> nat" where
  "parse_env_command parsed = (case parsed of Inr _ \<Rightarrow> ([], 0) | Inl rendered \<Rightarrow> (rendered, 2))"

section \<open>The exit code\<close>

definition target_ok :: "(string \<Rightarrow> string + string) \<Rightarrow> (target_kind \<Rightarrow> string \<Rightarrow> report) \<Rightarrow> string \<times> target_kind \<Rightarrow> bool" where
  "target_ok read check t \<longleftrightarrow> (\<exists>text'. read (fst t) = Inr text' \<and> re_errors (check (snd t) text') = [])"

lemma check_targets_run_failed:
  "fst (check_targets_run read check ts) \<longleftrightarrow> \<not> list_all (target_ok read check) ts"
  by (induction read check ts rule: check_targets_run.induct)
    (auto simp: Let_def case_prod_beta target_ok_def split: sum.splits)

text \<open>The command succeeds exactly when every file it looks at can be read and has no error.\<close>

lemma config_check_exit:
  "snd (config_check env is_file read check toml_arg env_arg) = 0 \<longleftrightarrow>
    list_all (target_ok read check) (check_targets env is_file toml_arg env_arg)"
  by (simp add: config_check_def Let_def case_prod_beta check_targets_run_failed)

text \<open>A file that is named is always checked.\<close>

lemma named_file_is_checked: "(f, Toml_File) \<in> set (check_targets env is_file (Some f) env_arg)"
  by (simp add: check_targets_def)

end
